theory Spec2Isabelle
  imports Main "HOL-Library.Sublist" "HOL-Library.AList"
begin

section \<open>Common vocabulary\<close>

text \<open>
  The JavaScript sources throw plain \<open>Error\<close> objects that differ only in their
  message. Each throw site of the modelled classes is one constructor of \<open>error\<close>;
  \<open>External\<close> stands for an exception raised by a collaborator (the adapter, the
  transport library, the disk).

  An \<open>await\<close> of a collaborator either resolves or rejects: the reply is a value of
  \<open>error + 'a\<close>, \<open>Inl\<close> for the rejection. Replies are parameters of the modelled
  functions, and the calls a function issues are listed in its effects.

  JavaScript runs one callback at a time, and a function runs without interruption up
  to its next \<open>await\<close>; while it is suspended, other calls run. A function of the
  connection manager is modelled as one step, the state it returns being the state at
  its end, and the part before its first \<open>await\<close> is a function of its own where the
  state seen during the \<open>await\<close> matters. The sender awaits the transport in two
  places, and what runs meanwhile is part of the model: \<open>sendImmediateMessage\<close> is
  modelled in two parts, before and after its \<open>await\<close>, and an iteration of the drain
  loop takes the calls that ran while its send was awaited.
\<close>

type_synonym session_id = string
type_synonym client = nat

datatype id_problem = EmptyId | TooLongId | BadCharsId

datatype error =
    NotInitialized
  | InvalidIdentifier id_problem
  | SessionLimitReached
  | SessionExists
  | SessionNotFound
  | SessionNotConnected
  | MaxReconnectReached
  | RateLimitExceeded
  | QueueFull
  | InvalidInput
  | UnsupportedFormat
  | NotRunning
  | SendTimeout
  | External

section \<open>ConnectionManager\<close>

text \<open>
  \<open>ConnectionManager\<close> keeps \<open>connections: Map sessionId -> connectionData\<close>. Of a
  connection record the fields read by the control flow are kept: \<open>status\<close>,
  \<open>reconnectAttempts\<close> and \<open>client\<close>; the time stamps, the metadata and the cached
  QR payload are only stored and never branch the code modelled here.
\<close>

datatype conn_status = Creating | Connected | QrReady | Reconnecting | ConnError | Closing

record connection =
  status :: conn_status
  reconnectAttempts :: nat
  client :: "client option"

record cm_config =
  maxSessions :: nat
  maxReconnectAttempts :: nat

record cm_state =
  isInitialized :: bool
  connections :: "(session_id \<times> connection) list"

datatype cm_event =
    SessionCreated | SessionError | SessionClosed | SessionReconnected
  | SessionReconnectFailed | MessageSentEv | MessageErrorEv

datatype cm_effect =
    AdapterCreateInstance session_id
  | AdapterCloseInstance session_id
  | AdapterSendMessage session_id string string
  | Emit cm_event session_id
  | LogWarn
  | LogError

text \<open>
  The JavaScript \<open>Map\<close> keeps its keys in insertion order; it is an association list
  with \<open>get\<close>, \<open>set\<close>, \<open>delete\<close> and \<open>size\<close> as below.
\<close>

definition get_connection :: "cm_state \<Rightarrow> session_id \<Rightarrow> connection option" where
  "get_connection st sid = map_of (connections st) sid"

definition set_connection :: "session_id \<Rightarrow> connection \<Rightarrow> cm_state \<Rightarrow> cm_state" where
  "set_connection sid c st = st\<lparr>connections := AList.update sid c (connections st)\<rparr>"

definition delete_connection :: "session_id \<Rightarrow> cm_state \<Rightarrow> cm_state" where
  "delete_connection sid st = st\<lparr>connections := AList.delete sid (connections st)\<rparr>"

text \<open>Events the adapter emits, each carrying \<open>data.sessionId\<close>.\<close>

datatype adapter_event =
    QrCodeEv session_id
  | InstanceConnected session_id
  | InstanceError session_id
  | MessageReceived session_id
  | StateChange session_id

text \<open>
  The reply of \<open>adapter.createInstance\<close>: the events the adapter emitted while the call
  was awaited (their listeners run before the call settles) and how the call settled.
\<close>

type_synonym create_reply = "adapter_event list \<times> (error + client)"

definition modify_connection ::
  "session_id \<Rightarrow> (connection \<Rightarrow> connection) \<Rightarrow> cm_state \<Rightarrow> cm_state" where
  "modify_connection sid f st =
     (case get_connection st sid of
        None \<Rightarrow> st
      | Some c \<Rightarrow> set_connection sid (f c) st)"

text \<open>\<open>_setupAdapterListeners\<close>: what each listener does to the connection it finds.\<close>

fun handle_adapter_event :: "adapter_event \<Rightarrow> cm_state \<Rightarrow> cm_state" where
  "handle_adapter_event (QrCodeEv sid) st = modify_connection sid (\<lambda>c. c\<lparr>status := QrReady\<rparr>) st"
| "handle_adapter_event (InstanceConnected sid) st =
     modify_connection sid (\<lambda>c. c\<lparr>status := Connected, reconnectAttempts := 0\<rparr>) st"
| "handle_adapter_event (InstanceError sid) st =
     modify_connection sid (\<lambda>c. c\<lparr>status := ConnError\<rparr>) st"
| "handle_adapter_event (MessageReceived sid) st = st"
| "handle_adapter_event (StateChange sid) st = st"

definition handle_adapter_events :: "adapter_event list \<Rightarrow> cm_state \<Rightarrow> cm_state" where
  "handle_adapter_events evs st = foldl (\<lambda>s e. handle_adapter_event e s) st evs"

subsection \<open>Validation\<close>

text \<open>
  \<open>String.prototype.trim\<close> removes white space; on the 8-bit characters of \<open>string\<close>
  these are TAB, LF, VT, FF, CR, space and the no-break space.
\<close>

definition js_whitespace :: "char \<Rightarrow> bool" where
  "js_whitespace c = (of_char c \<in> {9::nat, 10, 11, 12, 13, 32, 160})"

text \<open>The character class \<open>[a-zA-Z0-9_-]\<close>.\<close>

definition id_char :: "char \<Rightarrow> bool" where
  "id_char c =
     (c \<in> set ''abcdefghijklmnopqrstuvwxyzABCDEFGHIJKLMNOPQRSTUVWXYZ0123456789_-'')"

definition validateSessionId :: "session_id \<Rightarrow> error + unit" where
  "validateSessionId sid =
     (if sid = [] \<or> list_all js_whitespace sid then Inl (InvalidIdentifier EmptyId)
      else if length sid > 50 then Inl (InvalidIdentifier TooLongId)
      else if \<not> (sid \<noteq> [] \<and> list_all id_char sid) then Inl (InvalidIdentifier BadCharsId)
      else Inr ())"

definition ensureInitialized :: "cm_state \<Rightarrow> error + unit" where
  "ensureInitialized st = (if isInitialized st then Inr () else Inl NotInitialized)"

definition checkSessionLimit :: "cm_config \<Rightarrow> cm_state \<Rightarrow> error + unit" where
  "checkSessionLimit cfg st =
     (if length (connections st) \<ge> maxSessions cfg then Inl SessionLimitReached else Inr ())"

subsection \<open>createSession\<close>

text \<open>
  The checks before anything is registered, in the order of the source:
  \<open>_ensureInitialized\<close>, \<open>_validateSessionId\<close>, \<open>_checkSessionLimit\<close>, then the
  duplicate test.
\<close>

definition createSession_checks :: "cm_config \<Rightarrow> session_id \<Rightarrow> cm_state \<Rightarrow> error + unit" where
  "createSession_checks cfg sid st =
     (case ensureInitialized st of Inl e \<Rightarrow> Inl e | Inr _ \<Rightarrow>
       (case validateSessionId sid of Inl e \<Rightarrow> Inl e | Inr _ \<Rightarrow>
         (case checkSessionLimit cfg st of Inl e \<Rightarrow> Inl e | Inr _ \<Rightarrow>
           (if get_connection st sid \<noteq> None then Inl SessionExists else Inr ()))))"

definition new_connection :: connection where
  "new_connection = \<lparr>status = Creating, reconnectAttempts = 0, client = None\<rparr>"

text \<open>
  \<open>createSession\<close>. A failed check reaches the outer \<open>catch\<close>: the error is logged,
  \<open>sessionError\<close> is emitted and the error is rethrown; nothing was registered. Otherwise
  the placeholder is registered, the adapter is asked to create the instance, and on
  rejection the placeholder is deleted again.
\<close>

definition createSession ::
  "cm_config \<Rightarrow> session_id \<Rightarrow> create_reply \<Rightarrow> cm_state
     \<Rightarrow> (error + conn_status) \<times> cm_state \<times> cm_effect list" where
  "createSession cfg sid reply st =
     (case createSession_checks cfg sid st of
        Inl e \<Rightarrow> (Inl e, st, [LogError, Emit SessionError sid])
      | Inr _ \<Rightarrow>
          (let st1 = set_connection sid new_connection st;
               st2 = handle_adapter_events (fst reply) st1
           in case snd reply of
                Inr cl \<Rightarrow>
                  (Inr Connected,
                   modify_connection sid (\<lambda>c. c\<lparr>client := Some cl, status := Connected\<rparr>) st2,
                   [AdapterCreateInstance sid, Emit SessionCreated sid])
              | Inl e \<Rightarrow>
                  (Inl e,
                   delete_connection sid st2,
                   [AdapterCreateInstance sid, LogError, Emit SessionError sid])))"

subsection \<open>closeSession\<close>

text \<open>
  \<open>closeSession\<close> up to its \<open>await\<close>: the state the rest of the process sees while
  the adapter is closing. \<open>None\<close> when the session is unknown.
\<close>

definition closeSession_begin :: "session_id \<Rightarrow> cm_state \<Rightarrow> cm_state option" where
  "closeSession_begin sid st =
     (case get_connection st sid of
        None \<Rightarrow> None
      | Some c \<Rightarrow> Some (modify_connection sid (\<lambda>c. c\<lparr>status := Closing\<rparr>) st))"

text \<open>
  The whole call. When \<open>adapter.closeInstance\<close> resolves the connection is deleted and
  \<open>sessionClosed\<close> emitted. When it rejects, the \<open>catch\<close> logs the error, marks the
  connection \<open>error\<close> without deleting it, and rethrows.
\<close>

definition closeSession ::
  "session_id \<Rightarrow> (error + bool) \<Rightarrow> cm_state \<Rightarrow> (error + bool) \<times> cm_state \<times> cm_effect list" where
  "closeSession sid reply st =
     (case closeSession_begin sid st of
        None \<Rightarrow> (Inr False, st, [LogWarn])
      | Some st1 \<Rightarrow>
          (case reply of
             Inr _ \<Rightarrow>
               (Inr True, delete_connection sid st1,
                [AdapterCloseInstance sid, Emit SessionClosed sid])
           | Inl e \<Rightarrow>
               (Inl e, modify_connection sid (\<lambda>c. c\<lparr>status := ConnError\<rparr>) st1,
                [AdapterCloseInstance sid, LogError])))"

subsection \<open>reconnectSession\<close>

text \<open>
  \<open>reconnectSession\<close> up to its first \<open>await\<close>: the lookup, the limit test, the
  increment and the status \<open>reconnecting\<close>.
\<close>

definition reconnectSession_begin :: "cm_config \<Rightarrow> session_id \<Rightarrow> cm_state \<Rightarrow> error + cm_state" where
  "reconnectSession_begin cfg sid st =
     (case get_connection st sid of
        None \<Rightarrow> Inl SessionNotFound
      | Some c \<Rightarrow>
          if reconnectAttempts c \<ge> maxReconnectAttempts cfg then Inl MaxReconnectReached
          else Inr (modify_connection sid
                 (\<lambda>c. c\<lparr>reconnectAttempts := reconnectAttempts c + 1, status := Reconnecting\<rparr>) st))"

text \<open>
  The whole call. A rejection of \<open>closeInstance\<close> is only logged. Every error reaches the
  \<open>catch\<close>, which marks the connection (when there is one) \<open>error\<close>, emits
  \<open>sessionReconnectFailed\<close> and rethrows.
\<close>

definition reconnectSession ::
  "cm_config \<Rightarrow> session_id \<Rightarrow> (error + bool) \<Rightarrow> create_reply \<Rightarrow> cm_state
     \<Rightarrow> (error + bool) \<times> cm_state \<times> cm_effect list" where
  "reconnectSession cfg sid close_reply reply st =
     (case reconnectSession_begin cfg sid st of
        Inl e \<Rightarrow>
          (Inl e, modify_connection sid (\<lambda>c. c\<lparr>status := ConnError\<rparr>) st,
           [LogError, Emit SessionReconnectFailed sid])
      | Inr st1 \<Rightarrow>
          (let closed = (case close_reply of Inl _ \<Rightarrow> [AdapterCloseInstance sid, LogWarn]
                                          | Inr _ \<Rightarrow> [AdapterCloseInstance sid]);
               st2 = handle_adapter_events (fst reply) st1
           in case snd reply of
                Inr cl \<Rightarrow>
                  (Inr True,
                   modify_connection sid (\<lambda>c. c\<lparr>client := Some cl, status := Connected\<rparr>) st2,
                   closed @ [AdapterCreateInstance sid, Emit SessionReconnected sid])
              | Inl e \<Rightarrow>
                  (Inl e, modify_connection sid (\<lambda>c. c\<lparr>status := ConnError\<rparr>) st2,
                   closed @ [AdapterCreateInstance sid, LogError, Emit SessionReconnectFailed sid])))"

subsection \<open>sendMessage\<close>

definition cm_sendMessage ::
  "session_id \<Rightarrow> string \<Rightarrow> string \<Rightarrow> (error + unit) \<Rightarrow> cm_state
     \<Rightarrow> (error + unit) \<times> cm_effect list" where
  "cm_sendMessage sid number body reply st =
     (case get_connection st sid of
        None \<Rightarrow> (Inl SessionNotFound, [LogError, Emit MessageErrorEv sid])
      | Some c \<Rightarrow>
          if status c \<noteq> Connected then (Inl SessionNotConnected, [LogError, Emit MessageErrorEv sid])
          else (case reply of
                  Inr _ \<Rightarrow> (Inr (), [AdapterSendMessage sid number body, Emit MessageSentEv sid])
                | Inl e \<Rightarrow> (Inl e, [AdapterSendMessage sid number body, LogError,
                                   Emit MessageErrorEv sid])))"

section \<open>VenomBotAdapter\<close>

text \<open>
  The adapter keeps \<open>instances: Map sessionId -> instanceData\<close>. The venom library is the
  collaborator: \<open>create\<close> resolves with a client or rejects, \<open>client.close\<close> resolves
  or rejects. Both replies are parameters.
\<close>

datatype inst_status = Initializing | InstConnected

record venom_instance =
  iclient :: "client option"
  istatus :: inst_status

type_synonym adapter_state = "(session_id \<times> venom_instance) list"

text \<open>
  \<open>createInstance\<close>: an existing instance is an error. Every error reaches the \<open>catch\<close>,
  which deletes the instance stored under the id, emits \<open>instanceError\<close> and rethrows;
  success stores the client and emits \<open>instanceConnected\<close> before returning.
\<close>

definition venom_createInstance ::
  "session_id \<Rightarrow> (error + client) \<Rightarrow> adapter_state \<Rightarrow> create_reply \<times> adapter_state" where
  "venom_createInstance sid created insts =
     (if map_of insts sid \<noteq> None
      then (([InstanceError sid], Inl SessionExists), AList.delete sid insts)
      else (case created of
              Inr cl \<Rightarrow>
                (([InstanceConnected sid], Inr cl),
                 AList.update sid \<lparr>iclient = Some cl, istatus = InstConnected\<rparr> insts)
            | Inl e \<Rightarrow> (([InstanceError sid], Inl e), AList.delete sid insts)))"

text \<open>
  \<open>closeInstance\<close>: \<open>false\<close> for an unknown id. A rejection of \<open>client.close\<close> is
  caught and logged as a warning; the instance is removed either way and the call
  returns \<open>true\<close>. The flag returned last says whether the warning was logged.
\<close>

definition venom_closeInstance ::
  "session_id \<Rightarrow> (error + unit) \<Rightarrow> adapter_state \<Rightarrow> (error + bool) \<times> adapter_state \<times> bool" where
  "venom_closeInstance sid client_closed insts =
     (case map_of insts sid of
        None \<Rightarrow> (Inr False, insts, True)
      | Some i \<Rightarrow>
          (Inr True, AList.delete sid insts,
           iclient i \<noteq> None \<and> (case client_closed of Inl _ \<Rightarrow> True | Inr _ \<Rightarrow> False)))"

text \<open>\<open>String.prototype.includes\<close>.\<close>

fun js_includes :: "string \<Rightarrow> string \<Rightarrow> bool" where
  "js_includes [] needle = (needle = [])"
| "js_includes (c # cs) needle = (prefix needle (c # cs) \<or> js_includes cs needle)"

text \<open>The recipient \<open>sendMessage\<close> hands to \<open>client.sendText\<close>.\<close>

definition venom_formattedNumber :: "string \<Rightarrow> string" where
  "venom_formattedNumber number = (if js_includes number ''@c.us'' then number else number @ ''@c.us'')"

text \<open>
  \<open>ConnectionManager.reconnectSession\<close> run against this adapter: the replies of
  \<open>closeInstance\<close> and \<open>createInstance\<close> are the adapter's own. The adapter is only
  called when the first part of \<open>reconnectSession\<close> succeeded.
\<close>

definition reconnectSession_venom ::
  "cm_config \<Rightarrow> session_id \<Rightarrow> (error + unit) \<Rightarrow> (error + client) \<Rightarrow> cm_state \<times> adapter_state
     \<Rightarrow> ((error + bool) \<times> cm_state \<times> cm_effect list) \<times> adapter_state" where
  "reconnectSession_venom cfg sid client_closed created w =
     (let st = fst w; insts = snd w;
          closing = venom_closeInstance sid client_closed insts;
          creating = venom_createInstance sid created (fst (snd closing))
      in (reconnectSession cfg sid (fst closing) (fst creating) st,
          (case reconnectSession_begin cfg sid st of Inl _ \<Rightarrow> insts | Inr _ \<Rightarrow> snd creating)))"

text \<open>
  \<open>ConnectionManager.closeSession\<close> run against this adapter, the one the manager's
  constructor creates: the reply of \<open>closeInstance\<close> is the adapter's own, whatever
  \<open>client.close\<close> did. The adapter is only called for a session the manager knows. The
  flag returned last says whether the adapter logged its warning.
\<close>

definition closeSession_venom ::
  "session_id \<Rightarrow> (error + unit) \<Rightarrow> cm_state \<times> adapter_state
     \<Rightarrow> ((error + bool) \<times> cm_state \<times> cm_effect list) \<times> adapter_state \<times> bool" where
  "closeSession_venom sid client_closed w =
     (let st = fst w; insts = snd w;
          closing = venom_closeInstance sid client_closed insts
      in (closeSession sid (fst closing) st,
          (case closeSession_begin sid st of None \<Rightarrow> (insts, False) | Some _ \<Rightarrow> snd closing)))"

section \<open>QRCodeHandler\<close>

text \<open>
  A cached record holds the original payloads and the rendered images. The handler reads
  the clock once per call; \<open>now\<close> is that reading.
\<close>

record qr_original =
  orig_base64 :: "string option"
  orig_ascii :: "string option"
  orig_url :: "string option"

record qr_images =
  img_dataURL :: string
  img_buffer :: string
  img_base64 :: string

record qr_record =
  qr_attempts :: nat
  qr_timestamp :: nat
  qr_expiresAt :: nat
  qr_original :: qr_original
  qr_images :: qr_images
  qr_scanned :: bool

datatype qr_data =
    DataText string
  | DataAscii "string option"
  | DataOriginal qr_original
  | DataAll qr_images qr_original

record qr_result =
  res_format :: string
  res_data :: qr_data
  res_attempts :: nat
  res_timestamp :: nat
  res_expiresAt :: nat

record qr_state =
  qr_isInitialized :: bool
  qrCache :: "(session_id \<times> qr_record) list"

text \<open>\<open>toLowerCase\<close> on the letters A to Z; the case labels below hold no other letter.\<close>

definition to_lower :: "char \<Rightarrow> char" where
  "to_lower c =
     (case map_of (zip ''ABCDEFGHIJKLMNOPQRSTUVWXYZ'' ''abcdefghijklmnopqrstuvwxyz'') c of
        None \<Rightarrow> c
      | Some l \<Rightarrow> l)"

definition toLowerCase :: "string \<Rightarrow> string" where
  "toLowerCase s = map to_lower s"

definition qr_reply :: "string \<Rightarrow> qr_data \<Rightarrow> qr_record \<Rightarrow> qr_result" where
  "qr_reply fmt d r =
     \<lparr>res_format = fmt, res_data = d, res_attempts = qr_attempts r,
      res_timestamp = qr_timestamp r, res_expiresAt = qr_expiresAt r\<rparr>"

text \<open>The \<open>switch\<close> over the format; its \<open>default\<close> throws.\<close>

definition qr_select :: "string \<Rightarrow> qr_record \<Rightarrow> error + qr_result" where
  "qr_select fmt r =
     (let f = toLowerCase fmt in
      if f = ''dataurl'' \<or> f = ''data-url''
        then Inr (qr_reply ''dataURL'' (DataText (img_dataURL (qr_images r))) r)
      else if f = ''buffer'' then Inr (qr_reply ''buffer'' (DataText (img_buffer (qr_images r))) r)
      else if f = ''base64'' then Inr (qr_reply ''base64'' (DataText (img_base64 (qr_images r))) r)
      else if f = ''ascii'' then Inr (qr_reply ''ascii'' (DataAscii (orig_ascii (qr_original r))) r)
      else if f = ''original'' then Inr (qr_reply ''original'' (DataOriginal (qr_original r)) r)
      else if f = ''all'' then Inr (qr_reply ''all'' (DataAll (qr_images r) (qr_original r)) r)
      else Inl UnsupportedFormat)"

text \<open>
  The body of the \<open>try\<close> block of \<open>getQRCode\<close>: \<open>Inl\<close> is an exception raised inside
  it, \<open>Inr None\<close> is \<open>return null\<close>.
\<close>

definition getQRCode_try ::
  "nat \<Rightarrow> session_id \<Rightarrow> string \<Rightarrow> qr_state \<Rightarrow> (error + qr_result option) \<times> qr_state" where
  "getQRCode_try now sid fmt st =
     (if \<not> qr_isInitialized st then (Inl NotInitialized, st)
      else (case map_of (qrCache st) sid of
              None \<Rightarrow> (Inr None, st)
            | Some r \<Rightarrow>
                if now > qr_expiresAt r
                then (Inr None, st\<lparr>qrCache := AList.delete sid (qrCache st)\<rparr>)
                else (case qr_select fmt r of
                        Inl e \<Rightarrow> (Inl e, st)
                      | Inr res \<Rightarrow> (Inr (Some res), st))))"

text \<open>
  \<open>getQRCode\<close>: the \<open>catch\<close> logs whatever the block raised and returns \<open>null\<close>. The
  flag returned last says whether an error was logged.
\<close>

definition getQRCode ::
  "nat \<Rightarrow> session_id \<Rightarrow> string \<Rightarrow> qr_state \<Rightarrow> (error + qr_result option) \<times> qr_state \<times> bool" where
  "getQRCode now sid fmt st =
     (case getQRCode_try now sid fmt st of
        (Inl e, st') \<Rightarrow> (Inr None, st', True)
      | (Inr res, st') \<Rightarrow> (Inr res, st', False))"

definition clearQRCode :: "session_id \<Rightarrow> qr_state \<Rightarrow> bool \<times> qr_state" where
  "clearQRCode sid st =
     (map_of (qrCache st) sid \<noteq> None, st\<lparr>qrCache := AList.delete sid (qrCache st)\<rparr>)"

section \<open>MessageSender\<close>

subsection \<open>Configuration and data\<close>

text \<open>
  The constructor reads every number as \<open>value || default\<close>: an unset, unparsable or
  zero value is falsy and gives the default. Configured numbers are counts and
  milliseconds, modelled as natural numbers.
\<close>

definition or_default :: "nat \<Rightarrow> nat \<Rightarrow> nat" where
  "or_default x d = (if x = 0 then d else x)"

record ms_config =
  maxMessagesPerMinute :: nat
  messageDelay :: nat
  cfg_maxRetries :: nat
  maxQueueSize :: nat
  sendTimeout :: nat
  queueTimeout :: nat

definition MessageSender_config :: "ms_config \<Rightarrow> ms_config" where
  "MessageSender_config raw =
     \<lparr>maxMessagesPerMinute = or_default (maxMessagesPerMinute raw) 20,
      messageDelay = or_default (messageDelay raw) 3000,
      cfg_maxRetries = or_default (cfg_maxRetries raw) 3,
      maxQueueSize = or_default (maxQueueSize raw) 1000,
      sendTimeout = or_default (sendTimeout raw) 30000,
      queueTimeout = or_default (queueTimeout raw) 3600000\<rparr>"

text \<open>
  \<open>priority\<close> is only ever compared with \<open>'high'\<close>: \<open>Normal\<close> stands for every other
  value. The message id is generated from the clock and a random number; it is a
  parameter of \<open>sendMessage\<close>.
\<close>

datatype priority = Normal | High

datatype msg_status = Queued | Sending | Sent | SendError | Failed

record message =
  msg_id :: nat
  msg_to :: string
  originalTo :: string
  body :: string
  priority :: priority
  attempts :: nat
  maxRetries :: nat
  mstatus :: msg_status
  expiresAt :: nat
  delay :: nat
  timeout :: nat
  skipRateLimit :: bool

record send_options =
  opt_priority :: priority
  opt_maxRetries :: nat
  opt_delay :: nat
  opt_timeout :: nat
  opt_skipRateLimit :: bool

record rate_limiter =
  count :: nat
  resetAt :: nat

record processing =
  active :: bool
  paused :: bool
  currentMessage :: "message option"

record ms_state =
  ms_isInitialized :: bool
  messageQueues :: "session_id \<rightharpoonup> message list"
  rateLimiters :: "session_id \<rightharpoonup> rate_limiter"
  processingStatus :: "session_id \<rightharpoonup> processing"

text \<open>
  What the sender does to the outside: calls of \<open>connectionManager.sendMessage\<close> (for a
  queued message the call is tagged with the id of the message it delivers), emitted
  events, log lines of level warn and error, and the waits of the drain loop.
\<close>

datatype ms_effect =
    SendQueued nat session_id string string
  | SendImmediate session_id string string
  | EmitMessageQueued nat
  | EmitMessageSent session_id
  | EmitMessageFailed nat
  | EmitMessageError session_id
  | EmitQueueCleared session_id nat
  | MsLogWarn
  | MsLogError
  | WaitRateLimit
  | WaitDelay nat
  | WaitRetry

subsection \<open>Input checks and the recipient\<close>

definition ms_ensureInitialized :: "ms_state \<Rightarrow> error + unit" where
  "ms_ensureInitialized st = (if ms_isInitialized st then Inr () else Inl NotInitialized)"

definition validateInputs :: "session_id \<Rightarrow> string \<Rightarrow> string \<Rightarrow> error + unit" where
  "validateInputs sid to msg =
     (if sid = [] then Inl InvalidInput
      else if to = [] then Inl InvalidInput
      else if msg = [] then Inl InvalidInput
      else if length msg > 4096 then Inl InvalidInput
      else Inr ())"

text \<open>The class \<open>\d\<close> of a JavaScript regular expression: the ten ASCII digits.\<close>

definition is_digit :: "char \<Rightarrow> bool" where
  "is_digit c = (c \<in> set ''0123456789'')"

definition formatPhoneNumber :: "string \<Rightarrow> string" where
  "formatPhoneNumber number =
     (let cleaned = filter is_digit number;
          cleaned = (if \<not> prefix ''54'' cleaned \<and> length cleaned = 10
                     then ''54'' @ cleaned else cleaned);
          cleaned = (if \<not> js_includes cleaned ''@c.us'' then cleaned @ ''@c.us'' else cleaned)
      in cleaned)"

subsection \<open>Rate limiter\<close>

text \<open>\<open>_checkRateLimit\<close>: the answer and the limiter after the lazy reset.\<close>

definition checkRateLimit :: "ms_config \<Rightarrow> nat \<Rightarrow> session_id \<Rightarrow> ms_state \<Rightarrow> bool \<times> ms_state" where
  "checkRateLimit cfg now sid st =
     (case rateLimiters st sid of
        None \<Rightarrow> (True, st)
      | Some rl \<Rightarrow>
          if now \<ge> resetAt rl
          then (True, st\<lparr>rateLimiters := (rateLimiters st)(sid \<mapsto> \<lparr>count = 0, resetAt = now + 60000\<rparr>)\<rparr>)
          else (count rl < maxMessagesPerMinute cfg, st))"

definition recordSentMessage :: "nat \<Rightarrow> session_id \<Rightarrow> ms_state \<Rightarrow> ms_state" where
  "recordSentMessage now sid st =
     (let rl = (case rateLimiters st sid of
                  None \<Rightarrow> \<lparr>count = 0, resetAt = now + 60000\<rparr>
                | Some rl \<Rightarrow> rl)
      in st\<lparr>rateLimiters := (rateLimiters st)(sid \<mapsto> rl\<lparr>count := count rl + 1\<rparr>)\<rparr>)"

subsection \<open>sendImmediateMessage\<close>

text \<open>
  \<open>sendImmediateMessage\<close> awaits \<open>connectionManager.sendMessage\<close> between the check
  of the rate limiter and the recording of the send, and other calls run while it
  waits. The call is modelled in two parts. The first runs up to the \<open>await\<close>: the
  checks, the recipient, \<open>_checkRateLimit\<close> at the clock reading \<open>now\<close>; \<open>Inr\<close> is
  the recipient handed to the transport, the call being suspended. The second runs when
  the transport has settled with \<open>reply\<close>: \<open>_recordSentMessage\<close> at the clock reading
  \<open>now_sent\<close> and the event, or the rethrown error.
\<close>

definition sendImmediateMessage_begin ::
  "ms_config \<Rightarrow> session_id \<Rightarrow> string \<Rightarrow> string \<Rightarrow> bool \<Rightarrow> nat \<Rightarrow> ms_state
     \<Rightarrow> (error + string) \<times> ms_state \<times> ms_effect list" where
  "sendImmediateMessage_begin cfg sid to msg skip now st =
     (case ms_ensureInitialized st of Inl err \<Rightarrow> (Inl err, st, [MsLogError]) | Inr _ \<Rightarrow>
       (case validateInputs sid to msg of Inl err \<Rightarrow> (Inl err, st, [MsLogError]) | Inr _ \<Rightarrow>
         (let formattedTo = formatPhoneNumber to;
              checked = (if skip then (True, st) else checkRateLimit cfg now sid st);
              st1 = snd checked
          in if \<not> fst checked then (Inl RateLimitExceeded, st1, [MsLogError])
             else (Inr formattedTo, st1, [SendImmediate sid formattedTo msg]))))"

definition sendImmediateMessage_finish ::
  "session_id \<Rightarrow> string \<Rightarrow> bool \<Rightarrow> (error + unit) \<Rightarrow> nat \<Rightarrow> ms_state
     \<Rightarrow> (error + string) \<times> ms_state \<times> ms_effect list" where
  "sendImmediateMessage_finish sid formattedTo skip reply now_sent st =
     (case reply of
        Inl err \<Rightarrow> (Inl err, st, [MsLogError])
      | Inr _ \<Rightarrow>
          (Inr formattedTo,
           (if skip then st else recordSentMessage now_sent sid st),
           [EmitMessageSent sid]))"

text \<open>A call during whose \<open>await\<close> no other call of the sender runs.\<close>

definition sendImmediateMessage ::
  "ms_config \<Rightarrow> session_id \<Rightarrow> string \<Rightarrow> string \<Rightarrow> bool \<Rightarrow> nat \<Rightarrow> (error + unit) \<Rightarrow> nat \<Rightarrow> ms_state
     \<Rightarrow> (error + string) \<times> ms_state \<times> ms_effect list" where
  "sendImmediateMessage cfg sid to msg skip now reply now_sent st =
     (let b = sendImmediateMessage_begin cfg sid to msg skip now st
      in case fst b of
           Inl err \<Rightarrow> b
         | Inr formattedTo \<Rightarrow>
             (let f = sendImmediateMessage_finish sid formattedTo skip reply now_sent (fst (snd b))
              in (fst f, fst (snd f), snd (snd b) @ snd (snd f))))"

text \<open>
  Calls of \<open>sendImmediateMessage\<close> for one session, recipient and text that may overlap.
  A run is a list of events: a new call starts at a clock reading, or the transport
  settles the send of the call with a given number (calls are numbered from 0 in the
  order they start). Each call is suspended in its \<open>await\<close> or has returned.
\<close>

datatype imm_event = CallStarts nat | TransportSettles nat "error + unit" nat

datatype imm_call = Suspended string | Returned "error + string"

fun immediate_run ::
  "ms_config \<Rightarrow> session_id \<Rightarrow> string \<Rightarrow> string \<Rightarrow> imm_event list \<Rightarrow> ms_state \<times> imm_call list
     \<Rightarrow> ms_state \<times> imm_call list" where
  "immediate_run cfg sid to msg [] w = w"
| "immediate_run cfg sid to msg (CallStarts t # evs) w =
     (let b = sendImmediateMessage_begin cfg sid to msg False t (fst w)
      in immediate_run cfg sid to msg evs
           (fst (snd b),
            snd w @ [case fst b of Inl err \<Rightarrow> Returned (Inl err) | Inr f \<Rightarrow> Suspended f]))"
| "immediate_run cfg sid to msg (TransportSettles k reply t # evs) w =
     (if k < length (snd w)
      then (case snd w ! k of
              Suspended f \<Rightarrow>
                (let r = sendImmediateMessage_finish sid f False reply t (fst w)
                 in immediate_run cfg sid to msg evs (fst (snd r), (snd w)[k := Returned (fst r)]))
            | Returned _ \<Rightarrow> immediate_run cfg sid to msg evs w)
      else immediate_run cfg sid to msg evs w)"

text \<open>
  The run in which every call returns before the next one starts: call \<open>k + j\<close> starts at
  the first reading of the \<open>j\<close>-th triple, and the transport settles it with the
  triple's reply at its second reading.
\<close>

fun one_after_another :: "nat \<Rightarrow> (nat \<times> (error + unit) \<times> nat) list \<Rightarrow> imm_event list" where
  "one_after_another k [] = []"
| "one_after_another k ((t, reply, t') # xs) =
     CallStarts t # TransportSettles k reply t' # one_after_another (Suc k) xs"

subsection \<open>The queue\<close>

definition queue_of :: "ms_state \<Rightarrow> session_id \<Rightarrow> message list" where
  "queue_of st sid = (case messageQueues st sid of None \<Rightarrow> [] | Some q \<Rightarrow> q)"

definition set_queue :: "session_id \<Rightarrow> message list \<Rightarrow> ms_state \<Rightarrow> ms_state" where
  "set_queue sid q st = st\<lparr>messageQueues := (messageQueues st)(sid \<mapsto> q)\<rparr>"

definition processing_of :: "ms_state \<Rightarrow> session_id \<Rightarrow> processing" where
  "processing_of st sid =
     (case processingStatus st sid of
        None \<Rightarrow> \<lparr>active = False, paused = False, currentMessage = None\<rparr>
      | Some p \<Rightarrow> p)"

definition set_processing :: "session_id \<Rightarrow> processing \<Rightarrow> ms_state \<Rightarrow> ms_state" where
  "set_processing sid p st = st\<lparr>processingStatus := (processingStatus st)(sid \<mapsto> p)\<rparr>"

text \<open>
  \<open>_startProcessing\<close>: creates the status record when there is none, returns when the
  loop is active or paused, and otherwise marks the loop active and starts
  \<open>_processQueue\<close>, whose iterations are the steps of \<open>processQueue_loop\<close> below.
\<close>

definition startProcessing :: "session_id \<Rightarrow> ms_state \<Rightarrow> ms_state" where
  "startProcessing sid st =
     (let p = processing_of st sid
      in if active p \<or> paused p then set_processing sid p st
         else set_processing sid (p\<lparr>active := True\<rparr>) st)"

definition new_message ::
  "ms_config \<Rightarrow> nat \<Rightarrow> nat \<Rightarrow> string \<Rightarrow> string \<Rightarrow> send_options \<Rightarrow> message" where
  "new_message cfg clock mid to msg opts =
     \<lparr>msg_id = mid, msg_to = formatPhoneNumber to, originalTo = to, body = msg,
      priority = opt_priority opts, attempts = 0,
      maxRetries = or_default (opt_maxRetries opts) (cfg_maxRetries cfg),
      mstatus = Queued, expiresAt = clock + queueTimeout cfg,
      delay = or_default (opt_delay opts) (messageDelay cfg),
      timeout = or_default (opt_timeout opts) (sendTimeout cfg),
      skipRateLimit = opt_skipRateLimit opts\<rparr>"

text \<open>The insertion: \<open>unshift\<close> for \<open>'high'\<close>, \<open>push\<close> otherwise.\<close>

definition enqueue :: "message \<Rightarrow> message list \<Rightarrow> message list" where
  "enqueue m q = (if priority m = High then m # q else q @ [m])"

text \<open>
  \<open>sendMessage\<close>. \<open>known\<close> is whether \<open>connectionManager.getSession\<close> found the
  session. The result is the position reported to the caller, \<open>queue.length\<close> after the
  insertion. No reply of the transport is read anywhere in this function: the loop it
  may start is not awaited, and what the loop does before its first \<open>await\<close> is part of
  the loop's first iteration below.
\<close>

definition sendMessage ::
  "ms_config \<Rightarrow> nat \<Rightarrow> nat \<Rightarrow> session_id \<Rightarrow> string \<Rightarrow> string \<Rightarrow> send_options \<Rightarrow> bool
     \<Rightarrow> ms_state \<Rightarrow> (error + nat) \<times> ms_state \<times> ms_effect list" where
  "sendMessage cfg clock mid sid to msg opts known st =
     (case ms_ensureInitialized st of
        Inl err \<Rightarrow> (Inl err, st, [MsLogError, EmitMessageError sid])
      | Inr _ \<Rightarrow>
       (case validateInputs sid to msg of
          Inl err \<Rightarrow> (Inl err, st, [MsLogError, EmitMessageError sid])
        | Inr _ \<Rightarrow>
           (if \<not> known then (Inl SessionNotFound, st, [MsLogError, EmitMessageError sid])
            else (let q = queue_of st sid; st1 = set_queue sid q st
                  in if length q \<ge> maxQueueSize cfg
                     then (Inl QueueFull, st1, [MsLogError, EmitMessageError sid])
                     else (let q' = enqueue (new_message cfg clock mid to msg opts) q
                           in (Inr (length q'),
                               startProcessing sid (set_queue sid q' st1),
                               [EmitMessageQueued mid]))))))"

definition pauseSession :: "session_id \<Rightarrow> ms_state \<Rightarrow> bool \<times> ms_state" where
  "pauseSession sid st =
     (case processingStatus st sid of
        None \<Rightarrow> (False, st)
      | Some p \<Rightarrow> (True, set_processing sid (p\<lparr>paused := True\<rparr>) st))"

definition resumeSession :: "session_id \<Rightarrow> ms_state \<Rightarrow> bool \<times> ms_state" where
  "resumeSession sid st =
     (case processingStatus st sid of
        None \<Rightarrow> (False, st)
      | Some p \<Rightarrow>
          (let st1 = set_processing sid (p\<lparr>paused := False\<rparr>) st
           in (True, if active p then st1 else startProcessing sid st1)))"

text \<open>\<open>clearQueue\<close> with the filter \<open>'all'\<close>, the only one the facade uses.\<close>

definition clearQueue_all :: "session_id \<Rightarrow> ms_state \<Rightarrow> nat \<times> ms_state \<times> ms_effect list" where
  "clearQueue_all sid st =
     (case messageQueues st sid of
        None \<Rightarrow> (0, st, [])
      | Some q \<Rightarrow> (length q, set_queue sid [] st, [EmitQueueCleared sid (length q)]))"

text \<open>\<open>_cleanupExpiredMessages\<close>: every queue keeps the messages with \<open>now <= expiresAt\<close>.\<close>

definition cleanupExpiredMessages :: "nat \<Rightarrow> ms_state \<Rightarrow> ms_state" where
  "cleanupExpiredMessages clock st =
     st\<lparr>messageQueues :=
          (\<lambda>sid. map_option (filter (\<lambda>m. clock \<le> expiresAt m)) (messageQueues st sid))\<rparr>"

subsection \<open>Calls that run while the loop awaits a send\<close>

text \<open>
  \<open>_processQueue\<close> awaits the transport inside \<open>_sendQueuedMessage\<close>. While it waits,
  the callers of the sender go on: they queue messages, clear queues, pause and resume,
  and the timer sweeps expired messages. These are the calls that touch a queue or a
  processing status.
\<close>

datatype ms_call =
    CallSendMessage nat nat session_id string string send_options bool
  | CallClearQueue session_id
  | CallPauseSession session_id
  | CallResumeSession session_id
  | CallCleanupExpired nat

text \<open>
  The loop holds the message it is sending as \<open>message\<close>, the object that was
  \<open>queue[0]\<close> when the iteration began. The queue is the live array: a call that runs
  during the \<open>await\<close> changes it, and the object may then stand at another index, or no
  longer in the array. \<open>during_call\<close> runs one such call on the sender and follows the
  index of the object in the queue of the loop's session (\<open>None\<close> once it has left the
  queue); the effects of the call are appended.
\<close>

fun during_call ::
  "ms_config \<Rightarrow> session_id \<Rightarrow> ms_call \<Rightarrow> ms_state \<times> nat option \<times> ms_effect list
     \<Rightarrow> ms_state \<times> nat option \<times> ms_effect list" where
  "during_call cfg sid (CallSendMessage clock mid sid' to msg opts known) w =
     (let r = sendMessage cfg clock mid sid' to msg opts known (fst w)
      in (fst (snd r),
          (if sid' = sid \<and> \<not> isl (fst r) \<and> opt_priority opts = High
           then map_option Suc (fst (snd w)) else fst (snd w)),
          snd (snd w) @ snd (snd r)))"
| "during_call cfg sid (CallClearQueue sid') w =
     (let r = clearQueue_all sid' (fst w)
      in (fst (snd r), (if sid' = sid then None else fst (snd w)), snd (snd w) @ snd (snd r)))"
| "during_call cfg sid (CallPauseSession sid') w =
     (snd (pauseSession sid' (fst w)), fst (snd w), snd (snd w))"
| "during_call cfg sid (CallResumeSession sid') w =
     (snd (resumeSession sid' (fst w)), fst (snd w), snd (snd w))"
| "during_call cfg sid (CallCleanupExpired clock) w =
     (cleanupExpiredMessages clock (fst w),
      (case fst (snd w) of
         None \<Rightarrow> None
       | Some p \<Rightarrow>
           (let q = queue_of (fst w) sid
            in if p < length q \<and> clock \<le> expiresAt (q ! p)
               then Some (length (filter (\<lambda>m. clock \<le> expiresAt m) (take p q)))
               else None)),
      snd (snd w))"

text \<open>
  After the \<open>await\<close> the loop assigns to the fields of \<open>message\<close>: the assignment shows
  in the queue where the object stands. \<open>queue.shift()\<close> removes whatever is first in the
  live array.
\<close>

definition settle_in_flight :: "session_id \<Rightarrow> nat option \<Rightarrow> message \<Rightarrow> ms_state \<Rightarrow> ms_state" where
  "settle_in_flight sid pos m st =
     (case pos of
        None \<Rightarrow> st
      | Some p \<Rightarrow> set_queue sid ((queue_of st sid)[p := m]) st)"

definition queue_shift :: "session_id \<Rightarrow> ms_state \<Rightarrow> ms_state" where
  "queue_shift sid st = set_queue sid (tl (queue_of st sid)) st"

subsection \<open>The drain loop\<close>

text \<open>
  What one iteration of the loop meets: the clock reading at its top (\<open>now\<close>), how the
  transport settled (\<open>transport\<close>; a timeout of the send is a rejection), the clock
  reading of \<open>_recordSentMessage\<close> (\<open>now_sent\<close>), and the calls that ran while the send
  was awaited (\<open>during\<close>), in the order they ran.
\<close>

record send_env =
  now :: nat
  transport :: "error + unit"
  now_sent :: nat
  during :: "ms_call list"

text \<open>
  One iteration of the \<open>while\<close> loop of \<open>_processQueue\<close>, for a queue \<open>m # rest\<close>. The
  loop holds \<open>message = queue[0]\<close> and \<open>status.currentMessage\<close> is the same object, so
  every assignment to the message shows in both. An expired message is shifted out and a
  refusal of the rate limiter starts the wait, both without an \<open>await\<close> of the
  transport. Otherwise the message is marked \<open>sending\<close> and handed to the transport; the
  calls of \<open>during\<close> run; then the message is marked \<open>sent\<close>, the send recorded and the
  head of the queue shifted out, or the attempt is counted, the message marked
  \<open>failed\<close> and, when the attempts are used up, the head of the queue shifted out and
  \<open>messageFailed\<close> emitted. The state returned is the one at the next evaluation of the
  loop condition.
\<close>

definition with_current :: "session_id \<Rightarrow> message \<Rightarrow> ms_state \<Rightarrow> ms_state" where
  "with_current sid m st = set_processing sid ((processing_of st sid)\<lparr>currentMessage := Some m\<rparr>) st"

definition iteration ::
  "ms_config \<Rightarrow> session_id \<Rightarrow> send_env \<Rightarrow> message \<Rightarrow> message list \<Rightarrow> ms_state
     \<Rightarrow> ms_state \<times> ms_effect list" where
  "iteration cfg sid e m rest st =
     (if now e > expiresAt m
      then (with_current sid m (set_queue sid rest st), [MsLogWarn])
      else (let checked = (if skipRateLimit m then (True, st) else checkRateLimit cfg (now e) sid st);
                st1 = snd checked
            in if \<not> fst checked then (with_current sid m st1, [WaitRateLimit])
               else (let m1 = m\<lparr>mstatus := Sending\<rparr>;
                         awaiting = (with_current sid m1 (set_queue sid (m1 # rest) st1), Some 0,
                                     [SendQueued (msg_id m) sid (msg_to m) (body m)]);
                         settled = foldl (\<lambda>w c. during_call cfg sid c w) awaiting (during e);
                         st2 = fst settled;
                         pos = fst (snd settled);
                         fx = snd (snd settled)
                     in case transport e of
                          Inr _ \<Rightarrow>
                            (let m' = m1\<lparr>mstatus := Sent\<rparr>;
                                 st3 = settle_in_flight sid pos m' st2;
                                 st4 = (if skipRateLimit m then st3
                                        else recordSentMessage (now_sent e) sid st3)
                             in (with_current sid m' (queue_shift sid st4),
                                 fx @ [EmitMessageSent sid] @
                                 (if delay m > 0 then [WaitDelay (delay m)] else [])))
                        | Inl err \<Rightarrow>
                            (let m' = m1\<lparr>attempts := attempts m + 1, mstatus := Failed\<rparr>;
                                 st3 = settle_in_flight sid pos m' st2
                             in if attempts m' \<ge> maxRetries m'
                                then (with_current sid m' (queue_shift sid st3),
                                      fx @ [MsLogError, MsLogError, EmitMessageFailed (msg_id m)])
                                else (with_current sid m' st3,
                                      fx @ [MsLogError, WaitRetry])))))"

text \<open>What the loop does once its condition fails.\<close>

definition loop_exit :: "session_id \<Rightarrow> ms_state \<Rightarrow> ms_state" where
  "loop_exit sid st =
     set_processing sid ((processing_of st sid)\<lparr>active := False, currentMessage := None\<rparr>) st"

text \<open>
  The iterations of the loop, driven by their environment: one \<open>send_env\<close> per
  iteration. An iteration runs while the loop condition
  \<open>queue.length > 0 && !status.paused\<close> holds. The result is the state at the next
  evaluation of the condition after the last iteration that ran. A call that runs while
  an iteration waits after its send (the delay between messages, the delay before a
  retry, the wait for the rate limiter) meets the state the iteration returns, and the
  loop goes on from the state the call leaves: a run of the loop, the call, and the
  run of the remaining iterations.
\<close>

fun loop_steps ::
  "ms_config \<Rightarrow> session_id \<Rightarrow> send_env list \<Rightarrow> ms_state \<Rightarrow> ms_state \<times> ms_effect list" where
  "loop_steps cfg sid [] st = (st, [])"
| "loop_steps cfg sid (e # es) st =
     (if paused (processing_of st sid) then (st, [])
      else (case queue_of st sid of
              [] \<Rightarrow> (st, [])
            | m # rest \<Rightarrow>
                (let step = iteration cfg sid e m rest st;
                     more = loop_steps cfg sid es (fst step)
                 in (fst more, snd step @ snd more))))"

text \<open>
  The loop: when the condition fails the loop is left. When the readings run out while
  the condition still holds, the loop is suspended in a wait and the state is the one
  reached so far, still \<open>active\<close>.
\<close>

definition processQueue_loop ::
  "ms_config \<Rightarrow> session_id \<Rightarrow> send_env list \<Rightarrow> ms_state \<Rightarrow> ms_state \<times> ms_effect list" where
  "processQueue_loop cfg sid es st =
     (let r = loop_steps cfg sid es st
      in if queue_of (fst r) sid = [] \<or> paused (processing_of (fst r) sid)
         then (loop_exit sid (fst r), snd r)
         else r)"

text \<open>
  \<open>_processQueue\<close>: without a queue, or paused, it only clears \<open>active\<close>; otherwise it
  runs the loop.
\<close>

definition processQueue ::
  "ms_config \<Rightarrow> session_id \<Rightarrow> send_env list \<Rightarrow> ms_state \<Rightarrow> ms_state \<times> ms_effect list" where
  "processQueue cfg sid es st =
     (if messageQueues st sid = None \<or> paused (processing_of st sid)
      then (set_processing sid ((processing_of st sid)\<lparr>active := False\<rparr>) st, [])
      else processQueue_loop cfg sid es st)"

text \<open>
  Read off the effects: the queued messages handed to the transport, as (message id,
  recipient) in order, and the ids of the \<open>messageFailed\<close> notifications.
\<close>

fun queued_sends :: "ms_effect list \<Rightarrow> (nat \<times> string) list" where
  "queued_sends [] = []"
| "queued_sends (SendQueued i s t b # xs) = (i, t) # queued_sends xs"
| "queued_sends (x # xs) = queued_sends xs"

fun failure_notifications :: "ms_effect list \<Rightarrow> nat list" where
  "failure_notifications [] = []"
| "failure_notifications (EmitMessageFailed i # xs) = i # failure_notifications xs"
| "failure_notifications (x # xs) = failure_notifications xs"

fun immediate_recipients :: "ms_effect list \<Rightarrow> string list" where
  "immediate_recipients [] = []"
| "immediate_recipients (SendImmediate s t b # xs) = t # immediate_recipients xs"
| "immediate_recipients (x # xs) = immediate_recipients xs"

text \<open>
  An iteration is a failed delivery attempt when the head of the queue has not expired,
  the rate limiter lets it through and the transport rejects or times out. A run of
  iterations in which every one is a failed attempt:
\<close>

definition attempt_fails :: "ms_config \<Rightarrow> session_id \<Rightarrow> send_env \<Rightarrow> message \<Rightarrow> ms_state \<Rightarrow> bool" where
  "attempt_fails cfg sid e m st =
     (now e \<le> expiresAt m \<and>
      (skipRateLimit m \<or> fst (checkRateLimit cfg (now e) sid st)) \<and>
      isl (transport e))"

fun attempts_fail :: "ms_config \<Rightarrow> session_id \<Rightarrow> send_env list \<Rightarrow> ms_state \<Rightarrow> bool" where
  "attempts_fail cfg sid [] st = True"
| "attempts_fail cfg sid (e # es) st =
     (case queue_of st sid of
        [] \<Rightarrow> False
      | m # rest \<Rightarrow>
          attempt_fails cfg sid e m st \<and>
          attempts_fail cfg sid es (fst (iteration cfg sid e m rest st)))"

text \<open>The count of the rate limiter, 0 while the session has none.\<close>

definition sentCount :: "ms_state \<Rightarrow> session_id \<Rightarrow> nat" where
  "sentCount st sid = (case rateLimiters st sid of None \<Rightarrow> 0 | Some rl \<Rightarrow> count rl)"

text \<open>
  What a queued message is known by: its id, its recipient and its expiry. The
  assignments of the loop change none of the three. \<open>call_entries\<close> is what a
  \<open>sendMessage\<close> call queues for a session, and \<open>queued_id\<close> the id it queues under.
\<close>

definition entry :: "message \<Rightarrow> nat \<times> string \<times> nat" where
  "entry m = (msg_id m, msg_to m, expiresAt m)"

fun call_entries :: "ms_config \<Rightarrow> session_id \<Rightarrow> ms_call \<Rightarrow> (nat \<times> string \<times> nat) list" where
  "call_entries cfg sid (CallSendMessage clock mid sid' to msg opts known) =
     (if sid' = sid then [(mid, formatPhoneNumber to, clock + queueTimeout cfg)] else [])"
| "call_entries cfg sid c = []"

fun queued_id :: "session_id \<Rightarrow> ms_call \<Rightarrow> nat option" where
  "queued_id sid (CallSendMessage clock mid sid' to msg opts known) =
     (if sid' = sid then Some mid else None)"
| "queued_id sid c = None"

text \<open>What the calls that ran during the sends of a run queued for a session.\<close>

definition queued_during :: "ms_config \<Rightarrow> session_id \<Rightarrow> send_env list \<Rightarrow> (nat \<times> string \<times> nat) list" where
  "queued_during cfg sid es = concat (map (\<lambda>e. concat (map (call_entries cfg sid) (during e))) es)"

section \<open>WhatsAppService\<close>

text \<open>
  The facade owns a \<open>MessageListener\<close> (its \<open>activeListeners\<close> are the ids being
  listened to), the sender, the QR handler, the connection manager and a
  \<open>SessionStore\<close>, whose cache maps an id to the stored record; of that record the
  \<open>status\<close> string is kept.
\<close>

record store_state =
  store_isInitialized :: bool
  sessionsCache :: "(session_id \<times> string) list"

text \<open>
  \<open>SessionStore.updateSession(sessionId, {status: 'closed'})\<close>; \<open>written\<close> is how the
  write of the metadata file settled.
\<close>

definition updateSession_closed ::
  "session_id \<Rightarrow> (error + unit) \<Rightarrow> store_state \<Rightarrow> (error + unit) \<times> store_state" where
  "updateSession_closed sid written st =
     (if \<not> store_isInitialized st then (Inl NotInitialized, st)
      else (case map_of (sessionsCache st) sid of
              None \<Rightarrow> (Inl SessionNotFound, st)
            | Some _ \<Rightarrow>
                (let st1 = st\<lparr>sessionsCache := AList.update sid ''closed'' (sessionsCache st)\<rparr>
                 in (case written of Inl e \<Rightarrow> (Inl e, st1) | Inr _ \<Rightarrow> (Inr (), st1)))))"

text \<open>\<open>MessageListener.stopListening\<close>: \<open>false\<close> when nothing was listening.\<close>

definition stopListening :: "session_id \<Rightarrow> session_id list \<Rightarrow> bool \<times> session_id list" where
  "stopListening sid ls = (sid \<in> set ls, removeAll sid ls)"

record svc_state =
  svc_isInitialized :: bool
  svc_listeners :: "session_id list"
  svc_sender :: ms_state
  svc_qr :: qr_state
  svc_cm :: cm_state
  svc_store :: store_state

text \<open>
  \<open>WhatsAppService.closeSession\<close>: the five steps in order. The values the first four
  return are not read; an exception of the last two reaches the \<open>catch\<close> and is
  rethrown. The manager's \<open>sessionClosed\<close> event makes the listener stop once more.
\<close>

definition svc_closeSession ::
  "session_id \<Rightarrow> (error + bool) \<Rightarrow> (error + unit) \<Rightarrow> svc_state \<Rightarrow> (error + bool) \<times> svc_state" where
  "svc_closeSession sid close_reply written st =
     (if \<not> svc_isInitialized st then (Inl NotInitialized, st)
      else (let st1 = st\<lparr>svc_listeners := snd (stopListening sid (svc_listeners st)),
                          svc_sender := fst (snd (clearQueue_all sid (svc_sender st))),
                          svc_qr := snd (clearQRCode sid (svc_qr st))\<rparr>;
                closed = closeSession sid close_reply (svc_cm st1);
                st2 = st1\<lparr>svc_cm := fst (snd closed)\<rparr>
            in (case fst closed of
                  Inl e \<Rightarrow> (Inl e, st2)
                | Inr _ \<Rightarrow>
                    (let stored = updateSession_closed sid written (svc_store st2);
                         st3 = st2\<lparr>svc_store := snd stored\<rparr>
                     in (case fst stored of
                           Inl e \<Rightarrow> (Inl e, st3)
                         | Inr _ \<Rightarrow> (Inr True, st3))))))"

section \<open>Reachable manager states\<close>

text \<open>
  The states of the manager: the constructor's state, and whatever \<open>initialize\<close>, the
  three session operations (with any reply of the adapter, also seen at their
  \<open>await\<close>) and the adapter's events make of a state.
\<close>

inductive reachable :: "cm_config \<Rightarrow> cm_state \<Rightarrow> bool" for cfg :: cm_config where
  start: "reachable cfg \<lparr>isInitialized = False, connections = []\<rparr>"
| initialize: "reachable cfg st \<Longrightarrow> reachable cfg (st\<lparr>isInitialized := True\<rparr>)"
| create: "reachable cfg st \<Longrightarrow> reachable cfg (fst (snd (createSession cfg sid reply st)))"
| closing: "reachable cfg st \<Longrightarrow> closeSession_begin sid st = Some st1 \<Longrightarrow> reachable cfg st1"
| close: "reachable cfg st \<Longrightarrow> reachable cfg (fst (snd (closeSession sid closed st)))"
| reconnecting:
    "reachable cfg st \<Longrightarrow> reconnectSession_begin cfg sid st = Inr st1 \<Longrightarrow> reachable cfg st1"
| reconnect:
    "reachable cfg st \<Longrightarrow> reachable cfg (fst (snd (reconnectSession cfg sid closed reply st)))"
| event: "reachable cfg st \<Longrightarrow> reachable cfg (handle_adapter_event ev st)"

definition attempts_bounded :: "cm_config \<Rightarrow> cm_state \<Rightarrow> bool" where
  "attempts_bounded cfg st =
     list_all (\<lambda>kv. reconnectAttempts (snd kv) \<le> maxReconnectAttempts cfg) (connections st)"

text \<open>
  A window is fresh for a send checked at the clock reading \<open>t\<close> when the session has no
  limiter yet or the limiter's window has elapsed at \<open>t\<close>; the window this send starts
  ends one minute after the clock reading that created or reset the limiter (\<open>t'\<close> is
  the reading of \<open>_recordSentMessage\<close>).
\<close>

definition window_end :: "ms_state \<Rightarrow> session_id \<Rightarrow> nat \<Rightarrow> nat \<Rightarrow> nat" where
  "window_end st sid t t' =
     (case rateLimiters st sid of None \<Rightarrow> t' + 60000 | Some rl \<Rightarrow> t + 60000)"

definition fresh_window :: "ms_state \<Rightarrow> session_id \<Rightarrow> nat \<Rightarrow> bool" where
  "fresh_window st sid t =
     (case rateLimiters st sid of None \<Rightarrow> True | Some rl \<Rightarrow> resetAt rl \<le> t)"

section \<open>The specification's wording\<close>

text \<open>The pattern \<open>[A-Za-z0-9_-]{3,50}\<close> the specification gives for a session id.\<close>

definition spec_session_id_pattern :: "session_id \<Rightarrow> bool" where
  "spec_session_id_pattern sid = (3 \<le> length sid \<and> length sid \<le> 50 \<and> list_all id_char sid)"

text \<open>The pattern \<open>[A-Za-z0-9_-]{1,50}\<close>.\<close>

definition short_session_id_pattern :: "session_id \<Rightarrow> bool" where
  "short_session_id_pattern sid = (1 \<le> length sid \<and> length sid \<le> 50 \<and> list_all id_char sid)"

text \<open>The formats \<open>getQRCode\<close> serves, compared after \<open>toLowerCase\<close>.\<close>

definition supported_format :: "string \<Rightarrow> bool" where
  "supported_format fmt =
     (toLowerCase fmt \<in> set [''dataurl'', ''data-url'', ''buffer'', ''base64'', ''ascii'',
                              ''original'', ''all''])"

section \<open>Example states\<close>

text \<open>
  The sender right after \<open>initialize\<close>, the configuration with every default, options
  that set only the priority, and iterations in which the transport accepts or rejects
  at a given time while no other call runs.
\<close>

definition ms_start :: ms_state where
  "ms_start = \<lparr>ms_isInitialized = True, messageQueues = Map.empty, rateLimiters = Map.empty,
                processingStatus = Map.empty\<rparr>"

definition default_config :: ms_config where
  "default_config = MessageSender_config
     \<lparr>maxMessagesPerMinute = 0, messageDelay = 0, cfg_maxRetries = 0, maxQueueSize = 0,
      sendTimeout = 0, queueTimeout = 0\<rparr>"

text \<open>The configuration read from \<open>MAX_MESSAGES_PER_MINUTE=2\<close>.\<close>

definition two_per_minute :: ms_config where
  "two_per_minute = MessageSender_config
     \<lparr>maxMessagesPerMinute = 2, messageDelay = 0, cfg_maxRetries = 0, maxQueueSize = 0,
      sendTimeout = 0, queueTimeout = 0\<rparr>"

definition plain :: "priority \<Rightarrow> send_options" where
  "plain p = \<lparr>opt_priority = p, opt_maxRetries = 0, opt_delay = 0, opt_timeout = 0,
              opt_skipRateLimit = False\<rparr>"

definition delivered_at :: "nat \<Rightarrow> send_env" where
  "delivered_at t = \<lparr>now = t, transport = Inr (), now_sent = t, during = []\<rparr>"

definition rejected_at :: "nat \<Rightarrow> send_env" where
  "rejected_at t = \<lparr>now = t, transport = Inl External, now_sent = t, during = []\<rparr>"

text \<open>A sender whose session \<open>s1\<close> has sent two messages in the window ending at 60010.\<close>

definition spent_window :: ms_state where
  "spent_window =
     \<lparr>ms_isInitialized = True, messageQueues = Map.empty,
      rateLimiters = [''s1'' \<mapsto> \<lparr>count = 2, resetAt = 60010\<rparr>],
      processingStatus = Map.empty\<rparr>"

text \<open>A sender whose session \<open>s1\<close> has sent one message in the window ending at 60010.\<close>

definition one_sent :: ms_state where
  "one_sent =
     \<lparr>ms_isInitialized = True, messageQueues = Map.empty,
      rateLimiters = [''s1'' \<mapsto> \<lparr>count = 1, resetAt = 60010\<rparr>],
      processingStatus = Map.empty\<rparr>"

text \<open>One message, and the sender after \<open>sendMessage\<close> queued it for session \<open>s1\<close>.\<close>

definition hello :: message where
  "hello = new_message default_config 3 4 ''1145678901'' ''hello'' (plain Normal)"

definition one_queued :: ms_state where
  "one_queued = startProcessing ''s1'' (set_queue ''s1'' [hello] ms_start)"

text \<open>
  The call of a client that queues a high-priority message for \<open>s1\<close> at time 25, and
  an iteration that starts at 30 and whose send is rejected, this call running while the
  send is awaited.
\<close>

definition urgent_call :: ms_call where
  "urgent_call = CallSendMessage 25 9 ''s1'' ''1145678901'' ''urgent'' (plain High) True"

definition rejected_while_queued :: send_env where
  "rejected_while_queued =
     \<lparr>now = 30, transport = Inl External, now_sent = 30, during = [urgent_call]\<rparr>"

text \<open>
  A session whose queue has drained and whose processing was then paused, and two
  high-priority messages.
\<close>

definition idle_paused :: ms_state where
  "idle_paused =
     \<lparr>ms_isInitialized = True, messageQueues = [''s1'' \<mapsto> []], rateLimiters = Map.empty,
      processingStatus = [''s1'' \<mapsto> \<lparr>active = False, paused = True, currentMessage = None\<rparr>]\<rparr>"

definition urgent_first :: message where
  "urgent_first = new_message default_config 5 2 ''1145678901'' ''second'' (plain High)"

definition urgent_second :: message where
  "urgent_second = new_message default_config 7 3 ''1145678901'' ''third'' (plain High)"

definition two_urgent :: ms_state where
  "two_urgent =
     \<lparr>ms_isInitialized = True, messageQueues = [''s1'' \<mapsto> [urgent_second, urgent_first]],
      rateLimiters = Map.empty,
      processingStatus = [''s1'' \<mapsto> \<lparr>active = True, paused = False, currentMessage = None\<rparr>]\<rparr>"

text \<open>A pairing record cached for \<open>s1\<close>, and a facade holding one connected session.\<close>

definition qr_ex :: qr_state where
  "qr_ex =
     \<lparr>qr_isInitialized = True,
      qrCache = [(''s1'', \<lparr>qr_attempts = 3, qr_timestamp = 50, qr_expiresAt = 200,
                          qr_original = \<lparr>orig_base64 = Some ''b64'', orig_ascii = None,
                                         orig_url = None\<rparr>,
                          qr_images = \<lparr>img_dataURL = ''d'', img_buffer = ''b'',
                                       img_base64 = ''c''\<rparr>,
                          qr_scanned = False\<rparr>)]\<rparr>"

definition svc_ex :: svc_state where
  "svc_ex =
     \<lparr>svc_isInitialized = True, svc_listeners = [''s1''],
      svc_sender = ms_start,
      svc_qr = \<lparr>qr_isInitialized = True, qrCache = []\<rparr>,
      svc_cm = \<lparr>isInitialized = True,
                connections = [(''s1'', \<lparr>status = Connected, reconnectAttempts = 0,
                                         client = Some 1\<rparr>)]\<rparr>,
      svc_store = \<lparr>store_isInitialized = True, sessionsCache = [(''s1'', ''created'')]\<rparr>\<rparr>"

section \<open>Proofs\<close>

lemma get_set_connection [simp]:
  "get_connection (set_connection sid c st) k = (if k = sid then Some c else get_connection st k)"
  by (simp add: get_connection_def set_connection_def update_conv')

lemma get_delete_connection [simp]:
  "get_connection (delete_connection sid st) k = (if k = sid then None else get_connection st k)"
  by (simp add: get_connection_def delete_connection_def delete_conv')

lemma get_modify_connection [simp]:
  "get_connection (modify_connection sid f st) k =
     (if k = sid then map_option f (get_connection st sid) else get_connection st k)"
  by (simp add: modify_connection_def split: option.splits)

subsection \<open>The reconnection counter\<close>

lemma list_all_update:
  "list_all P al \<Longrightarrow> P (k, v) \<Longrightarrow> list_all P (AList.update k v al)"
  by (induction al) auto

lemma list_all_delete: "list_all P al \<Longrightarrow> list_all P (AList.delete k al)"
  by (simp add: AList.delete_eq list_all_iff)

lemma bounded_lookup:
  "attempts_bounded cfg st \<Longrightarrow> get_connection st sid = Some c
     \<Longrightarrow> reconnectAttempts c \<le> maxReconnectAttempts cfg"
proof -
  assume b: "attempts_bounded cfg st" and g: "get_connection st sid = Some c"
  from g have "(sid, c) \<in> set (connections st)"
    by (simp add: get_connection_def map_of_SomeD)
  with b show ?thesis
    by (fastforce simp: attempts_bounded_def list_all_iff)
qed

lemma bounded_set:
  "attempts_bounded cfg st \<Longrightarrow> reconnectAttempts c \<le> maxReconnectAttempts cfg
     \<Longrightarrow> attempts_bounded cfg (set_connection sid c st)"
  by (simp add: attempts_bounded_def set_connection_def list_all_update)

lemma bounded_delete:
  "attempts_bounded cfg st \<Longrightarrow> attempts_bounded cfg (delete_connection sid st)"
  by (simp add: attempts_bounded_def delete_connection_def list_all_delete)

lemma bounded_modify:
  "attempts_bounded cfg st
     \<Longrightarrow> (\<And>c. get_connection st sid = Some c \<Longrightarrow> reconnectAttempts (f c) \<le> maxReconnectAttempts cfg)
     \<Longrightarrow> attempts_bounded cfg (modify_connection sid f st)"
  by (auto simp: modify_connection_def bounded_set split: option.splits)

lemma bounded_event:
  "attempts_bounded cfg st \<Longrightarrow> attempts_bounded cfg (handle_adapter_event ev st)"
  by (cases ev) (auto intro!: bounded_modify dest: bounded_lookup)

lemma bounded_events:
  "attempts_bounded cfg st \<Longrightarrow> attempts_bounded cfg (handle_adapter_events evs st)"
  unfolding handle_adapter_events_def
  by (induction evs arbitrary: st) (auto intro: bounded_event)

lemma bounded_create:
  assumes "attempts_bounded cfg st"
  shows "attempts_bounded cfg (fst (snd (createSession cfg sid reply st)))"
proof (cases "createSession_checks cfg sid st")
  case (Inl e)
  with assms show ?thesis by (simp add: createSession_def)
next
  case (Inr u)
  have 1: "attempts_bounded cfg (set_connection sid new_connection st)"
    using assms by (intro bounded_set) (simp_all add: new_connection_def)
  have 2: "attempts_bounded cfg (handle_adapter_events (fst reply) (set_connection sid new_connection st))"
    using 1 by (rule bounded_events)
  show ?thesis
  proof (cases "snd reply")
    case (Inl e)
    with Inr 2 show ?thesis by (simp add: createSession_def Let_def bounded_delete)
  next
    case (Inr cl)
    have "attempts_bounded cfg (modify_connection sid (\<lambda>c. c\<lparr>client := Some cl, status := Connected\<rparr>)
        (handle_adapter_events (fst reply) (set_connection sid new_connection st)))"
      using 2 by (rule bounded_modify) (use 2 in \<open>auto dest: bounded_lookup\<close>)
    with \<open>createSession_checks cfg sid st = Inr u\<close> Inr show ?thesis
      by (simp add: createSession_def Let_def)
  qed
qed

lemma bounded_closing:
  "attempts_bounded cfg st \<Longrightarrow> closeSession_begin sid st = Some st1 \<Longrightarrow> attempts_bounded cfg st1"
  by (auto simp: closeSession_begin_def split: option.splits intro!: bounded_modify dest: bounded_lookup)

lemma bounded_close:
  assumes "attempts_bounded cfg st"
  shows "attempts_bounded cfg (fst (snd (closeSession sid closed st)))"
proof (cases "closeSession_begin sid st")
  case None
  with assms show ?thesis by (simp add: closeSession_def)
next
  case (Some st1)
  then have "attempts_bounded cfg st1" using assms bounded_closing by blast
  then show ?thesis using Some
    by (cases closed) (auto simp: closeSession_def intro!: bounded_modify bounded_delete dest: bounded_lookup)
qed

lemma bounded_reconnecting:
  "attempts_bounded cfg st \<Longrightarrow> reconnectSession_begin cfg sid st = Inr st1 \<Longrightarrow> attempts_bounded cfg st1"
  by (auto simp: reconnectSession_begin_def split: option.splits if_splits intro!: bounded_modify)

lemma bounded_reconnect:
  assumes "attempts_bounded cfg st"
  shows "attempts_bounded cfg (fst (snd (reconnectSession cfg sid closed reply st)))"
proof (cases "reconnectSession_begin cfg sid st")
  case (Inl e)
  with assms show ?thesis
    by (auto simp: reconnectSession_def intro!: bounded_modify dest: bounded_lookup)
next
  case (Inr st1)
  then have "attempts_bounded cfg st1" using assms bounded_reconnecting by blast
  then have 2: "attempts_bounded cfg (handle_adapter_events (fst reply) st1)"
    by (rule bounded_events)
  show ?thesis using Inr 2
    by (cases "snd reply") (auto simp: reconnectSession_def Let_def intro!: bounded_modify dest: bounded_lookup)
qed

lemma reachable_bounded: "reachable cfg st \<Longrightarrow> attempts_bounded cfg st"
proof (induction rule: reachable.induct)
  case start
  show ?case by (simp add: attempts_bounded_def)
next
  case (initialize st)
  then show ?case by (simp add: attempts_bounded_def)
qed (auto intro: bounded_create bounded_closing bounded_close bounded_reconnecting bounded_reconnect bounded_event)

lemma reconnect_exhausted:
  assumes "get_connection st sid = Some c" "maxReconnectAttempts cfg \<le> reconnectAttempts c"
  shows "reconnectSession cfg sid closed reply st =
           (Inl MaxReconnectReached, modify_connection sid (\<lambda>c. c\<lparr>status := ConnError\<rparr>) st,
            [LogError, Emit SessionReconnectFailed sid])"
  using assms by (simp add: reconnectSession_def reconnectSession_begin_def)

lemma reconnect_begin_increments:
  assumes "get_connection st sid = Some c" "reconnectAttempts c < maxReconnectAttempts cfg"
  shows "\<exists>st1. reconnectSession_begin cfg sid st = Inr st1 \<and>
           get_connection st1 sid = Some (c\<lparr>reconnectAttempts := reconnectAttempts c + 1, status := Reconnecting\<rparr>)"
  using assms by (simp add: reconnectSession_begin_def)

lemma reconnect_calls_adapter:
  assumes "get_connection st sid = Some c" "reconnectAttempts c < maxReconnectAttempts cfg"
  shows "filter (\<lambda>x. x = AdapterCloseInstance sid \<or> x = AdapterCreateInstance sid) (snd (snd (reconnectSession cfg sid closed reply st)))
          = [AdapterCloseInstance sid, AdapterCreateInstance sid]"
  using assms by (auto simp: reconnectSession_def reconnectSession_begin_def Let_def split: sum.splits)

lemma reconnect_continues:
  assumes "get_connection st sid = Some c" "reconnectAttempts c < maxReconnectAttempts cfg"
  shows "\<exists>st1. reconnectSession_begin cfg sid st = Inr st1 \<and>
           get_connection st1 sid =
             Some (c\<lparr>reconnectAttempts := reconnectAttempts c + 1, status := Reconnecting\<rparr>) \<and>
           fst (snd (reconnectSession cfg sid closed reply st)) =
             (case snd reply of
                Inr cl \<Rightarrow> modify_connection sid (\<lambda>c. c\<lparr>client := Some cl, status := Connected\<rparr>)
                            (handle_adapter_events (fst reply) st1)
              | Inl e \<Rightarrow> modify_connection sid (\<lambda>c. c\<lparr>status := ConnError\<rparr>)
                           (handle_adapter_events (fst reply) st1))"
  using assms
  by (simp add: reconnectSession_def reconnectSession_begin_def Let_def split: sum.splits)

lemma reconnect_rejected:
  assumes "get_connection st sid = Some c" "reconnectAttempts c < maxReconnectAttempts cfg"
  shows "reconnectSession cfg sid closed ([], Inl e) st =
           (Inl e,
            modify_connection sid (\<lambda>c. c\<lparr>status := ConnError\<rparr>)
              (modify_connection sid
                 (\<lambda>c. c\<lparr>reconnectAttempts := reconnectAttempts c + 1, status := Reconnecting\<rparr>) st),
            (case closed of Inl _ \<Rightarrow> [AdapterCloseInstance sid, LogWarn]
                          | Inr _ \<Rightarrow> [AdapterCloseInstance sid]) @
            [AdapterCreateInstance sid, LogError, Emit SessionReconnectFailed sid]) \<and>
         get_connection (fst (snd (reconnectSession cfg sid closed ([], Inl e) st))) sid =
           Some (c\<lparr>reconnectAttempts := reconnectAttempts c + 1, status := ConnError\<rparr>)"
  using assms
  by (simp add: reconnectSession_def reconnectSession_begin_def Let_def handle_adapter_events_def)

lemma reconnect_venom_success:
  assumes "get_connection st sid = Some c" "reconnectAttempts c < maxReconnectAttempts cfg"
  shows "fst (fst (reconnectSession_venom cfg sid client_closed (Inr cl) (st, insts))) = Inr True \<and>
         get_connection (fst (snd (fst (reconnectSession_venom cfg sid client_closed (Inr cl) (st, insts))))) sid
           = Some (c\<lparr>reconnectAttempts := 0, status := Connected, client := Some cl\<rparr>)"
  using assms
  by (auto simp: reconnectSession_venom_def reconnectSession_def reconnectSession_begin_def Let_def
      venom_closeInstance_def venom_createInstance_def handle_adapter_events_def delete_conv'
      split: option.splits)

lemma reconnect_venom_failure:
  assumes "get_connection st sid = Some c" "reconnectAttempts c < maxReconnectAttempts cfg"
  shows "fst (fst (reconnectSession_venom cfg sid client_closed (Inl e) (st, insts))) = Inl e \<and>
         get_connection (fst (snd (fst (reconnectSession_venom cfg sid client_closed (Inl e) (st, insts))))) sid
           = Some (c\<lparr>reconnectAttempts := reconnectAttempts c + 1, status := ConnError\<rparr>)"
  using assms
  by (auto simp: reconnectSession_venom_def reconnectSession_def reconnectSession_begin_def Let_def
      venom_closeInstance_def venom_createInstance_def handle_adapter_events_def delete_conv'
      split: option.splits)

lemma example_reachable: "reachable \<lparr>maxSessions = 10, maxReconnectAttempts = 3\<rparr>
  \<lparr>isInitialized = True, connections = [(''s1'', \<lparr>status = Connected, reconnectAttempts = 0, client = Some 1\<rparr>)]\<rparr>"
proof -
  have "reachable \<lparr>maxSessions = 10, maxReconnectAttempts = 3\<rparr>
     (fst (snd (createSession \<lparr>maxSessions = 10, maxReconnectAttempts = 3\<rparr> ''s1'' ([InstanceConnected ''s1''], Inr 1)
        (\<lparr>isInitialized = False, connections = []\<rparr>\<lparr>isInitialized := True\<rparr>))))"
    by (intro reachable.create reachable.initialize reachable.start)
  also have "fst (snd (createSession \<lparr>maxSessions = 10, maxReconnectAttempts = 3\<rparr> ''s1'' ([InstanceConnected ''s1''], Inr 1)
        (\<lparr>isInitialized = False, connections = []\<rparr>\<lparr>isInitialized := True\<rparr>))) =
       \<lparr>isInitialized = True, connections = [(''s1'', \<lparr>status = Connected, reconnectAttempts = 0, client = Some 1\<rparr>)]\<rparr>"
    by code_simp
  finally show ?thesis .
qed

text \<open>
  C1. The reconnection counter is bounded: in every reachable state no session has more
  attempts than \<open>maxReconnectAttempts\<close>. For an existing session, \<open>reconnectSession\<close>
  called with the counter at or above the limit throws (the error
  \<open>MaxReconnectReached\<close>), calls the adapter not at all and leaves the status
  \<open>error\<close> with the counter unchanged. Below the limit it increments the counter and
  sets \<open>reconnecting\<close> before its first \<open>await\<close>, asks the adapter to close and then
  to create the instance, and goes on from the incremented state: what it returns is
  that state after the adapter's events, marked \<open>connected\<close> or \<open>error\<close>. A
  reconnection the adapter rejects keeps the increment and ends \<open>error\<close>. The counter
  is reset to 0 by the listener of the adapter's \<open>instanceConnected\<close> event, which the
  adapter emits when \<open>createInstance\<close> succeeds: a reconnection through the adapter
  that succeeds ends \<open>connected\<close> with the counter 0, one that fails ends \<open>error\<close>
  with the counter one higher.
\<close>

theorem reconnectSession_counter_bounded:
  "(reachable cfg st \<longrightarrow> attempts_bounded cfg st) \<and>
   (get_connection st sid = Some c \<longrightarrow>
      (if maxReconnectAttempts cfg \<le> reconnectAttempts c
       then reconnectSession cfg sid closed reply st =
              (Inl MaxReconnectReached, modify_connection sid (\<lambda>c. c\<lparr>status := ConnError\<rparr>) st,
               [LogError, Emit SessionReconnectFailed sid]) \<and>
            get_connection (modify_connection sid (\<lambda>c. c\<lparr>status := ConnError\<rparr>) st) sid
              = Some (c\<lparr>status := ConnError\<rparr>)
       else (\<exists>st1. reconnectSession_begin cfg sid st = Inr st1 \<and>
                   get_connection st1 sid =
                     Some (c\<lparr>reconnectAttempts := reconnectAttempts c + 1, status := Reconnecting\<rparr>) \<and>
                   fst (snd (reconnectSession cfg sid closed reply st)) =
                     (case snd reply of
                        Inr cl \<Rightarrow> modify_connection sid (\<lambda>c. c\<lparr>client := Some cl, status := Connected\<rparr>)
                                    (handle_adapter_events (fst reply) st1)
                      | Inl e \<Rightarrow> modify_connection sid (\<lambda>c. c\<lparr>status := ConnError\<rparr>)
                                   (handle_adapter_events (fst reply) st1))) \<and>
            fst (reconnectSession cfg sid closed ([], Inl err) st) = Inl err \<and>
            get_connection (fst (snd (reconnectSession cfg sid closed ([], Inl err) st))) sid =
              Some (c\<lparr>reconnectAttempts := reconnectAttempts c + 1, status := ConnError\<rparr>) \<and>
            filter (\<lambda>x. x = AdapterCloseInstance sid \<or> x = AdapterCreateInstance sid)
                (snd (snd (reconnectSession cfg sid closed reply st)))
              = [AdapterCloseInstance sid, AdapterCreateInstance sid] \<and>
            fst (fst (reconnectSession_venom cfg sid client_closed (Inr cl) (st, insts))) = Inr True \<and>
            get_connection
                (fst (snd (fst (reconnectSession_venom cfg sid client_closed (Inr cl) (st, insts))))) sid
              = Some (c\<lparr>reconnectAttempts := 0, status := Connected, client := Some cl\<rparr>) \<and>
            fst (fst (reconnectSession_venom cfg sid client_closed (Inl err) (st, insts))) = Inl err \<and>
            get_connection
                (fst (snd (fst (reconnectSession_venom cfg sid client_closed (Inl err) (st, insts))))) sid
              = Some (c\<lparr>reconnectAttempts := reconnectAttempts c + 1, status := ConnError\<rparr>)) \<and>
      get_connection (handle_adapter_event (InstanceConnected sid) st) sid
        = Some (c\<lparr>status := Connected, reconnectAttempts := 0\<rparr>))"
proof (intro conjI impI)
  assume "reachable cfg st" then show "attempts_bounded cfg st" by (rule reachable_bounded)
next
  assume c: "get_connection st sid = Some c"
  show "get_connection (handle_adapter_event (InstanceConnected sid) st) sid
        = Some (c\<lparr>status := Connected, reconnectAttempts := 0\<rparr>)"
    using c by simp
  show "if maxReconnectAttempts cfg \<le> reconnectAttempts c
       then reconnectSession cfg sid closed reply st =
              (Inl MaxReconnectReached, modify_connection sid (\<lambda>c. c\<lparr>status := ConnError\<rparr>) st,
               [LogError, Emit SessionReconnectFailed sid]) \<and>
            get_connection (modify_connection sid (\<lambda>c. c\<lparr>status := ConnError\<rparr>) st) sid
              = Some (c\<lparr>status := ConnError\<rparr>)
       else (\<exists>st1. reconnectSession_begin cfg sid st = Inr st1 \<and>
                   get_connection st1 sid =
                     Some (c\<lparr>reconnectAttempts := reconnectAttempts c + 1, status := Reconnecting\<rparr>) \<and>
                   fst (snd (reconnectSession cfg sid closed reply st)) =
                     (case snd reply of
                        Inr cl \<Rightarrow> modify_connection sid (\<lambda>c. c\<lparr>client := Some cl, status := Connected\<rparr>)
                                    (handle_adapter_events (fst reply) st1)
                      | Inl e \<Rightarrow> modify_connection sid (\<lambda>c. c\<lparr>status := ConnError\<rparr>)
                                   (handle_adapter_events (fst reply) st1))) \<and>
            fst (reconnectSession cfg sid closed ([], Inl err) st) = Inl err \<and>
            get_connection (fst (snd (reconnectSession cfg sid closed ([], Inl err) st))) sid =
              Some (c\<lparr>reconnectAttempts := reconnectAttempts c + 1, status := ConnError\<rparr>) \<and>
            filter (\<lambda>x. x = AdapterCloseInstance sid \<or> x = AdapterCreateInstance sid)
                (snd (snd (reconnectSession cfg sid closed reply st)))
              = [AdapterCloseInstance sid, AdapterCreateInstance sid] \<and>
            fst (fst (reconnectSession_venom cfg sid client_closed (Inr cl) (st, insts))) = Inr True \<and>
            get_connection
                (fst (snd (fst (reconnectSession_venom cfg sid client_closed (Inr cl) (st, insts))))) sid
              = Some (c\<lparr>reconnectAttempts := 0, status := Connected, client := Some cl\<rparr>) \<and>
            fst (fst (reconnectSession_venom cfg sid client_closed (Inl err) (st, insts))) = Inl err \<and>
            get_connection
                (fst (snd (fst (reconnectSession_venom cfg sid client_closed (Inl err) (st, insts))))) sid
              = Some (c\<lparr>reconnectAttempts := reconnectAttempts c + 1, status := ConnError\<rparr>)"
  proof (cases "maxReconnectAttempts cfg \<le> reconnectAttempts c")
    case True
    then show ?thesis using c reconnect_exhausted[OF c True] by simp
  next
    case False
    then have lt: "reconnectAttempts c < maxReconnectAttempts cfg" by simp
    have r: "fst (reconnectSession cfg sid closed ([], Inl err) st) = Inl err"
      using reconnect_rejected[OF c lt, of closed err] by simp
    show ?thesis
      using False reconnect_continues[OF c lt, of closed reply] r
        reconnect_rejected[OF c lt, of closed err, THEN conjunct2]
        reconnect_calls_adapter[OF c lt, of closed reply]
        reconnect_venom_success[OF c lt] reconnect_venom_failure[OF c lt]
      by simp
  qed
qed

text \<open>
  The theorem at a reachable state holding a freshly connected session, reconnected
  through the adapter with success and with failure, and at a session that has used its
  three attempts.
\<close>

theorem reconnectSession_counter_bounded_witness:
  "attempts_bounded \<lparr>maxSessions = 10, maxReconnectAttempts = 3\<rparr>
      \<lparr>isInitialized = True,
       connections = [(''s1'', \<lparr>status = Connected, reconnectAttempts = 0, client = Some 1\<rparr>)]\<rparr> \<and>
   fst (reconnectSession_venom \<lparr>maxSessions = 10, maxReconnectAttempts = 3\<rparr> ''s1'' (Inr ()) (Inr 2)
      (\<lparr>isInitialized = True,
        connections = [(''s1'', \<lparr>status = Connected, reconnectAttempts = 0, client = Some 1\<rparr>)]\<rparr>, []))
     = (Inr True,
        \<lparr>isInitialized = True,
         connections = [(''s1'', \<lparr>status = Connected, reconnectAttempts = 0, client = Some 2\<rparr>)]\<rparr>,
        [AdapterCloseInstance ''s1'', AdapterCreateInstance ''s1'', Emit SessionReconnected ''s1'']) \<and>
   fst (reconnectSession_venom \<lparr>maxSessions = 10, maxReconnectAttempts = 3\<rparr> ''s1'' (Inr ()) (Inl External)
      (\<lparr>isInitialized = True,
        connections = [(''s1'', \<lparr>status = Connected, reconnectAttempts = 0, client = Some 1\<rparr>)]\<rparr>, []))
     = (Inl External,
        \<lparr>isInitialized = True,
         connections = [(''s1'', \<lparr>status = ConnError, reconnectAttempts = Suc 0, client = Some 1\<rparr>)]\<rparr>,
        [AdapterCloseInstance ''s1'', AdapterCreateInstance ''s1'', LogError,
         Emit SessionReconnectFailed ''s1'']) \<and>
   reconnectSession \<lparr>maxSessions = 10, maxReconnectAttempts = 3\<rparr> ''s1'' (Inr True) ([], Inr 2)
      \<lparr>isInitialized = True,
       connections = [(''s1'', \<lparr>status = ConnError, reconnectAttempts = 3, client = Some 1\<rparr>)]\<rparr>
     = (Inl MaxReconnectReached,
        \<lparr>isInitialized = True,
         connections = [(''s1'', \<lparr>status = ConnError, reconnectAttempts = 3, client = Some 1\<rparr>)]\<rparr>,
        [LogError, Emit SessionReconnectFailed ''s1''])"
proof -
  have v: "fst (reconnectSession_venom \<lparr>maxSessions = 10, maxReconnectAttempts = 3\<rparr> ''s1'' (Inr ()) (Inr 2)
      (\<lparr>isInitialized = True,
        connections = [(''s1'', \<lparr>status = Connected, reconnectAttempts = 0, client = Some 1\<rparr>)]\<rparr>, []))
     = (Inr True,
        \<lparr>isInitialized = True,
         connections = [(''s1'', \<lparr>status = Connected, reconnectAttempts = 0, client = Some 2\<rparr>)]\<rparr>,
        [AdapterCloseInstance ''s1'', AdapterCreateInstance ''s1'', Emit SessionReconnected ''s1''])"
    by code_simp
  have f: "fst (reconnectSession_venom \<lparr>maxSessions = 10, maxReconnectAttempts = 3\<rparr> ''s1'' (Inr ()) (Inl External)
      (\<lparr>isInitialized = True,
        connections = [(''s1'', \<lparr>status = Connected, reconnectAttempts = 0, client = Some 1\<rparr>)]\<rparr>, []))
     = (Inl External,
        \<lparr>isInitialized = True,
         connections = [(''s1'', \<lparr>status = ConnError, reconnectAttempts = Suc 0, client = Some 1\<rparr>)]\<rparr>,
        [AdapterCloseInstance ''s1'', AdapterCreateInstance ''s1'', LogError,
         Emit SessionReconnectFailed ''s1''])"
    by code_simp
  show ?thesis
    using v f example_reachable
      reconnectSession_counter_bounded[of "\<lparr>maxSessions = 10, maxReconnectAttempts = 3\<rparr>"
        "\<lparr>isInitialized = True,
         connections = [(''s1'', \<lparr>status = Connected, reconnectAttempts = 0, client = Some 1\<rparr>)]\<rparr>"
        "''s1''" "\<lparr>status = Connected, reconnectAttempts = 0, client = Some 1\<rparr>" _ _ _ "Inr ()" 2 "[]"]
      reconnectSession_counter_bounded[of "\<lparr>maxSessions = 10, maxReconnectAttempts = 3\<rparr>"
        "\<lparr>isInitialized = True,
         connections = [(''s1'', \<lparr>status = ConnError, reconnectAttempts = 3, client = Some 1\<rparr>)]\<rparr>"
        "''s1''" "\<lparr>status = ConnError, reconnectAttempts = 3, client = Some 1\<rparr>" "Inr True" "([], Inr 2)",
        THEN conjunct2]
    by (simp add: get_connection_def modify_connection_def set_connection_def)
qed

subsection \<open>closeSession\<close>

text \<open>
  C6. For every existing session \<open>closeSession\<close> sets the status \<open>closing\<close> before it
  awaits the adapter and asks the adapter to close. The adapter's \<open>closeInstance\<close>
  catches a failure of \<open>client.close\<close>, logs it as a warning and resolves, so whether
  the client closed or failed, \<open>closeSession\<close> removes the session from the map, emits
  \<open>sessionClosed\<close>, returns \<open>true\<close> and throws nothing; the adapter forgets the
  instance as well. (The \<open>catch\<close> of \<open>closeSession\<close>, which would keep the session
  with the status \<open>error\<close>, is reached only when \<open>closeInstance\<close> rejects, and this
  adapter's never does.)
\<close>

theorem closeSession_existing:
  assumes "get_connection st sid = Some c"
  shows "(\<exists>st1. closeSession_begin sid st = Some st1 \<and>
               get_connection st1 sid = Some (c\<lparr>status := Closing\<rparr>) \<and>
               fst (closeSession_venom sid client_closed (st, insts))
                 = (Inr True, delete_connection sid st1,
                    [AdapterCloseInstance sid, Emit SessionClosed sid])) \<and>
         get_connection (fst (snd (fst (closeSession_venom sid client_closed (st, insts))))) sid = None \<and>
         map_of (fst (snd (closeSession_venom sid client_closed (st, insts)))) sid = None \<and>
         (\<forall>i cl e. map_of insts sid = Some i \<and> iclient i = Some cl \<and> client_closed = Inl e \<longrightarrow>
            snd (snd (closeSession_venom sid client_closed (st, insts))))"
  using assms
  by (auto simp: closeSession_venom_def closeSession_def closeSession_begin_def
      venom_closeInstance_def Let_def delete_conv' split: option.splits)

text \<open>
  The theorem at a connected session whose client fails to close, and at one whose
  client closes.
\<close>

theorem closeSession_existing_witness:
  "closeSession_venom ''s1'' (Inl External)
      (\<lparr>isInitialized = True,
        connections = [(''s1'', \<lparr>status = Connected, reconnectAttempts = 0, client = Some 1\<rparr>)]\<rparr>,
       [(''s1'', \<lparr>iclient = Some 1, istatus = InstConnected\<rparr>)])
     = ((Inr True, \<lparr>isInitialized = True, connections = []\<rparr>,
         [AdapterCloseInstance ''s1'', Emit SessionClosed ''s1'']), [], True) \<and>
   closeSession_venom ''s1'' (Inr ())
      (\<lparr>isInitialized = True,
        connections = [(''s1'', \<lparr>status = Connected, reconnectAttempts = 0, client = Some 1\<rparr>)]\<rparr>,
       [(''s1'', \<lparr>iclient = Some 1, istatus = InstConnected\<rparr>)])
     = ((Inr True, \<lparr>isInitialized = True, connections = []\<rparr>,
         [AdapterCloseInstance ''s1'', Emit SessionClosed ''s1'']), [], False)"
  using closeSession_existing
    [of "\<lparr>isInitialized = True,
          connections = [(''s1'', \<lparr>status = Connected, reconnectAttempts = 0, client = Some 1\<rparr>)]\<rparr>"
        "''s1''" "\<lparr>status = Connected, reconnectAttempts = 0, client = Some 1\<rparr>" "Inl External"
        "[(''s1'', \<lparr>iclient = Some 1, istatus = InstConnected\<rparr>)]"]
  by (simp add: get_connection_def closeSession_venom_def closeSession_def closeSession_begin_def
      venom_closeInstance_def modify_connection_def set_connection_def delete_connection_def)

subsection \<open>Session identifiers\<close>

lemma whitespace_not_id_char: "js_whitespace c \<Longrightarrow> \<not> id_char c"
  by (auto simp: js_whitespace_def id_char_def)

lemma validateSessionId_iff: "validateSessionId sid = Inr () \<longleftrightarrow> short_session_id_pattern sid"
proof (cases sid)
  case Nil
  then show ?thesis by (simp add: validateSessionId_def short_session_id_pattern_def)
next
  case (Cons a as)
  then show ?thesis
    using whitespace_not_id_char[of a]
    by (auto simp: validateSessionId_def short_session_id_pattern_def)
qed

lemma validateSessionId_error:
  "validateSessionId sid \<noteq> Inr () \<Longrightarrow> \<exists>p. validateSessionId sid = Inl (InvalidIdentifier p)"
  by (auto simp: validateSessionId_def split: if_splits)

lemma createSession_invalid:
  assumes "\<not> short_session_id_pattern sid"
  shows "\<exists>e. createSession cfg sid reply st = (Inl e, st, [LogError, Emit SessionError sid])
     \<and> (isInitialized st \<longrightarrow> (\<exists>p. e = InvalidIdentifier p))"
proof -
  from assms obtain p where "validateSessionId sid = Inl (InvalidIdentifier p)"
    using validateSessionId_iff validateSessionId_error by blast
  then show ?thesis
    by (simp add: createSession_def createSession_checks_def ensureInitialized_def)
qed

text \<open>
  C9, as the claim states it, fails: the id \<open>ab\<close> does not match
  \<open>[A-Za-z0-9_-]{3,50}\<close>, and \<open>createSession\<close> registers a session under it.
\<close>

theorem createSession_accepts_short_id:
  "\<not> spec_session_id_pattern ''ab'' \<and>
   createSession \<lparr>maxSessions = 10, maxReconnectAttempts = 3\<rparr> ''ab''
       ([InstanceConnected ''ab''], Inr 7) \<lparr>isInitialized = True, connections = []\<rparr>
     = (Inr Connected,
        \<lparr>isInitialized = True,
         connections = [(''ab'', \<lparr>status = Connected, reconnectAttempts = 0, client = Some 7\<rparr>)]\<rparr>,
        [AdapterCreateInstance ''ab'', Emit SessionCreated ''ab''])"
  by code_simp

text \<open>
  C9, amended. \<open>_validateSessionId\<close> accepts exactly the ids matching
  \<open>[A-Za-z0-9_-]{1,50}\<close>. For every id that does not match this pattern (empty, longer
  than 50 characters, or with a character outside letters, digits, underscore and
  hyphen) \<open>createSession\<close> throws, calls the adapter not at all and registers no
  session: the state is unchanged. On an initialized manager the error is the one of
  \<open>_validateSessionId\<close>.
\<close>

theorem createSession_rejects_invalid_id:
  "(validateSessionId sid = Inr () \<longleftrightarrow> short_session_id_pattern sid) \<and>
   (\<not> short_session_id_pattern sid \<longrightarrow>
      (\<exists>e. createSession cfg sid reply st = (Inl e, st, [LogError, Emit SessionError sid]) \<and>
           (isInitialized st \<longrightarrow> (\<exists>p. e = InvalidIdentifier p))))"
  using validateSessionId_iff createSession_invalid by blast

text \<open>The theorem at the id \<open>a b\<close>, which holds a space.\<close>

theorem createSession_rejects_invalid_id_witness:
  "\<not> short_session_id_pattern ''a b'' \<and>
   (\<exists>e p. createSession \<lparr>maxSessions = 10, maxReconnectAttempts = 3\<rparr> ''a b'' ([], Inr 7)
            \<lparr>isInitialized = True, connections = []\<rparr>
          = (Inl e, \<lparr>isInitialized = True, connections = []\<rparr>, [LogError, Emit SessionError ''a b''])
        \<and> e = InvalidIdentifier p)"
proof -
  have h: "\<not> short_session_id_pattern ''a b''"
    by (simp add: short_session_id_pattern_def id_char_def)
  show ?thesis
    using h createSession_rejects_invalid_id
      [of "''a b''" "\<lparr>maxSessions = 10, maxReconnectAttempts = 3\<rparr>" "([], Inr 7)"
          "\<lparr>isInitialized = True, connections = []\<rparr>"]
    by auto
qed

subsection \<open>The sender: state and iterations\<close>

lemma queue_of_set_queue [simp]:
  "queue_of (set_queue sid q st) k = (if k = sid then q else queue_of st k)"
  by (simp add: queue_of_def set_queue_def)

lemma queue_of_set_processing [simp]: "queue_of (set_processing sid p st) k = queue_of st k"
  by (simp add: queue_of_def set_processing_def)

lemma queue_of_with_current [simp]: "queue_of (with_current sid m st) k = queue_of st k"
  by (simp add: with_current_def)

lemma queue_of_checkRateLimit [simp]: "queue_of (snd (checkRateLimit cfg t sid st)) k = queue_of st k"
  by (simp add: checkRateLimit_def queue_of_def split: option.splits)

lemma queue_of_recordSentMessage [simp]: "queue_of (recordSentMessage t sid st) k = queue_of st k"
  by (simp add: recordSentMessage_def queue_of_def Let_def)

lemma queue_of_settle_in_flight [simp]:
  "queue_of (settle_in_flight sid pos m st) k =
     (if k = sid then (case pos of None \<Rightarrow> queue_of st sid | Some p \<Rightarrow> (queue_of st sid)[p := m])
      else queue_of st k)"
  by (simp add: settle_in_flight_def split: option.splits)

lemma queue_of_queue_shift [simp]:
  "queue_of (queue_shift sid st) k = (if k = sid then tl (queue_of st sid) else queue_of st k)"
  by (simp add: queue_shift_def)

lemma processing_of_set_processing [simp]:
  "processing_of (set_processing sid p st) k = (if k = sid then p else processing_of st k)"
  by (simp add: processing_of_def set_processing_def)

lemma processing_of_set_queue [simp]: "processing_of (set_queue sid q st) k = processing_of st k"
  by (simp add: processing_of_def set_queue_def)

lemma processing_of_checkRateLimit [simp]:
  "processing_of (snd (checkRateLimit cfg t sid st)) k = processing_of st k"
  by (simp add: checkRateLimit_def processing_of_def split: option.splits)

lemma processing_of_recordSentMessage [simp]:
  "processing_of (recordSentMessage t sid st) k = processing_of st k"
  by (simp add: recordSentMessage_def processing_of_def Let_def)

lemma processing_of_with_current [simp]:
  "processing_of (with_current sid m st) k =
     (if k = sid then (processing_of st sid)\<lparr>currentMessage := Some m\<rparr> else processing_of st k)"
  by (simp add: with_current_def)

lemma processing_of_settle_in_flight [simp]:
  "processing_of (settle_in_flight sid pos m st) k = processing_of st k"
  by (simp add: settle_in_flight_def split: option.splits)

lemma processing_of_queue_shift [simp]: "processing_of (queue_shift sid st) k = processing_of st k"
  by (simp add: queue_shift_def)

lemma rateLimiters_with_current [simp]: "rateLimiters (with_current sid m st) = rateLimiters st"
  by (simp add: with_current_def set_processing_def)

lemma rateLimiters_set_queue [simp]: "rateLimiters (set_queue sid q st) = rateLimiters st"
  by (simp add: set_queue_def)

lemma rateLimiters_settle_in_flight [simp]:
  "rateLimiters (settle_in_flight sid pos m st) = rateLimiters st"
  by (simp add: settle_in_flight_def split: option.splits)

lemma rateLimiters_queue_shift [simp]: "rateLimiters (queue_shift sid st) = rateLimiters st"
  by (simp add: queue_shift_def)

text \<open>
  An iteration during whose send no other call runs: the head of the queue is the
  message sent, and the iteration is the following function of the state at its top.
\<close>

lemma iteration_undisturbed:
  assumes "during e = []"
  shows "iteration cfg sid e m rest st =
     (if now e > expiresAt m
      then (with_current sid m (set_queue sid rest st), [MsLogWarn])
      else (let checked = (if skipRateLimit m then (True, st) else checkRateLimit cfg (now e) sid st);
                st1 = snd checked
            in if \<not> fst checked then (with_current sid m st1, [WaitRateLimit])
               else (case transport e of
                       Inr _ \<Rightarrow>
                         (let m' = m\<lparr>mstatus := Sent\<rparr>;
                              st2 = (if skipRateLimit m then st1
                                     else recordSentMessage (now_sent e) sid st1)
                          in (with_current sid m' (set_queue sid rest st2),
                              [SendQueued (msg_id m) sid (msg_to m) (body m),
                               EmitMessageSent sid] @
                              (if delay m > 0 then [WaitDelay (delay m)] else [])))
                     | Inl err \<Rightarrow>
                         (let m' = m\<lparr>attempts := attempts m + 1, mstatus := Failed\<rparr>
                          in if attempts m' \<ge> maxRetries m'
                             then (with_current sid m' (set_queue sid rest st1),
                                   [SendQueued (msg_id m) sid (msg_to m) (body m),
                                    MsLogError, MsLogError, EmitMessageFailed (msg_id m)])
                             else (with_current sid m' (set_queue sid (m' # rest) st1),
                                   [SendQueued (msg_id m) sid (msg_to m) (body m),
                                    MsLogError, WaitRetry])))))"
  using assms
  by (simp add: iteration_def Let_def with_current_def set_processing_def set_queue_def
      settle_in_flight_def queue_shift_def queue_of_def processing_of_def recordSentMessage_def
      split: sum.splits)

subsection \<open>Calls that run during a send\<close>

lemma queued_sends_append [simp]: "queued_sends (xs @ ys) = queued_sends xs @ queued_sends ys"
  by (induction xs rule: queued_sends.induct) auto

lemma failure_notifications_append [simp]:
  "failure_notifications (xs @ ys) = failure_notifications xs @ failure_notifications ys"
  by (induction xs rule: failure_notifications.induct) auto

lemma queue_of_startProcessing [simp]: "queue_of (startProcessing sid st) k = queue_of st k"
  by (simp add: startProcessing_def Let_def)

lemma queue_of_pauseSession [simp]: "queue_of (snd (pauseSession sid st)) k = queue_of st k"
  by (simp add: pauseSession_def split: option.splits)

lemma queue_of_resumeSession [simp]: "queue_of (snd (resumeSession sid st)) k = queue_of st k"
  by (simp add: resumeSession_def Let_def split: option.splits)

lemma queue_of_clearQueue_all:
  "queue_of (fst (snd (clearQueue_all sid' st))) k = (if k = sid' then [] else queue_of st k)"
  by (auto simp: clearQueue_all_def queue_of_def set_queue_def split: option.splits)

lemma cleanup_queue:
  "queue_of (cleanupExpiredMessages clock st) sid = filter (\<lambda>m. clock \<le> expiresAt m) (queue_of st sid)"
  by (simp add: cleanupExpiredMessages_def queue_of_def split: option.splits)

lemma sendMessage_queue_of:
  "queue_of (fst (snd (sendMessage cfg clock mid sid' to msg opts known st))) k =
     (if k = sid' \<and> \<not> isl (fst (sendMessage cfg clock mid sid' to msg opts known st))
      then enqueue (new_message cfg clock mid to msg opts) (queue_of st sid')
      else queue_of st k)"
  by (auto simp: sendMessage_def Let_def split: sum.splits)

lemma sendMessage_effects:
  "queued_sends (snd (snd (sendMessage cfg clock mid sid' to msg opts known st))) = [] \<and>
   failure_notifications (snd (snd (sendMessage cfg clock mid sid' to msg opts known st))) = []"
  by (auto simp: sendMessage_def Let_def split: sum.splits)

lemma clearQueue_effects:
  "queued_sends (snd (snd (clearQueue_all sid' st))) = [] \<and>
   failure_notifications (snd (snd (clearQueue_all sid' st))) = []"
  by (auto simp: clearQueue_all_def split: option.splits)

lemma during_call_effects:
  "queued_sends (snd (snd (during_call cfg sid c w))) = queued_sends (snd (snd w)) \<and>
   failure_notifications (snd (snd (during_call cfg sid c w))) = failure_notifications (snd (snd w))"
  by (cases c) (simp_all add: Let_def sendMessage_effects clearQueue_effects)

lemma during_effects:
  "queued_sends (snd (snd (foldl (\<lambda>w c. during_call cfg sid c w) w cs))) = queued_sends (snd (snd w)) \<and>
   failure_notifications (snd (snd (foldl (\<lambda>w c. during_call cfg sid c w) w cs)))
     = failure_notifications (snd (snd w))"
  by (induction cs arbitrary: w) (simp_all add: during_call_effects)

lemma entry_new_message:
  "entry (new_message cfg clock mid to msg opts) = (mid, formatPhoneNumber to, clock + queueTimeout cfg)"
  by (simp add: entry_def new_message_def)

lemma during_call_entries:
  "entry ` set (queue_of (fst (during_call cfg sid c w)) sid)
     \<subseteq> entry ` set (queue_of (fst w) sid) \<union> set (call_entries cfg sid c)"
proof (cases c)
  case (CallSendMessage clock mid sid' to msg opts known)
  then show ?thesis
    by (auto simp: Let_def sendMessage_queue_of enqueue_def entry_new_message)
next
  case (CallClearQueue sid')
  then show ?thesis by (auto simp: Let_def queue_of_clearQueue_all)
next
  case (CallPauseSession sid')
  then show ?thesis by simp
next
  case (CallResumeSession sid')
  then show ?thesis by simp
next
  case (CallCleanupExpired clock)
  then show ?thesis by (auto simp: cleanup_queue)
qed

lemma during_entries:
  "entry ` set (queue_of (fst (foldl (\<lambda>w c. during_call cfg sid c w) w cs)) sid)
     \<subseteq> entry ` set (queue_of (fst w) sid) \<union> set (concat (map (call_entries cfg sid) cs))"
proof (induction cs arbitrary: w)
  case Nil
  show ?case by simp
next
  case (Cons c cs)
  from Cons.IH[of "during_call cfg sid c w"] during_call_entries[of cfg sid c w]
  show ?case by auto
qed

lemma entry_updates [simp]:
  "entry (m\<lparr>mstatus := s\<rparr>) = entry m" "entry (m\<lparr>attempts := a\<rparr>) = entry m"
  by (simp_all add: entry_def)

lemma iteration_expired:
  "expiresAt m < now e \<Longrightarrow>
   iteration cfg sid e m rest st = (with_current sid m (set_queue sid rest st), [MsLogWarn])"
  by (simp add: iteration_def)

text \<open>
  Whatever runs during the send, an iteration hands the transport nothing or the head
  of the queue, the latter only when the head has not expired; and the queue it leaves
  holds messages of the queue it met or messages queued during the send.
\<close>

lemma iteration_sends:
  "queued_sends (snd (iteration cfg sid e m rest st)) = [] \<or>
   queued_sends (snd (iteration cfg sid e m rest st)) = [(msg_id m, msg_to m)] \<and> now e \<le> expiresAt m"
  by (auto simp: iteration_def Let_def during_effects split: sum.splits)

lemma iteration_entries:
  assumes "queue_of st sid = m # rest"
  shows "entry ` set (queue_of (fst (iteration cfg sid e m rest st)) sid)
           \<subseteq> entry ` set (m # rest) \<union> set (concat (map (call_entries cfg sid) (during e)))"
proof (cases "now e > expiresAt m")
  case True
  then show ?thesis by (auto simp: iteration_expired)
next
  case ne: False
  define st1 where "st1 = snd (if skipRateLimit m then (True, st) else checkRateLimit cfg (now e) sid st)"
  define ok where "ok = fst (if skipRateLimit m then (True, st) else checkRateLimit cfg (now e) sid st)"
  have q1: "queue_of st1 sid = m # rest" using assms by (simp add: st1_def)
  show ?thesis
  proof (cases ok)
    case False
    with ne q1 show ?thesis
      by (auto simp: iteration_def Let_def st1_def ok_def)
  next
    case True
    define m1 where "m1 = m\<lparr>mstatus := Sending\<rparr>"
    define settled where "settled = foldl (\<lambda>w c. during_call cfg sid c w)
        (with_current sid m1 (set_queue sid (m1 # rest) st1), Some 0,
         [SendQueued (msg_id m) sid (msg_to m) (body m)]) (during e)"
    have s: "entry ` set (queue_of (fst settled) sid)
               \<subseteq> entry ` set (m # rest) \<union> set (concat (map (call_entries cfg sid) (during e)))"
      unfolding settled_def
      using during_entries[of cfg sid "(with_current sid m1 (set_queue sid (m1 # rest) st1), Some 0,
         [SendQueued (msg_id m) sid (msg_to m) (body m)])" "during e"]
      by (simp add: m1_def)
    have upd: "\<And>m' pos. entry m' = entry m \<Longrightarrow>
        entry ` set (queue_of (settle_in_flight sid pos m' (fst settled)) sid)
          \<subseteq> entry ` set (m # rest) \<union> set (concat (map (call_entries cfg sid) (during e)))"
    proof -
      fix m' pos
      assume em: "entry m' = entry m"
      show "entry ` set (queue_of (settle_in_flight sid pos m' (fst settled)) sid)
          \<subseteq> entry ` set (m # rest) \<union> set (concat (map (call_entries cfg sid) (during e)))"
      proof (cases pos)
        case None
        with s show ?thesis by simp
      next
        case (Some p)
        have "set ((queue_of (fst settled) sid)[p := m']) \<subseteq> insert m' (set (queue_of (fst settled) sid))"
          by (rule set_update_subset_insert)
        then have a: "entry ` set ((queue_of (fst settled) sid)[p := m'])
            \<subseteq> insert (entry m) (entry ` set (queue_of (fst settled) sid))"
          using em by auto
        have b: "entry m \<in> entry ` set (m # rest) \<union> set (concat (map (call_entries cfg sid) (during e)))"
          by simp
        have c: "insert (entry m) (entry ` set (queue_of (fst settled) sid))
            \<subseteq> entry ` set (m # rest) \<union> set (concat (map (call_entries cfg sid) (during e)))"
          by (intro iffD2[OF insert_subset] conjI b s)
        have "entry ` set ((queue_of (fst settled) sid)[p := m'])
            \<subseteq> entry ` set (m # rest) \<union> set (concat (map (call_entries cfg sid) (during e)))"
          by (rule order_trans[OF a c])
        with Some show ?thesis by simp
      qed
    qed
    let ?R = "entry ` set (m # rest) \<union> set (concat (map (call_entries cfg sid) (during e)))"
    let ?mS = "m1\<lparr>mstatus := Sent\<rparr>"
    let ?mF = "m1\<lparr>attempts := attempts m + 1, mstatus := Failed\<rparr>"
    let ?qS = "queue_of (settle_in_flight sid (fst (snd settled)) ?mS (fst settled)) sid"
    let ?qF = "queue_of (settle_in_flight sid (fst (snd settled)) ?mF (fst settled)) sid"
    have uS: "entry ` set ?qS \<subseteq> ?R" by (rule upd) (simp add: m1_def)
    have uF: "entry ` set ?qF \<subseteq> ?R" by (rule upd) (simp add: m1_def)
    have tS: "entry ` set (tl ?qS) \<subseteq> ?R"
    proof (cases ?qS)
      case Nil then show ?thesis by simp
    next
      case (Cons x xs)
      with uS have "entry ` set (x # xs) \<subseteq> ?R" by simp
      then have "entry ` set xs \<subseteq> ?R" by auto
      with Cons show ?thesis by simp
    qed
    have tF: "entry ` set (tl ?qF) \<subseteq> ?R"
    proof (cases ?qF)
      case Nil then show ?thesis by simp
    next
      case (Cons x xs)
      with uF have "entry ` set (x # xs) \<subseteq> ?R" by simp
      then have "entry ` set xs \<subseteq> ?R" by auto
      with Cons show ?thesis by simp
    qed
    have res: "queue_of (fst (iteration cfg sid e m rest st)) sid =
        (case transport e of
           Inr _ \<Rightarrow> tl ?qS
         | Inl _ \<Rightarrow> if maxRetries m \<le> attempts m + 1 then tl ?qF else ?qF)"
      using ne True
      unfolding iteration_def Let_def st1_def ok_def m1_def settled_def
      by (simp split: sum.splits)
    show ?thesis
    proof (cases "transport e")
      case (Inr u)
      with res tS show ?thesis by simp
    next
      case (Inl err)
      with res tF uF show ?thesis by simp
    qed
  qed
qed

subsection \<open>Runs of the loop\<close>

lemma queued_during_Cons:
  "queued_during cfg sid (e # es) = concat (map (call_entries cfg sid) (during e)) @ queued_during cfg sid es"
  by (simp add: queued_during_def)

text \<open>
  Every send of a run hands the transport the id and the recipient of a message that
  was in the queue at the start or was queued during a send of the run, at a clock
  reading at which the message had not expired.
\<close>

lemma loop_steps_sends:
  assumes "(i, t) \<in> set (queued_sends (snd (loop_steps cfg sid es st)))"
  shows "\<exists>x. (i, t, x) \<in> entry ` set (queue_of st sid) \<union> set (queued_during cfg sid es) \<and>
             (\<exists>e\<in>set es. now e \<le> x)"
  using assms
proof (induction es arbitrary: st)
  case Nil
  then show ?case by simp
next
  case (Cons e es)
  show ?case
  proof (cases "paused (processing_of st sid)")
    case True
    with Cons.prems show ?thesis by simp
  next
    case np: False
    show ?thesis
    proof (cases "queue_of st sid")
      case Nil
      with np Cons.prems show ?thesis by simp
    next
      case q: (Cons m rest)
      let ?st1 = "fst (iteration cfg sid e m rest st)"
      from Cons.prems np q
      have "(i, t) \<in> set (queued_sends (snd (iteration cfg sid e m rest st))) \<or>
            (i, t) \<in> set (queued_sends (snd (loop_steps cfg sid es ?st1)))"
        by (auto simp: Let_def)
      then show ?thesis
      proof
        assume "(i, t) \<in> set (queued_sends (snd (iteration cfg sid e m rest st)))"
        with iteration_sends[of cfg sid e m rest st]
        have "i = msg_id m" "t = msg_to m" "now e \<le> expiresAt m" by auto
        then have "(i, t, expiresAt m) \<in> entry ` set (queue_of st sid)"
          using q by (auto simp: entry_def)
        with \<open>now e \<le> expiresAt m\<close> show ?thesis by auto
      next
        assume "(i, t) \<in> set (queued_sends (snd (loop_steps cfg sid es ?st1)))"
        from Cons.IH[OF this] obtain x e' where
          x: "(i, t, x) \<in> entry ` set (queue_of ?st1 sid) \<union> set (queued_during cfg sid es)"
          and e': "e' \<in> set es" "now e' \<le> x" by blast
        have "entry ` set (queue_of ?st1 sid)
                \<subseteq> entry ` set (m # rest) \<union> set (concat (map (call_entries cfg sid) (during e)))"
          by (rule iteration_entries[OF q])
        with x q have "(i, t, x) \<in> entry ` set (queue_of st sid) \<union> set (queued_during cfg sid (e # es))"
          unfolding queued_during_Cons by auto
        with e' show ?thesis by auto
      qed
    qed
  qed
qed

lemma call_entries_id: "(i, t, x) \<in> set (call_entries cfg sid c) \<Longrightarrow> queued_id sid c = Some i"
  by (cases c) (auto split: if_splits)

lemma call_entries_recipient:
  "(i, t, x) \<in> set (call_entries cfg sid c) \<Longrightarrow> \<exists>to. t = formatPhoneNumber to"
  by (cases c) (auto split: if_splits)

lemma queued_during_id:
  assumes "(i, t, x) \<in> set (queued_during cfg sid es)"
  shows "\<exists>e\<in>set es. \<exists>c\<in>set (during e). queued_id sid c = Some i"
  using assms call_entries_id by (fastforce simp: queued_during_def)

lemma loop_steps_expired_never_sent:
  assumes "\<forall>m\<in>set (queue_of st sid). msg_id m = i \<longrightarrow> (\<forall>e\<in>set es. expiresAt m < now e)"
    and "\<forall>e\<in>set es. \<forall>c\<in>set (during e). queued_id sid c \<noteq> Some i"
  shows "i \<notin> fst ` set (queued_sends (snd (loop_steps cfg sid es st)))"
proof
  assume "i \<in> fst ` set (queued_sends (snd (loop_steps cfg sid es st)))"
  then obtain t where "(i, t) \<in> set (queued_sends (snd (loop_steps cfg sid es st)))" by force
  from loop_steps_sends[OF this] obtain x e where
    x: "(i, t, x) \<in> entry ` set (queue_of st sid) \<union> set (queued_during cfg sid es)"
    and e: "e \<in> set es" "now e \<le> x" by blast
  from x show False
  proof
    assume "(i, t, x) \<in> entry ` set (queue_of st sid)"
    then obtain m where "m \<in> set (queue_of st sid)" "msg_id m = i" "expiresAt m = x"
      by (auto simp: entry_def)
    with assms(1) e show False by fastforce
  next
    assume "(i, t, x) \<in> set (queued_during cfg sid es)"
    from queued_during_id[OF this] assms(2) show False by blast
  qed
qed

lemma processQueue_effects:
  "snd (processQueue cfg sid es st) = [] \<or>
   snd (processQueue cfg sid es st) = snd (loop_steps cfg sid es st)"
  by (auto simp: processQueue_def processQueue_loop_def Let_def)

lemma processQueue_expired_never_sent:
  assumes "\<forall>m\<in>set (queue_of st sid). msg_id m = i \<longrightarrow> (\<forall>e\<in>set es. expiresAt m < now e)"
    and "\<forall>e\<in>set es. \<forall>c\<in>set (during e). queued_id sid c \<noteq> Some i"
  shows "i \<notin> fst ` set (queued_sends (snd (processQueue cfg sid es st)))"
  using processQueue_effects[of cfg sid es st] loop_steps_expired_never_sent[OF assms, of cfg]
  by auto

lemma processQueue_sends:
  assumes "(i, t) \<in> set (queued_sends (snd (processQueue cfg sid es st)))"
  shows "(\<exists>m\<in>set (queue_of st sid). i = msg_id m \<and> t = msg_to m) \<or>
         (\<exists>x. (i, t, x) \<in> set (queued_during cfg sid es))"
proof -
  from assms processQueue_effects[of cfg sid es st]
  have "(i, t) \<in> set (queued_sends (snd (loop_steps cfg sid es st)))" by auto
  from loop_steps_sends[OF this] show ?thesis by (auto simp: entry_def)
qed

subsection \<open>Runs during whose sends no other call runs\<close>

lemma iteration_cases:
  assumes "queue_of st sid = m # rest" "during e = []"
  shows "(queue_of (fst (iteration cfg sid e m rest st)) sid = rest \<or>
          (\<exists>m'. queue_of (fst (iteration cfg sid e m rest st)) sid = m' # rest \<and>
                msg_id m' = msg_id m \<and> msg_to m' = msg_to m \<and> expiresAt m' = expiresAt m)) \<and>
         paused (processing_of (fst (iteration cfg sid e m rest st)) sid) = paused (processing_of st sid)"
  using assms by (auto simp: iteration_undisturbed Let_def split: sum.splits)

lemma remdups_adj_step:
  assumes "subseq (remdups_adj L) (a # R) \<or> subseq (remdups_adj L) R"
  shows "subseq (remdups_adj (a # L)) (a # R)"
proof (cases L)
  case Nil
  then show ?thesis by simp
next
  case (Cons b L')
  show ?thesis
  proof (cases "a = b")
    case True
    with Cons assms show ?thesis by (auto simp: subseq_Cons')
  next
    case False
    have "remdups_adj (b # L') = b # tl (remdups_adj (b # L'))" by simp
    then obtain T where T: "remdups_adj (b # L') = b # T" by blast
    with assms Cons False have "subseq (b # T) R"
      by (auto simp: subseq_Cons2_neq)
    with T Cons False show ?thesis by simp
  qed
qed

lemma loop_steps_dispatch_order:
  assumes "\<forall>e\<in>set es. during e = []"
  shows "subseq (remdups_adj (map fst (queued_sends (snd (loop_steps cfg sid es st)))))
          (map msg_id (queue_of st sid))"
  using assms
proof (induction es arbitrary: st)
  case Nil
  show ?case by simp
next
  case (Cons e es)
  then have de: "during e = []" and des: "\<forall>e\<in>set es. during e = []" by simp_all
  show ?case
  proof (cases "paused (processing_of st sid)")
    case True then show ?thesis by simp
  next
    case np: False
    show ?thesis
    proof (cases "queue_of st sid")
      case Nil with np show ?thesis by simp
    next
      case q: (Cons m rest)
      let ?st1 = "fst (iteration cfg sid e m rest st)"
      let ?L = "map fst (queued_sends (snd (loop_steps cfg sid es ?st1)))"
      have IH: "subseq (remdups_adj ?L) (map msg_id (queue_of ?st1 sid))" by (rule Cons.IH[OF des])
      have alt: "subseq (remdups_adj ?L) (msg_id m # map msg_id rest) \<or>
                 subseq (remdups_adj ?L) (map msg_id rest)"
        using IH iteration_cases[OF q de, of cfg] by auto
      have "queued_sends (snd (iteration cfg sid e m rest st)) = [] \<or>
            queued_sends (snd (iteration cfg sid e m rest st)) = [(msg_id m, msg_to m)]"
        using iteration_sends[of cfg sid e m rest st] by auto
      then show ?thesis
      proof
        assume "queued_sends (snd (iteration cfg sid e m rest st)) = []"
        with alt np q show ?thesis by (auto simp: Let_def)
      next
        assume "queued_sends (snd (iteration cfg sid e m rest st)) = [(msg_id m, msg_to m)]"
        with remdups_adj_step[OF alt] np q show ?thesis by (simp add: Let_def)
      qed
    qed
  qed
qed

lemma processQueue_dispatch_order:
  assumes "\<forall>e\<in>set es. during e = []"
  shows "subseq (remdups_adj (map fst (queued_sends (snd (processQueue cfg sid es st)))))
          (map msg_id (queue_of st sid))"
  using processQueue_effects[of cfg sid es st] loop_steps_dispatch_order[OF assms, of cfg sid st]
  by auto

lemma enqueue_all:
  "foldl (\<lambda>q m. enqueue m q) q0 ms =
     rev (filter (\<lambda>m. priority m = High) ms) @ q0 @ filter (\<lambda>m. priority m \<noteq> High) ms"
  by (induction ms arbitrary: q0) (auto simp: enqueue_def)

lemma sendMessage_queue:
  assumes "fst (sendMessage cfg clock mid sid to msg opts known st) = Inr pos"
  shows "queue_of (fst (snd (sendMessage cfg clock mid sid to msg opts known st))) sid
           = enqueue (new_message cfg clock mid to msg opts) (queue_of st sid)"
  using assms by (simp add: sendMessage_queue_of)

lemma iteration_failed_attempt:
  assumes "attempt_fails cfg sid e m st" "during e = []"
  shows "iteration cfg sid e m rest st =
     (let st1 = (if skipRateLimit m then st else snd (checkRateLimit cfg (now e) sid st));
          m' = m\<lparr>attempts := attempts m + 1, mstatus := Failed\<rparr>
      in if maxRetries m \<le> attempts m + 1
         then (with_current sid m' (set_queue sid rest st1),
               [SendQueued (msg_id m) sid (msg_to m) (body m), MsLogError, MsLogError,
                EmitMessageFailed (msg_id m)])
         else (with_current sid m' (set_queue sid (m' # rest) st1),
               [SendQueued (msg_id m) sid (msg_to m) (body m), MsLogError, WaitRetry]))"
  using assms
  by (auto simp: attempt_fails_def iteration_undisturbed Let_def isl_def)

text \<open>
  When no other call runs during the sends, a message whose attempts fail until they
  are used up leaves the queue with the status \<open>failed\<close> and one \<open>messageFailed\<close>
  notification.
\<close>

lemma failing_run:
  assumes "queue_of st sid = m # rest" "\<not> paused (processing_of st sid)"
    "attempts m + length es = maxRetries m" "es \<noteq> []" "attempts_fail cfg sid es st"
    "\<forall>e\<in>set es. during e = []"
  shows "queue_of (fst (loop_steps cfg sid es st)) sid = rest \<and>
         currentMessage (processing_of (fst (loop_steps cfg sid es st)) sid)
           = Some (m\<lparr>attempts := maxRetries m, mstatus := Failed\<rparr>) \<and>
         failure_notifications (snd (loop_steps cfg sid es st)) = [msg_id m] \<and>
         queued_sends (snd (loop_steps cfg sid es st)) = replicate (length es) (msg_id m, msg_to m)"
  using assms
proof (induction es arbitrary: st m)
  case Nil
  then show ?case by simp
next
  case (Cons e es)
  from Cons.prems have af: "attempt_fails cfg sid e m st"
    and rest_fail: "attempts_fail cfg sid es (fst (iteration cfg sid e m rest st))"
    and de: "during e = []" and des: "\<forall>e\<in>set es. during e = []"
    by simp_all
  let ?m' = "m\<lparr>attempts := attempts m + 1, mstatus := Failed\<rparr>"
  let ?st1 = "fst (iteration cfg sid e m rest st)"
  show ?case
  proof (cases "es = []")
    case True
    with Cons.prems have "maxRetries m = attempts m + 1" by simp
    with True Cons.prems(1,2) show ?thesis
      by (simp add: iteration_failed_attempt[OF af de] Let_def)
  next
    case False
    with Cons.prems have lt: "\<not> maxRetries m \<le> attempts m + 1" by (cases es) auto
    have q1: "queue_of ?st1 sid = ?m' # rest" and p1: "\<not> paused (processing_of ?st1 sid)"
      using lt Cons.prems(2) by (simp_all add: iteration_failed_attempt[OF af de] Let_def)
    have len: "attempts ?m' + length es = maxRetries ?m'" using Cons.prems(3) by simp
    note IH = Cons.IH[OF q1 p1 len False rest_fail des]
    have eff: "snd (iteration cfg sid e m rest st) =
        [SendQueued (msg_id m) sid (msg_to m) (body m), MsLogError, WaitRetry]"
      using lt by (simp add: iteration_failed_attempt[OF af de] Let_def)
    show ?thesis
      using IH Cons.prems(1,2) eff by (simp add: Let_def)
  qed
qed

text \<open>
  \<open>sendMessage\<close> throws only its own four errors: no reply of the transport reaches the
  caller that queued a message.
\<close>

lemma sendMessage_errors:
  "fst (sendMessage cfg clock mid sid to msg opts known st) = Inl err
     \<Longrightarrow> err \<in> {NotInitialized, InvalidInput, SessionNotFound, QueueFull}"
  by (auto simp: sendMessage_def Let_def ms_ensureInitialized_def validateInputs_def
      split: sum.splits if_splits)

subsection \<open>The recipient handed to the transport\<close>

lemma js_includes_set: "js_includes s needle \<Longrightarrow> set needle \<subseteq> set s"
proof (induction s)
  case Nil
  then show ?case by simp
next
  case (Cons c cs)
  from Cons.prems have "prefix needle (c # cs) \<or> js_includes cs needle" by simp
  then show ?case
  proof
    assume "prefix needle (c # cs)"
    then show ?thesis by (rule set_mono_prefix)
  next
    assume "js_includes cs needle"
    with Cons.IH show ?thesis by auto
  qed
qed

lemma js_includes_self: "js_includes needle needle"
  by (cases needle) simp_all

lemma js_includes_append: "js_includes (xs @ needle) needle"
  by (induction xs) (simp_all add: js_includes_self)

lemma digits_no_suffix: "\<not> js_includes (filter is_digit x) ''@c.us''"
  using js_includes_set[of "filter is_digit x" "''@c.us''"] by (auto simp: is_digit_def)

lemma digits54_no_suffix: "\<not> js_includes (''54'' @ filter is_digit x) ''@c.us''"
  using js_includes_set[of "''54'' @ filter is_digit x" "''@c.us''"] by (auto simp: is_digit_def)

lemma formatPhoneNumber_eq:
  "formatPhoneNumber number =
     (if length (filter is_digit number) = 10 \<and> \<not> prefix ''54'' (filter is_digit number)
      then ''54'' @ filter is_digit number else filter is_digit number) @ ''@c.us''"
  using digits_no_suffix[of number] digits54_no_suffix[of number]
  by (simp add: formatPhoneNumber_def Let_def)

lemma venom_formattedNumber_normalized:
  "venom_formattedNumber (formatPhoneNumber number) = formatPhoneNumber number"
  by (simp only: formatPhoneNumber_eq venom_formattedNumber_def js_includes_append if_True)

lemma during_call_prefix: "\<exists>ys. snd (snd (during_call cfg sid c w)) = snd (snd w) @ ys"
  by (cases c) (simp_all add: Let_def)

lemma during_prefix:
  "\<exists>ys. snd (snd (foldl (\<lambda>w c. during_call cfg sid c w) w cs)) = snd (snd w) @ ys"
proof (induction cs arbitrary: w)
  case Nil
  show ?case by simp
next
  case (Cons c cs)
  from Cons.IH[of "during_call cfg sid c w"] during_call_prefix[of cfg sid c w]
  show ?case by auto
qed

text \<open>
  An iteration that finds the head of the queue unexpired and allowed by the rate limiter
  calls the transport first of all, with the \<open>to\<close> of the head.
\<close>

lemma iteration_hands_over:
  assumes "now e \<le> expiresAt m" "skipRateLimit m \<or> fst (checkRateLimit cfg (now e) sid st)"
  shows "take 1 (snd (iteration cfg sid e m rest st)) = [SendQueued (msg_id m) sid (msg_to m) (body m)]"
proof -
  let ?st1 = "snd (if skipRateLimit m then (True, st) else checkRateLimit cfg (now e) sid st)"
  let ?w = "(with_current sid (m\<lparr>mstatus := Sending\<rparr>)
               (set_queue sid (m\<lparr>mstatus := Sending\<rparr> # rest) ?st1), Some (0::nat),
             [SendQueued (msg_id m) sid (msg_to m) (body m)])"
  from during_prefix[of cfg sid ?w "during e"] obtain ys where
    ys: "snd (snd (foldl (\<lambda>w c. during_call cfg sid c w) ?w (during e)))
           = [SendQueued (msg_id m) sid (msg_to m) (body m)] @ ys"
    by auto
  show ?thesis
    using assms ys by (auto simp: iteration_def Let_def split: sum.splits)
qed

lemma processQueue_hands_over:
  assumes "queue_of st sid = m # rest" "\<not> paused (processing_of st sid)"
    "now e \<le> expiresAt m" "skipRateLimit m \<or> fst (checkRateLimit cfg (now e) sid st)"
  shows "take 1 (snd (processQueue cfg sid (e # es) st)) = [SendQueued (msg_id m) sid (msg_to m) (body m)]"
proof -
  from assms(1) obtain q where "messageQueues st sid = Some q"
    by (auto simp: queue_of_def split: option.splits)
  then have "snd (processQueue cfg sid (e # es) st) = snd (loop_steps cfg sid (e # es) st)"
    using assms(2) by (simp add: processQueue_def processQueue_loop_def Let_def del: loop_steps.simps)
  moreover obtain x xs where "snd (iteration cfg sid e m rest st) = x # xs"
      "x = SendQueued (msg_id m) sid (msg_to m) (body m)"
    using iteration_hands_over[OF assms(3,4), of rest]
    by (cases "snd (iteration cfg sid e m rest st)") auto
  ultimately show ?thesis using assms(1,2) by (simp add: Let_def)
qed

lemma paused_sendMessage:
  "paused (processing_of (fst (snd (sendMessage cfg clock mid sid' to msg opts known st))) k)
     = paused (processing_of st k)"
  by (auto simp: sendMessage_def Let_def startProcessing_def split: sum.splits)

lemma rateLimiters_sendMessage:
  "rateLimiters (fst (snd (sendMessage cfg clock mid sid' to msg opts known st))) = rateLimiters st"
  by (auto simp: sendMessage_def Let_def startProcessing_def set_queue_def set_processing_def
      split: sum.splits)

lemma checkRateLimit_answer:
  "rateLimiters st' = rateLimiters st
     \<Longrightarrow> fst (checkRateLimit cfg t sid st') = fst (checkRateLimit cfg t sid st)"
  by (simp add: checkRateLimit_def split: option.splits)

lemma sendMessage_then_processQueue:
  assumes "fst (sendMessage cfg clock mid sid to msg opts known st) = Inr pos"
    "opt_priority opts = High \<or> queue_of st sid = []"
    "\<not> paused (processing_of st sid)" "now e \<le> clock + queueTimeout cfg"
    "opt_skipRateLimit opts \<or> fst (checkRateLimit cfg (now e) sid st)"
  shows "take 1 (snd (processQueue cfg sid (e # es)
                        (fst (snd (sendMessage cfg clock mid sid to msg opts known st)))))
           = [SendQueued mid sid (formatPhoneNumber to) msg]"
proof -
  let ?st' = "fst (snd (sendMessage cfg clock mid sid to msg opts known st))"
  let ?m = "new_message cfg clock mid to msg opts"
  have q: "queue_of ?st' sid = ?m # queue_of st sid"
    using sendMessage_queue[OF assms(1)] assms(2) by (auto simp: enqueue_def new_message_def)
  have p: "\<not> paused (processing_of ?st' sid)" using assms(3) by (simp add: paused_sendMessage)
  have x: "now e \<le> expiresAt ?m" using assms(4) by (simp add: new_message_def)
  have r: "skipRateLimit ?m \<or> fst (checkRateLimit cfg (now e) sid ?st')"
    using assms(5) checkRateLimit_answer[OF rateLimiters_sendMessage, of cfg "now e" sid]
    by (auto simp: new_message_def)
  from processQueue_hands_over[OF q p x r, of es]
  show ?thesis by (simp add: new_message_def)
qed

subsection \<open>The rate limiter\<close>

lemma config_limit_pos: "0 < maxMessagesPerMinute (MessageSender_config raw)"
  by (simp add: MessageSender_config_def or_default_def)

lemma check_allowed_iff:
  assumes "0 < maxMessagesPerMinute cfg"
  shows "fst (checkRateLimit cfg t sid st)
           \<longleftrightarrow> sentCount (snd (checkRateLimit cfg t sid st)) sid < maxMessagesPerMinute cfg"
  using assms by (auto simp: checkRateLimit_def sentCount_def split: option.splits)

lemma check_window:
  assumes "rateLimiters st sid = Some rl"
  shows "if resetAt rl \<le> t
         then rateLimiters (snd (checkRateLimit cfg t sid st)) sid = Some \<lparr>count = 0, resetAt = t + 60000\<rparr>
         else snd (checkRateLimit cfg t sid st) = st"
  using assms by (simp add: checkRateLimit_def)

lemma record_increments: "sentCount (recordSentMessage t sid st) sid = sentCount st sid + 1"
  by (simp add: recordSentMessage_def sentCount_def Let_def split: option.splits)

lemma rateLimiters_recordSentMessage:
  "rateLimiters (recordSentMessage t sid st) =
     (rateLimiters st)(sid \<mapsto>
        (case rateLimiters st sid of None \<Rightarrow> \<lparr>count = 1, resetAt = t + 60000\<rparr>
                                   | Some rl \<Rightarrow> rl\<lparr>count := count rl + 1\<rparr>))"
  by (simp add: recordSentMessage_def Let_def split: option.splits)

lemma record_first:
  "rateLimiters st sid = None
     \<Longrightarrow> rateLimiters (recordSentMessage t sid st) sid = Some \<lparr>count = 1, resetAt = t + 60000\<rparr>"
  by (simp add: rateLimiters_recordSentMessage)

lemma begin_checked:
  assumes "ms_isInitialized st" "validateInputs sid to msg = Inr ()"
  shows "sendImmediateMessage_begin cfg sid to msg False t st =
     (if fst (checkRateLimit cfg t sid st)
      then (Inr (formatPhoneNumber to), snd (checkRateLimit cfg t sid st),
            [SendImmediate sid (formatPhoneNumber to) msg])
      else (Inl RateLimitExceeded, snd (checkRateLimit cfg t sid st), [MsLogError]))"
  using assms by (simp add: sendImmediateMessage_begin_def ms_ensureInitialized_def Let_def)

lemma finish_settled:
  "sendImmediateMessage_finish sid f False (Inr u) t' st
     = (Inr f, recordSentMessage t' sid st, [EmitMessageSent sid])"
  "sendImmediateMessage_finish sid f skip (Inl err) t' st = (Inl err, st, [MsLogError])"
  by (simp_all add: sendImmediateMessage_finish_def)

lemma sendImmediate_in_window:
  assumes "ms_isInitialized st" "validateInputs sid to msg = Inr ()"
    "rateLimiters st sid = Some rl" "t < resetAt rl"
  shows "sendImmediateMessage cfg sid to msg False t (Inr ()) t' st =
     (if count rl < maxMessagesPerMinute cfg
      then (Inr (formatPhoneNumber to),
            st\<lparr>rateLimiters := (rateLimiters st)(sid \<mapsto> rl\<lparr>count := count rl + 1\<rparr>)\<rparr>,
            [SendImmediate sid (formatPhoneNumber to) msg, EmitMessageSent sid])
      else (Inl RateLimitExceeded, st, [MsLogError]))"
  using assms
  by (simp add: sendImmediateMessage_def begin_checked finish_settled checkRateLimit_def
      recordSentMessage_def Let_def)

text \<open>A call that returns before anything else happens is one step of the run.\<close>

lemma run_step:
  assumes "length calls = k"
  shows "immediate_run cfg sid to msg (CallStarts t # TransportSettles k reply t' # evs) (st, calls) =
         immediate_run cfg sid to msg evs
           (fst (snd (sendImmediateMessage cfg sid to msg False t reply t' st)),
            calls @ [Returned (fst (sendImmediateMessage cfg sid to msg False t reply t' st))])"
proof -
  from assms have k: "k = length calls" by simp
  show ?thesis
    unfolding k
    by (cases "fst (sendImmediateMessage_begin cfg sid to msg False t st)")
       (simp_all add: sendImmediateMessage_def Let_def nth_append)
qed

lemma run_in_window:
  assumes "ms_isInitialized st" "validateInputs sid to msg = Inr ()"
    "rateLimiters st sid = Some rl"
    "\<forall>x\<in>set xs. fst x < resetAt rl \<and> fst (snd x) = Inr ()"
    "length calls = k"
  shows "snd (immediate_run cfg sid to msg (one_after_another k xs) (st, calls)) =
     calls @ map Returned
       (replicate (min (length xs) (maxMessagesPerMinute cfg - count rl)) (Inr (formatPhoneNumber to)) @
        replicate (length xs - (maxMessagesPerMinute cfg - count rl)) (Inl RateLimitExceeded))"
  using assms
proof (induction xs arbitrary: st rl calls k)
  case Nil
  show ?case by simp
next
  case (Cons x xs)
  obtain t reply t' where x: "x = (t, reply, t')" by (cases x) auto
  from Cons.prems x have e: "t < resetAt rl" "reply = Inr ()" by simp_all
  note step = sendImmediate_in_window[OF Cons.prems(1,2,3) e(1), of cfg t']
  note rs = run_step[OF Cons.prems(5), of cfg sid to msg t reply t' "one_after_another (Suc k) xs" st]
  show ?case
  proof (cases "count rl < maxMessagesPerMinute cfg")
    case True
    let ?rl' = "rl\<lparr>count := count rl + 1\<rparr>"
    let ?st' = "st\<lparr>rateLimiters := (rateLimiters st)(sid \<mapsto> ?rl')\<rparr>"
    let ?calls' = "calls @ [Returned (Inr (formatPhoneNumber to))]"
    have "snd (immediate_run cfg sid to msg (one_after_another (Suc k) xs) (?st', ?calls')) =
       ?calls' @ map Returned
       (replicate (min (length xs) (maxMessagesPerMinute cfg - count ?rl')) (Inr (formatPhoneNumber to)) @
        replicate (length xs - (maxMessagesPerMinute cfg - count ?rl')) (Inl RateLimitExceeded))"
      using Cons.prems by (intro Cons.IH) simp_all
    moreover have "min (Suc (length xs)) (maxMessagesPerMinute cfg - count rl)
        = Suc (min (length xs) (maxMessagesPerMinute cfg - (count rl + 1)))"
      using True by (auto simp: min_def)
    moreover have "Suc (length xs) - (maxMessagesPerMinute cfg - count rl)
        = length xs - (maxMessagesPerMinute cfg - (count rl + 1))"
      using True by simp
    ultimately show ?thesis using True step rs x e by simp
  next
    case False
    let ?calls' = "calls @ [Returned (Inl RateLimitExceeded)]"
    have "snd (immediate_run cfg sid to msg (one_after_another (Suc k) xs) (st, ?calls')) =
       ?calls' @ map Returned
       (replicate (min (length xs) (maxMessagesPerMinute cfg - count rl)) (Inr (formatPhoneNumber to)) @
        replicate (length xs - (maxMessagesPerMinute cfg - count rl)) (Inl RateLimitExceeded))"
      using Cons.prems by (intro Cons.IH) simp_all
    with False step rs x e show ?thesis by simp
  qed
qed

lemma first_send:
  assumes "ms_isInitialized st" "validateInputs sid to msg = Inr ()" "fresh_window st sid t"
  shows "fst (sendImmediateMessage cfg sid to msg False t (Inr ()) t' st) = Inr (formatPhoneNumber to) \<and>
         ms_isInitialized (fst (snd (sendImmediateMessage cfg sid to msg False t (Inr ()) t' st))) \<and>
         rateLimiters (fst (snd (sendImmediateMessage cfg sid to msg False t (Inr ()) t' st))) sid
           = Some \<lparr>count = 1, resetAt = window_end st sid t t'\<rparr>"
  using assms
  by (auto simp: sendImmediateMessage_def begin_checked finish_settled checkRateLimit_def
      recordSentMessage_def Let_def fresh_window_def window_end_def split: option.splits)

lemma limit_plus_one:
  assumes "ms_isInitialized st" "validateInputs sid to msg = Inr ()"
    "fresh_window st sid t"
    "length xs = maxMessagesPerMinute cfg" "0 < maxMessagesPerMinute cfg"
    "\<forall>x\<in>set xs. fst x < window_end st sid t t' \<and> fst (snd x) = Inr ()"
  shows "snd (immediate_run cfg sid to msg (one_after_another 0 ((t, Inr (), t') # xs)) (st, [])) =
     map Returned (replicate (maxMessagesPerMinute cfg) (Inr (formatPhoneNumber to)) @
                   [Inl RateLimitExceeded])"
proof -
  let ?r = "sendImmediateMessage cfg sid to msg False t (Inr ()) t' st"
  let ?st1 = "fst (snd ?r)"
  let ?rl = "\<lparr>count = 1, resetAt = window_end st sid t t'\<rparr>"
  note f = first_send[OF assms(1,2,3), of cfg t']
  have rs: "immediate_run cfg sid to msg (one_after_another 0 ((t, Inr (), t') # xs)) (st, []) =
      immediate_run cfg sid to msg (one_after_another (Suc 0) xs) (?st1, [Returned (fst ?r)])"
    using run_step[of "[]" 0 cfg sid to msg t "Inr ()" t' "one_after_another (Suc 0) xs" st]
    by simp
  have "snd (immediate_run cfg sid to msg (one_after_another (Suc 0) xs) (?st1, [Returned (fst ?r)])) =
     [Returned (fst ?r)] @ map Returned
       (replicate (min (length xs) (maxMessagesPerMinute cfg - count ?rl)) (Inr (formatPhoneNumber to)) @
        replicate (length xs - (maxMessagesPerMinute cfg - count ?rl)) (Inl RateLimitExceeded))"
    using f assms by (intro run_in_window) simp_all
  moreover have "min (length xs) (maxMessagesPerMinute cfg - count ?rl) = maxMessagesPerMinute cfg - 1"
    using assms(4) by simp
  moreover have "length xs - (maxMessagesPerMinute cfg - count ?rl) = 1"
    using assms(4,5) by simp
  ultimately have "snd (immediate_run cfg sid to msg (one_after_another (Suc 0) xs) (?st1, [Returned (fst ?r)])) =
     Returned (fst ?r) # map Returned
       (replicate (maxMessagesPerMinute cfg - 1) (Inr (formatPhoneNumber to)) @ [Inl RateLimitExceeded])"
    by simp
  moreover have "Inr (formatPhoneNumber to) # replicate (maxMessagesPerMinute cfg - 1) (Inr (formatPhoneNumber to))
      = replicate (maxMessagesPerMinute cfg) (Inr (formatPhoneNumber to) :: error + string)"
    using assms(5) by (cases "maxMessagesPerMinute cfg") simp_all
  ultimately show ?thesis using f rs
    by (metis (no_types, lifting) append_Cons list.simps(9))
qed

subsection \<open>Example states, evaluated\<close>

lemma default_config_simps [simp]:
  "maxMessagesPerMinute default_config = 20" "cfg_maxRetries default_config = 3"
  "messageDelay default_config = 3000" "maxQueueSize default_config = 1000"
  "sendTimeout default_config = 30000" "queueTimeout default_config = 3600000"
  by (simp_all add: default_config_def MessageSender_config_def or_default_def)

lemma plain_simps [simp]:
  "opt_priority (plain p) = p" "opt_maxRetries (plain p) = 0" "opt_delay (plain p) = 0"
  "opt_timeout (plain p) = 0" "opt_skipRateLimit (plain p) = False"
  by (simp_all add: plain_def)

lemma hello_simps [simp]:
  "msg_id hello = 4" "attempts hello = 0" "maxRetries hello = 3" "expiresAt hello = 3600003"
  "skipRateLimit hello = False" "msg_to hello = ''541145678901@c.us''" "priority hello = Normal"
  by (simp_all add: hello_def new_message_def or_default_def formatPhoneNumber_eq
      is_digit_def)

lemma one_queued_simps [simp]:
  "queue_of one_queued ''s1'' = [hello]" "\<not> paused (processing_of one_queued ''s1'')"
  "rateLimiters one_queued = Map.empty" "messageQueues one_queued ''s1'' = Some [hello]"
  by (simp_all add: one_queued_def startProcessing_def Let_def ms_start_def processing_of_def
       set_queue_def set_processing_def queue_of_def)

lemma checkRateLimit_no_limiter [simp]:
  "rateLimiters st sid = None \<Longrightarrow> checkRateLimit cfg t sid st = (True, st)"
  by (simp add: checkRateLimit_def)

lemma new_message_simps [simp]:
  "priority (new_message cfg c i t m opts) = opt_priority opts"
  "msg_id (new_message cfg c i t m opts) = i"
  "msg_to (new_message cfg c i t m opts) = formatPhoneNumber t"
  "originalTo (new_message cfg c i t m opts) = t"
  "attempts (new_message cfg c i t m opts) = 0"
  "expiresAt (new_message cfg c i t m opts) = c + queueTimeout cfg"
  "skipRateLimit (new_message cfg c i t m opts) = opt_skipRateLimit opts"
  by (simp_all add: new_message_def)

lemma initialized_simps [simp]:
  "ms_isInitialized (set_queue sid q st) = ms_isInitialized st"
  "ms_isInitialized (set_processing sid p st) = ms_isInitialized st"
  "ms_isInitialized (with_current sid m st) = ms_isInitialized st"
  "ms_isInitialized (snd (checkRateLimit cfg t sid st)) = ms_isInitialized st"
  "ms_isInitialized (recordSentMessage t sid st) = ms_isInitialized st"
  "ms_isInitialized (settle_in_flight sid pos m st) = ms_isInitialized st"
  "ms_isInitialized (queue_shift sid st) = ms_isInitialized st"
  "ms_isInitialized (startProcessing sid st) = ms_isInitialized st"
  by (simp_all add: set_queue_def set_processing_def with_current_def checkRateLimit_def
      recordSentMessage_def settle_in_flight_def queue_shift_def startProcessing_def Let_def
      split: option.splits)

lemma initialized_sendMessage [simp]:
  "ms_isInitialized (fst (snd (sendMessage cfg clock mid sid to msg opts known st))) = ms_isInitialized st"
  by (auto simp: sendMessage_def Let_def split: sum.splits)

lemma sendMessage_accepted:
  assumes "ms_isInitialized st" "validateInputs sid to msg = Inr ()" "known"
    "length (queue_of st sid) < maxQueueSize cfg"
  shows "fst (sendMessage cfg clock mid sid to msg opts known st) = Inr (Suc (length (queue_of st sid)))"
    and "snd (snd (sendMessage cfg clock mid sid to msg opts known st)) = [EmitMessageQueued mid]"
  using assms
  by (simp_all add: sendMessage_def ms_ensureInitialized_def Let_def enqueue_def)

lemma loop_steps_append:
  "loop_steps cfg sid (es1 @ es2) st =
     (fst (loop_steps cfg sid es2 (fst (loop_steps cfg sid es1 st))),
      snd (loop_steps cfg sid es1 st) @ snd (loop_steps cfg sid es2 (fst (loop_steps cfg sid es1 st))))"
proof (induction es1 arbitrary: st)
  case Nil
  show ?case by simp
next
  case (Cons e es1)
  show ?case
  proof (cases "paused (processing_of st sid) \<or> queue_of st sid = []")
    case True
    then show ?thesis by (cases es2) auto
  next
    case False
    then obtain m rest where "queue_of st sid = m # rest" by (cases "queue_of st sid") auto
    with False Cons.IH show ?thesis by (simp add: Let_def)
  qed
qed

text \<open>
  The third attempt of the message \<open>hello\<close>, rejected while a client queues a
  high-priority message: \<open>sendMessage\<close> puts the new message first, and the
  \<open>shift\<close> that follows the rejection removes it; \<open>hello\<close> stays.
\<close>

lemma last_attempt_disturbed:
  assumes "ms_isInitialized st" "rateLimiters st ''s1'' = None"
    "queue_of st ''s1'' = [hello\<lparr>attempts := 2, mstatus := Failed\<rparr>]"
  shows "queue_of (fst (iteration default_config ''s1'' rejected_while_queued
                     (hello\<lparr>attempts := 2, mstatus := Failed\<rparr>) [] st)) ''s1''
           = [hello\<lparr>attempts := 3, mstatus := Failed\<rparr>]"
    and "snd (iteration default_config ''s1'' rejected_while_queued
                     (hello\<lparr>attempts := 2, mstatus := Failed\<rparr>) [] st)
           = [SendQueued 4 ''s1'' ''541145678901@c.us'' (body hello), EmitMessageQueued 9,
              MsLogError, MsLogError, EmitMessageFailed 4]"
    and "paused (processing_of (fst (iteration default_config ''s1'' rejected_while_queued
                     (hello\<lparr>attempts := 2, mstatus := Failed\<rparr>) [] st)) ''s1'')
           = paused (processing_of st ''s1'')"
    and "rateLimiters (fst (iteration default_config ''s1'' rejected_while_queued
                     (hello\<lparr>attempts := 2, mstatus := Failed\<rparr>) [] st)) ''s1'' = None"
proof -
  let ?h = "hello\<lparr>attempts := 2, mstatus := Sending\<rparr>"
  let ?A = "with_current ''s1'' ?h (set_queue ''s1'' [?h] st)"
  have v: "validateInputs ''s1'' ''1145678901'' ''urgent'' = Inr ()"
    by (simp add: validateInputs_def)
  have acc: "fst (sendMessage default_config 25 9 ''s1'' ''1145678901'' ''urgent'' (plain High) True ?A)
               = Inr 2"
    "snd (snd (sendMessage default_config 25 9 ''s1'' ''1145678901'' ''urgent'' (plain High) True ?A))
               = [EmitMessageQueued 9]"
    using sendMessage_accepted[of ?A "''s1''" "''1145678901''" "''urgent''" True default_config 25 9
        "plain High"] assms(1) v
    by simp_all
  have chk: "checkRateLimit default_config 30 ''s1'' st = (True, st)"
    using assms(2) by simp
  show "queue_of (fst (iteration default_config ''s1'' rejected_while_queued
                     (hello\<lparr>attempts := 2, mstatus := Failed\<rparr>) [] st)) ''s1''
           = [hello\<lparr>attempts := 3, mstatus := Failed\<rparr>]"
    by (simp add: iteration_def rejected_while_queued_def urgent_call_def Let_def chk acc
        sendMessage_queue_of enqueue_def)
  show "snd (iteration default_config ''s1'' rejected_while_queued
                     (hello\<lparr>attempts := 2, mstatus := Failed\<rparr>) [] st)
           = [SendQueued 4 ''s1'' ''541145678901@c.us'' (body hello), EmitMessageQueued 9,
              MsLogError, MsLogError, EmitMessageFailed 4]"
    by (simp add: iteration_def rejected_while_queued_def urgent_call_def Let_def chk acc)
  show "paused (processing_of (fst (iteration default_config ''s1'' rejected_while_queued
                     (hello\<lparr>attempts := 2, mstatus := Failed\<rparr>) [] st)) ''s1'')
           = paused (processing_of st ''s1'')"
    by (simp add: iteration_def rejected_while_queued_def urgent_call_def Let_def chk acc
        paused_sendMessage)
  show "rateLimiters (fst (iteration default_config ''s1'' rejected_while_queued
                     (hello\<lparr>attempts := 2, mstatus := Failed\<rparr>) [] st)) ''s1'' = None"
    using assms(2)
    by (simp add: iteration_def rejected_while_queued_def urgent_call_def Let_def chk acc
        rateLimiters_sendMessage)
qed

lemma urgent_simps [simp]:
  "msg_id urgent_first = 2" "msg_id urgent_second = 3"
  "expiresAt urgent_first = 3600005" "expiresAt urgent_second = 3600007"
  "skipRateLimit urgent_first = False" "skipRateLimit urgent_second = False"
  "priority urgent_first = High" "priority urgent_second = High"
  by (simp_all add: urgent_first_def urgent_second_def new_message_def plain_def)

lemma sendMessage_hello:
  "sendMessage default_config 3 4 ''s1'' ''1145678901'' ''hello'' (plain Normal) True ms_start
     = (Inr 1, one_queued, [EmitMessageQueued 4])"
  by (simp add: sendMessage_def ms_ensureInitialized_def validateInputs_def ms_start_def Let_def
      one_queued_def hello_def enqueue_def new_message_def plain_def queue_of_def set_queue_def)

lemma two_urgent_simps [simp]:
  "queue_of two_urgent ''s1'' = [urgent_second, urgent_first]"
  "\<not> paused (processing_of two_urgent ''s1'')"
  "rateLimiters two_urgent = Map.empty"
  "messageQueues two_urgent ''s1'' = Some [urgent_second, urgent_first]"
  by (simp_all add: two_urgent_def processing_of_def queue_of_def)

lemma checkRateLimit_in_window:
  "rateLimiters st sid = Some rl \<Longrightarrow> t < resetAt rl
     \<Longrightarrow> checkRateLimit cfg t sid st = (count rl < maxMessagesPerMinute cfg, st)"
  by (simp add: checkRateLimit_def)

lemma two_urgent_is_enqueued:
  "fst (sendMessage default_config 5 2 ''s1'' ''1145678901'' ''second'' (plain High) True idle_paused)
     = Inr 1 \<and>
   fst (sendMessage default_config 7 3 ''s1'' ''1145678901'' ''third'' (plain High) True
          (fst (snd (sendMessage default_config 5 2 ''s1'' ''1145678901'' ''second'' (plain High)
                       True idle_paused)))) = Inr 2 \<and>
   resumeSession ''s1''
     (fst (snd (sendMessage default_config 7 3 ''s1'' ''1145678901'' ''third'' (plain High) True
        (fst (snd (sendMessage default_config 5 2 ''s1'' ''1145678901'' ''second'' (plain High)
                     True idle_paused)))))) = (True, two_urgent)"
proof -
  let ?a = "sendMessage default_config 5 2 ''s1'' ''1145678901'' ''second'' (plain High) True idle_paused"
  let ?s1 = "\<lparr>ms_isInitialized = True, messageQueues = [''s1'' \<mapsto> [urgent_first]],
      rateLimiters = Map.empty,
      processingStatus = [''s1'' \<mapsto> \<lparr>active = False, paused = True, currentMessage = None\<rparr>]\<rparr>"
  have a: "?a = (Inr 1, ?s1, [EmitMessageQueued 2])"
    by (simp add: sendMessage_def ms_ensureInitialized_def validateInputs_def idle_paused_def Let_def
        enqueue_def queue_of_def set_queue_def startProcessing_def processing_of_def
        set_processing_def urgent_first_def)
  let ?b = "sendMessage default_config 7 3 ''s1'' ''1145678901'' ''third'' (plain High) True ?s1"
  let ?s2 = "\<lparr>ms_isInitialized = True, messageQueues = [''s1'' \<mapsto> [urgent_second, urgent_first]],
      rateLimiters = Map.empty,
      processingStatus = [''s1'' \<mapsto> \<lparr>active = False, paused = True, currentMessage = None\<rparr>]\<rparr>"
  have b: "?b = (Inr 2, ?s2, [EmitMessageQueued 3])"
    by (simp add: sendMessage_def ms_ensureInitialized_def validateInputs_def Let_def
        enqueue_def queue_of_def set_queue_def startProcessing_def processing_of_def
        set_processing_def urgent_second_def)
  have r: "resumeSession ''s1'' ?s2 = (True, two_urgent)"
    by (simp add: resumeSession_def Let_def startProcessing_def processing_of_def
        set_processing_def two_urgent_def)
  show ?thesis using a b r by simp
qed

lemma two_urgent_drained:
  "map fst (queued_sends (snd (processQueue default_config ''s1''
      [delivered_at 100, delivered_at 200] two_urgent))) = [3, 2]"
  by (simp add: processQueue_def processQueue_loop_def Let_def iteration_undisturbed delivered_at_def
      rateLimiters_recordSentMessage checkRateLimit_in_window)

lemma immediate_recipients_send:
  "set (immediate_recipients (snd (snd (sendImmediateMessage cfg sid to msg skip t reply t' st))))
     \<subseteq> {formatPhoneNumber to} \<and>
   (\<not> isl (fst (sendImmediateMessage cfg sid to msg skip t reply t' st)) \<longrightarrow>
      immediate_recipients (snd (snd (sendImmediateMessage cfg sid to msg skip t reply t' st)))
        = [formatPhoneNumber to])"
  by (auto simp: sendImmediateMessage_def sendImmediateMessage_begin_def
      sendImmediateMessage_finish_def Let_def split: sum.splits)

lemma begin_hands_over:
  assumes "ms_isInitialized st" "validateInputs sid to msg = Inr ()"
    "skip \<or> fst (checkRateLimit cfg t sid st)"
  shows "sendImmediateMessage_begin cfg sid to msg skip t st =
           (Inr (formatPhoneNumber to), (if skip then st else snd (checkRateLimit cfg t sid st)),
            [SendImmediate sid (formatPhoneNumber to) msg])"
  using assms by (auto simp: sendImmediateMessage_begin_def ms_ensureInitialized_def Let_def)

lemma queued_during_recipient:
  assumes "(i, r, x) \<in> set (queued_during cfg sid es)"
  shows "\<exists>to. r = formatPhoneNumber to"
  using assms call_entries_recipient by (fastforce simp: queued_during_def)

lemma one_queued_initialized [simp]: "ms_isInitialized one_queued"
  by (simp add: one_queued_def ms_start_def)

lemma ms_start_simps [simp]:
  "ms_isInitialized ms_start" "queue_of ms_start sid = []" "rateLimiters ms_start = Map.empty"
  "\<not> paused (processing_of ms_start sid)"
  by (simp_all add: ms_start_def queue_of_def processing_of_def)

lemma two_failed:
  "queue_of (fst (loop_steps default_config ''s1'' [rejected_at 10, rejected_at 20] one_queued)) ''s1''
     = [hello\<lparr>attempts := 2, mstatus := Failed\<rparr>]"
  "snd (loop_steps default_config ''s1'' [rejected_at 10, rejected_at 20] one_queued)
     = [SendQueued 4 ''s1'' ''541145678901@c.us'' (body hello), MsLogError, WaitRetry,
        SendQueued 4 ''s1'' ''541145678901@c.us'' (body hello), MsLogError, WaitRetry]"
  "ms_isInitialized (fst (loop_steps default_config ''s1'' [rejected_at 10, rejected_at 20] one_queued))"
  "rateLimiters (fst (loop_steps default_config ''s1'' [rejected_at 10, rejected_at 20] one_queued)) ''s1''
     = None"
  "\<not> paused (processing_of (fst (loop_steps default_config ''s1'' [rejected_at 10, rejected_at 20]
                                     one_queued)) ''s1'')"
  by (simp_all add: iteration_undisturbed rejected_at_def Let_def)

lemma fourth_attempt:
  assumes "rateLimiters st ''s1'' = None"
  shows "iteration default_config ''s1'' (rejected_at 40) (hello\<lparr>attempts := 3, mstatus := Failed\<rparr>) [] st
     = (with_current ''s1'' (hello\<lparr>attempts := 4, mstatus := Failed\<rparr>) (set_queue ''s1'' [] st),
        [SendQueued 4 ''s1'' ''541145678901@c.us'' (body hello), MsLogError, MsLogError,
         EmitMessageFailed 4])"
  using assms by (simp add: iteration_undisturbed rejected_at_def Let_def)

lemma disturbed_run:
  "snd (loop_steps default_config ''s1''
          [rejected_at 10, rejected_at 20, rejected_while_queued, rejected_at 40] one_queued)
     = [SendQueued 4 ''s1'' ''541145678901@c.us'' (body hello), MsLogError, WaitRetry,
        SendQueued 4 ''s1'' ''541145678901@c.us'' (body hello), MsLogError, WaitRetry,
        SendQueued 4 ''s1'' ''541145678901@c.us'' (body hello), EmitMessageQueued 9,
        MsLogError, MsLogError, EmitMessageFailed 4,
        SendQueued 4 ''s1'' ''541145678901@c.us'' (body hello), MsLogError, MsLogError,
        EmitMessageFailed 4]"
  "queue_of (fst (loop_steps default_config ''s1''
          [rejected_at 10, rejected_at 20, rejected_while_queued] one_queued)) ''s1''
     = [hello\<lparr>attempts := 3, mstatus := Failed\<rparr>]"
  "queue_of (fst (loop_steps default_config ''s1''
          [rejected_at 10, rejected_at 20, rejected_while_queued, rejected_at 40] one_queued)) ''s1'' = []"
proof -
  let ?S2 = "fst (loop_steps default_config ''s1'' [rejected_at 10, rejected_at 20] one_queued)"
  let ?h2 = "hello\<lparr>attempts := 2, mstatus := Failed\<rparr>"
  let ?S3 = "fst (iteration default_config ''s1'' rejected_while_queued ?h2 [] ?S2)"
  note d = last_attempt_disturbed[OF two_failed(3) two_failed(4) two_failed(1)]
  have three: "loop_steps default_config ''s1'' [rejected_while_queued] ?S2
      = iteration default_config ''s1'' rejected_while_queued ?h2 [] ?S2"
    using two_failed(1) two_failed(5) by simp
  have four: "loop_steps default_config ''s1'' [rejected_at 40] ?S3
      = iteration default_config ''s1'' (rejected_at 40) (hello\<lparr>attempts := 3, mstatus := Failed\<rparr>) [] ?S3"
    using d(1) d(3) two_failed(5) by simp
  have a3: "[rejected_at 10, rejected_at 20, rejected_while_queued]
      = [rejected_at 10, rejected_at 20] @ [rejected_while_queued]" by simp
  have a4: "[rejected_at 10, rejected_at 20, rejected_while_queued, rejected_at 40]
      = ([rejected_at 10, rejected_at 20] @ [rejected_while_queued]) @ [rejected_at 40]" by simp
  show "queue_of (fst (loop_steps default_config ''s1''
          [rejected_at 10, rejected_at 20, rejected_while_queued] one_queued)) ''s1''
     = [hello\<lparr>attempts := 3, mstatus := Failed\<rparr>]"
    unfolding a3 loop_steps_append using three d(1) by simp
  show "snd (loop_steps default_config ''s1''
          [rejected_at 10, rejected_at 20, rejected_while_queued, rejected_at 40] one_queued)
     = [SendQueued 4 ''s1'' ''541145678901@c.us'' (body hello), MsLogError, WaitRetry,
        SendQueued 4 ''s1'' ''541145678901@c.us'' (body hello), MsLogError, WaitRetry,
        SendQueued 4 ''s1'' ''541145678901@c.us'' (body hello), EmitMessageQueued 9,
        MsLogError, MsLogError, EmitMessageFailed 4,
        SendQueued 4 ''s1'' ''541145678901@c.us'' (body hello), MsLogError, MsLogError,
        EmitMessageFailed 4]"
    unfolding a4 loop_steps_append
    using three four two_failed(2) d(2) fourth_attempt[OF d(4)] by simp
  show "queue_of (fst (loop_steps default_config ''s1''
          [rejected_at 10, rejected_at 20, rejected_while_queued, rejected_at 40] one_queued)) ''s1'' = []"
    unfolding a4 loop_steps_append
    using three four fourth_attempt[OF d(4)] by simp
qed

lemma two_per_minute_limit [simp]: "maxMessagesPerMinute two_per_minute = 2"
  by (simp add: two_per_minute_def MessageSender_config_def or_default_def)

lemma valid_hi [simp]: "validateInputs ''s1'' ''1145678901'' ''hi'' = Inr ()"
  by (simp add: validateInputs_def)

lemma format_example [simp]: "formatPhoneNumber ''1145678901'' = ''541145678901@c.us''"
  by (simp add: formatPhoneNumber_eq is_digit_def)

lemma one_sent_simps [simp]:
  "ms_isInitialized one_sent" "rateLimiters one_sent ''s1'' = Some \<lparr>count = 1, resetAt = 60010\<rparr>"
  by (simp_all add: one_sent_def)

lemma first_of_three:
  "sendImmediateMessage two_per_minute ''s1'' ''1145678901'' ''hi'' False 10 (Inr ()) 10 ms_start
     = (Inr ''541145678901@c.us'', one_sent,
        [SendImmediate ''s1'' ''541145678901@c.us'' ''hi'', EmitMessageSent ''s1''])"
  by (simp add: sendImmediateMessage_def begin_checked finish_settled Let_def
      recordSentMessage_def ms_start_def one_sent_def)

lemma rejected_of_three:
  "sendImmediateMessage two_per_minute ''s1'' ''1145678901'' ''hi'' False 20 (Inl External) 20 one_sent
     = (Inl External, one_sent, [SendImmediate ''s1'' ''541145678901@c.us'' ''hi'', MsLogError])"
  by (simp add: sendImmediateMessage_def begin_checked finish_settled Let_def
      checkRateLimit_in_window)

lemma third_of_three:
  "fst (sendImmediateMessage two_per_minute ''s1'' ''1145678901'' ''hi'' False 30 (Inr ()) 30 one_sent)
     = Inr ''541145678901@c.us''"
  "sentCount (fst (snd (sendImmediateMessage two_per_minute ''s1'' ''1145678901'' ''hi'' False 30
                          (Inr ()) 30 one_sent))) ''s1'' = 2"
proof -
  have c: "sentCount one_sent ''s1'' = 1" by (simp add: sentCount_def)
  show "fst (sendImmediateMessage two_per_minute ''s1'' ''1145678901'' ''hi'' False 30 (Inr ()) 30 one_sent)
     = Inr ''541145678901@c.us''"
    by (simp add: sendImmediateMessage_def begin_checked finish_settled Let_def
        checkRateLimit_in_window)
  show "sentCount (fst (snd (sendImmediateMessage two_per_minute ''s1'' ''1145678901'' ''hi'' False 30
                          (Inr ()) 30 one_sent))) ''s1'' = 2"
    by (simp add: sendImmediateMessage_def begin_checked finish_settled Let_def
        checkRateLimit_in_window record_increments c)
qed

text \<open>
  Calls that overlap: with a limit of 2, three calls start before the transport has
  settled any of them. Each passes the check, since none has been recorded yet; all
  three succeed and the count of the window ends at 3.
\<close>

lemma overlapping_sends_pass_the_check:
  "snd (immediate_run two_per_minute ''s1'' ''1145678901'' ''hi''
          [CallStarts 10, CallStarts 11, CallStarts 12,
           TransportSettles 0 (Inr ()) 20, TransportSettles 1 (Inr ()) 21,
           TransportSettles 2 (Inr ()) 22] (ms_start, []))
     = [Returned (Inr ''541145678901@c.us''), Returned (Inr ''541145678901@c.us''),
        Returned (Inr ''541145678901@c.us'')] \<and>
   sentCount (fst (immediate_run two_per_minute ''s1'' ''1145678901'' ''hi''
          [CallStarts 10, CallStarts 11, CallStarts 12,
           TransportSettles 0 (Inr ()) 20, TransportSettles 1 (Inr ()) 21,
           TransportSettles 2 (Inr ()) 22] (ms_start, []))) ''s1'' = 3"
proof -
  have c: "sentCount ms_start ''s1'' = 0" by (simp add: sentCount_def)
  show ?thesis
    by (simp add: begin_checked finish_settled Let_def record_increments c)
qed

subsection \<open>The recipient\<close>

text \<open>
  C10. \<open>_formatPhoneNumber\<close> strips every character that is not a digit, prepends
  \<open>54\<close> when exactly 10 digits remain that do not start with \<open>54\<close>, and appends
  \<open>@c.us\<close>. \<open>sendImmediateMessage\<close> hands the transport this address and no other,
  and does so whenever its checks pass. \<open>sendMessage\<close> queues a message whose \<open>to\<close> is
  this address; when the message stands at the head of the queue of a session that is
  not paused, the next iteration of the drain loop that finds it unexpired and allowed by
  the rate limiter calls the transport with this address, the message's id and its text.
  Whatever runs during its sends, the loop hands the transport only the \<open>to\<close> of a
  message of the queue or a formatted address, and the adapter's own suffix test leaves
  the address as it is.
\<close>

theorem recipient_normalized:
  "formatPhoneNumber to =
     (if length (filter is_digit to) = 10 \<and> \<not> prefix ''54'' (filter is_digit to)
      then ''54'' @ filter is_digit to else filter is_digit to) @ ''@c.us'' \<and>
   set (immediate_recipients (snd (snd (sendImmediateMessage cfg sid to msg skip t reply t' st))))
     \<subseteq> {formatPhoneNumber to} \<and>
   (\<not> isl (fst (sendImmediateMessage cfg sid to msg skip t reply t' st)) \<longrightarrow>
      immediate_recipients (snd (snd (sendImmediateMessage cfg sid to msg skip t reply t' st)))
        = [formatPhoneNumber to]) \<and>
   (ms_isInitialized st \<and> validateInputs sid to msg = Inr () \<and>
    (skip \<or> fst (checkRateLimit cfg t sid st)) \<longrightarrow>
      sendImmediateMessage_begin cfg sid to msg skip t st =
        (Inr (formatPhoneNumber to), (if skip then st else snd (checkRateLimit cfg t sid st)),
         [SendImmediate sid (formatPhoneNumber to) msg])) \<and>
   (\<not> isl (fst (sendMessage cfg clock mid sid to msg opts known st)) \<longrightarrow>
      queue_of (fst (snd (sendMessage cfg clock mid sid to msg opts known st))) sid
        = enqueue (new_message cfg clock mid to msg opts) (queue_of st sid) \<and>
      msg_to (new_message cfg clock mid to msg opts) = formatPhoneNumber to) \<and>
   (fst (sendMessage cfg clock mid sid to msg opts known st) = Inr pos \<and>
    (opt_priority opts = High \<or> queue_of st sid = []) \<and>
    \<not> paused (processing_of st sid) \<and> now e \<le> clock + queueTimeout cfg \<and>
    (opt_skipRateLimit opts \<or> fst (checkRateLimit cfg (now e) sid st)) \<longrightarrow>
      take 1 (snd (processQueue cfg sid (e # es)
                     (fst (snd (sendMessage cfg clock mid sid to msg opts known st)))))
        = [SendQueued mid sid (formatPhoneNumber to) msg]) \<and>
   (queue_of st sid = m # rest \<and> \<not> paused (processing_of st sid) \<and> now e \<le> expiresAt m \<and>
    (skipRateLimit m \<or> fst (checkRateLimit cfg (now e) sid st)) \<longrightarrow>
      take 1 (snd (processQueue cfg sid (e # es) st))
        = [SendQueued (msg_id m) sid (msg_to m) (body m)]) \<and>
   (\<forall>i r. (i, r) \<in> set (queued_sends (snd (processQueue cfg sid es st))) \<longrightarrow>
      (\<exists>m\<in>set (queue_of st sid). i = msg_id m \<and> r = msg_to m) \<or>
      (\<exists>x. r = formatPhoneNumber x)) \<and>
   venom_formattedNumber (formatPhoneNumber to) = formatPhoneNumber to"
proof -
  have 1: "\<not> isl (fst (sendMessage cfg clock mid sid to msg opts known st)) \<longrightarrow>
      queue_of (fst (snd (sendMessage cfg clock mid sid to msg opts known st))) sid
        = enqueue (new_message cfg clock mid to msg opts) (queue_of st sid) \<and>
      msg_to (new_message cfg clock mid to msg opts) = formatPhoneNumber to"
    by (simp add: sendMessage_queue_of)
  have 2: "ms_isInitialized st \<and> validateInputs sid to msg = Inr () \<and>
    (skip \<or> fst (checkRateLimit cfg t sid st)) \<longrightarrow>
      sendImmediateMessage_begin cfg sid to msg skip t st =
        (Inr (formatPhoneNumber to), (if skip then st else snd (checkRateLimit cfg t sid st)),
         [SendImmediate sid (formatPhoneNumber to) msg])"
    using begin_hands_over[of st sid to msg skip cfg t] by blast
  have 3: "fst (sendMessage cfg clock mid sid to msg opts known st) = Inr pos \<and>
    (opt_priority opts = High \<or> queue_of st sid = []) \<and>
    \<not> paused (processing_of st sid) \<and> now e \<le> clock + queueTimeout cfg \<and>
    (opt_skipRateLimit opts \<or> fst (checkRateLimit cfg (now e) sid st)) \<longrightarrow>
      take 1 (snd (processQueue cfg sid (e # es)
                     (fst (snd (sendMessage cfg clock mid sid to msg opts known st)))))
        = [SendQueued mid sid (formatPhoneNumber to) msg]"
    using sendMessage_then_processQueue[of cfg clock mid sid to msg opts known st pos e es] by blast
  have 4: "queue_of st sid = m # rest \<and> \<not> paused (processing_of st sid) \<and> now e \<le> expiresAt m \<and>
    (skipRateLimit m \<or> fst (checkRateLimit cfg (now e) sid st)) \<longrightarrow>
      take 1 (snd (processQueue cfg sid (e # es) st))
        = [SendQueued (msg_id m) sid (msg_to m) (body m)]"
    using processQueue_hands_over[of st sid m rest e cfg es] by blast
  have 5: "\<forall>i r. (i, r) \<in> set (queued_sends (snd (processQueue cfg sid es st))) \<longrightarrow>
      (\<exists>m\<in>set (queue_of st sid). i = msg_id m \<and> r = msg_to m) \<or>
      (\<exists>x. r = formatPhoneNumber x)"
    using processQueue_sends[of _ _ cfg sid es st] queued_during_recipient[of _ _ _ cfg sid es]
    by blast
  note 6 = formatPhoneNumber_eq[of to]
  note 7 = immediate_recipients_send[of cfg sid to msg skip t reply t' st, THEN conjunct1]
  note 8 = immediate_recipients_send[of cfg sid to msg skip t reply t' st, THEN conjunct2]
  note 9 = venom_formattedNumber_normalized[of to]
  show ?thesis
    by (intro conjI) (fact 6 7 8 2 1 3 4 5 9)+
qed

text \<open>
  The theorem at the number \<open>+11 4567-8901\<close>, queued for a session and drained, and sent
  at once.
\<close>

theorem recipient_normalized_witness:
  "formatPhoneNumber ''+11 4567-8901'' = ''541145678901@c.us'' \<and>
   fst (sendMessage default_config 3 4 ''s1'' ''+11 4567-8901'' ''hello'' (plain Normal) True ms_start)
     = Inr 1 \<and>
   take 1 (snd (processQueue default_config ''s1'' [delivered_at 10]
                  (fst (snd (sendMessage default_config 3 4 ''s1'' ''+11 4567-8901'' ''hello''
                               (plain Normal) True ms_start)))))
     = [SendQueued 4 ''s1'' ''541145678901@c.us'' ''hello''] \<and>
   sendImmediateMessage_begin default_config ''s1'' ''+11 4567-8901'' ''hello'' False 10 ms_start
     = (Inr ''541145678901@c.us'', ms_start, [SendImmediate ''s1'' ''541145678901@c.us'' ''hello''])"
proof -
  have f: "formatPhoneNumber ''+11 4567-8901'' = ''541145678901@c.us''"
    by (simp add: formatPhoneNumber_eq is_digit_def)
  have v: "validateInputs ''s1'' ''+11 4567-8901'' ''hello'' = Inr ()"
    by (simp add: validateInputs_def)
  have a: "fst (sendMessage default_config 3 4 ''s1'' ''+11 4567-8901'' ''hello'' (plain Normal) True
                  ms_start) = Inr 1"
    using sendMessage_accepted(1)[of ms_start "''s1''" "''+11 4567-8901''" "''hello''" True
        default_config 3 4 "plain Normal"] v
    by simp
  show ?thesis
    using f v a
      recipient_normalized[where to = "''+11 4567-8901''" and cfg = default_config and clock = 3
         and mid = 4 and sid = "''s1''" and msg = "''hello''" and opts = "plain Normal"
         and known = True and st = ms_start and skip = False and t = 10 and pos = 1
         and e = "delivered_at 10" and es = "[]"]
    by (simp add: delivered_at_def)
qed

subsection \<open>Expired messages\<close>

text \<open>
  C5. An iteration of the drain loop whose head message has expired (\<open>now > expiresAt\<close>)
  removes it from the queue and hands nothing to the transport, whatever its attempts
  and \<open>maxRetries\<close>. Over any run of the loop, whatever calls run during its sends, a
  message id whose queued messages are expired at every clock reading of the run, and
  under which no call queues a new message during a send, is never handed to the
  transport. The periodic sweep keeps exactly the messages with \<open>now <= expiresAt\<close>.
\<close>

theorem expired_message_never_sent:
  "(expiresAt m < now e \<longrightarrow>
      iteration cfg sid e m rest st = (with_current sid m (set_queue sid rest st), [MsLogWarn])) \<and>
   ((\<forall>m\<in>set (queue_of st sid). msg_id m = i \<longrightarrow> (\<forall>e\<in>set es. expiresAt m < now e)) \<and>
    (\<forall>e\<in>set es. \<forall>c\<in>set (during e). queued_id sid c \<noteq> Some i) \<longrightarrow>
      i \<notin> fst ` set (queued_sends (snd (processQueue cfg sid es st)))) \<and>
   queue_of (cleanupExpiredMessages clock st) sid
     = filter (\<lambda>m. clock \<le> expiresAt m) (queue_of st sid)"
  using iteration_expired processQueue_expired_never_sent cleanup_queue by blast

text \<open>
  The theorem at a message that expired at 3600003, read at 3600004, also while a client
  queues another message.
\<close>

theorem expired_message_never_sent_witness:
  "expiresAt hello < now (delivered_at 3600004) \<and>
   iteration default_config ''s1'' (delivered_at 3600004) hello [] one_queued
     = (with_current ''s1'' hello (set_queue ''s1'' [] one_queued), [MsLogWarn]) \<and>
   4 \<notin> fst ` set (queued_sends (snd (processQueue default_config ''s1''
                    [delivered_at 3600004, delivered_at 3600005] one_queued))) \<and>
   4 \<notin> fst ` set (queued_sends (snd (processQueue default_config ''s1''
                    [delivered_at 3600004,
                     \<lparr>now = 3600005, transport = Inr (), now_sent = 3600006, during = [urgent_call]\<rparr>]
                    one_queued)))"
  using expired_message_never_sent[of hello "delivered_at 3600004" default_config "''s1''" "[]"
      one_queued 4 "[delivered_at 3600004, delivered_at 3600005]"]
    expired_message_never_sent[where st = one_queued and sid = "''s1''" and i = 4
      and cfg = default_config
      and es = "[delivered_at 3600004,
           \<lparr>now = 3600005, transport = Inr (), now_sent = 3600006, during = [urgent_call]\<rparr>]"]
  by (simp add: delivered_at_def urgent_call_def)

subsection \<open>Priority order\<close>

text \<open>
  C3, as the claim states it, fails: two high-priority messages queued one after the
  other for a paused session are dispatched, once the session resumes, last in first
  out. The message with id 2 was queued first and is dispatched after the one with
  id 3.
\<close>

theorem high_priority_messages_dispatched_lifo:
  "fst (sendMessage default_config 5 2 ''s1'' ''1145678901'' ''second'' (plain High) True idle_paused)
     = Inr 1 \<and>
   fst (sendMessage default_config 7 3 ''s1'' ''1145678901'' ''third'' (plain High) True
          (fst (snd (sendMessage default_config 5 2 ''s1'' ''1145678901'' ''second'' (plain High)
                       True idle_paused)))) = Inr 2 \<and>
   map fst (queued_sends (snd (processQueue default_config ''s1'' [delivered_at 100, delivered_at 200]
     (snd (resumeSession ''s1''
       (fst (snd (sendMessage default_config 7 3 ''s1'' ''1145678901'' ''third'' (plain High) True
          (fst (snd (sendMessage default_config 5 2 ''s1'' ''1145678901'' ''second'' (plain High)
                       True idle_paused))))))))))) = [3, 2]"
  using two_urgent_is_enqueued two_urgent_drained by simp

text \<open>
  C3, amended. \<open>sendMessage\<close> puts a high-priority message at the head of the
  session's queue and any other at the tail: messages inserted one after the other into
  an empty queue stand as the high-priority ones, latest first, followed by the others in
  the order of their insertion. The drain loop dispatches in the order of the queue:
  in a run during whose sends no other call runs, the ids it hands to the transport,
  repeated attempts taken once, are a subsequence of the ids of the queue. So a
  high-priority message queued after N waiting normal ones is dispatched before all of
  them, normal-priority messages are dispatched first in first out, and high-priority
  messages waiting together last in first out.
\<close>

theorem priority_order:
  "(\<not> isl (fst (sendMessage cfg clock mid sid to msg opts known st)) \<longrightarrow>
      queue_of (fst (snd (sendMessage cfg clock mid sid to msg opts known st))) sid =
        (if opt_priority opts = High
         then new_message cfg clock mid to msg opts # queue_of st sid
         else queue_of st sid @ [new_message cfg clock mid to msg opts])) \<and>
   foldl (\<lambda>q m. enqueue m q) [] ms =
     rev (filter (\<lambda>m. priority m = High) ms) @ filter (\<lambda>m. priority m \<noteq> High) ms \<and>
   ((\<forall>e\<in>set es. during e = []) \<longrightarrow>
      subseq (remdups_adj (map fst (queued_sends (snd (processQueue cfg sid es st')))))
             (map msg_id (queue_of st' sid)))"
proof -
  have "\<not> isl (fst (sendMessage cfg clock mid sid to msg opts known st)) \<longrightarrow>
      queue_of (fst (snd (sendMessage cfg clock mid sid to msg opts known st))) sid
        = enqueue (new_message cfg clock mid to msg opts) (queue_of st sid)"
    by (simp add: sendMessage_queue_of)
  then show ?thesis
    using enqueue_all[of "[]" ms] processQueue_dispatch_order[of es cfg sid st']
    by (simp add: enqueue_def)
qed

text \<open>
  The theorem at one queued message, at three insertions, and at a run of two
  iterations on one queued message.
\<close>

theorem priority_order_witness:
  "\<not> isl (fst (sendMessage default_config 3 4 ''s1'' ''1145678901'' ''hello'' (plain Normal) True ms_start)) \<and>
   queue_of one_queued ''s1'' = [hello] \<and>
   foldl (\<lambda>q m. enqueue m q) [] [hello, urgent_first, urgent_second]
     = [urgent_second, urgent_first, hello] \<and>
   subseq (remdups_adj (map fst (queued_sends (snd (processQueue default_config ''s1''
             [rejected_at 10, delivered_at 20] one_queued))))) [4]"
  using priority_order[where cfg = default_config and clock = 3 and mid = 4 and sid = "''s1''"
      and to = "''1145678901''" and msg = "''hello''" and opts = "plain Normal" and known = True
      and st = ms_start and ms = "[hello, urgent_first, urgent_second]"
      and es = "[rejected_at 10, delivered_at 20]" and st' = one_queued]
  by (simp add: sendMessage_hello rejected_at_def delivered_at_def)

subsection \<open>Exhausted retries\<close>

text \<open>
  C2 fails on the code. The loop removes a message whose attempts are used up with
  \<open>queue.shift()\<close>, after the \<open>await\<close> of its last send, and \<open>shift\<close> removes the
  first message of the queue as it then is. Here the message 4 (\<open>maxRetries\<close> 3) is
  alone in the queue of \<open>s1\<close>; its sends at 10, 20 and 30 are rejected, and while the
  third is awaited a client queues the high-priority message 9, which \<open>unshift\<close> puts
  first. The loop then shifts out message 9, which is never handed to the transport, and
  emits \<open>messageFailed\<close> for message 4; message 4 stays in the queue, is sent a
  fourth time at 40, and \<open>messageFailed\<close> is emitted for it once more.
\<close>

theorem message_queued_during_last_attempt:
  "queue_of one_queued ''s1'' = [hello] \<and> msg_id hello = 4 \<and> maxRetries hello = 3 \<and>
   snd (processQueue default_config ''s1''
          [rejected_at 10, rejected_at 20, rejected_while_queued, rejected_at 40] one_queued)
     = [SendQueued 4 ''s1'' ''541145678901@c.us'' (body hello), MsLogError, WaitRetry,
        SendQueued 4 ''s1'' ''541145678901@c.us'' (body hello), MsLogError, WaitRetry,
        SendQueued 4 ''s1'' ''541145678901@c.us'' (body hello), EmitMessageQueued 9,
        MsLogError, MsLogError, EmitMessageFailed 4,
        SendQueued 4 ''s1'' ''541145678901@c.us'' (body hello), MsLogError, MsLogError,
        EmitMessageFailed 4] \<and>
   failure_notifications (snd (processQueue default_config ''s1''
          [rejected_at 10, rejected_at 20, rejected_while_queued, rejected_at 40] one_queued)) = [4, 4] \<and>
   queue_of (fst (processQueue default_config ''s1''
          [rejected_at 10, rejected_at 20, rejected_while_queued] one_queued)) ''s1''
     = [hello\<lparr>attempts := 3, mstatus := Failed\<rparr>] \<and>
   queue_of (fst (processQueue default_config ''s1''
          [rejected_at 10, rejected_at 20, rejected_while_queued, rejected_at 40] one_queued)) ''s1'' = []"
proof -
  have p: "\<And>es. snd (processQueue default_config ''s1'' es one_queued)
             = snd (loop_steps default_config ''s1'' es one_queued) \<and>
           queue_of (fst (processQueue default_config ''s1'' es one_queued)) ''s1''
             = queue_of (fst (loop_steps default_config ''s1'' es one_queued)) ''s1''"
    by (simp add: processQueue_def processQueue_loop_def Let_def loop_exit_def)
  show ?thesis
    using disturbed_run by (simp add: p)
qed

subsection \<open>The rate limiter's window\<close>

text \<open>
  C4, as the claim states it, fails: a send the limiter allows is counted only once the
  transport has accepted it. With a limit of 2 and one message sent in the window, a
  second send is allowed and handed to the transport, the transport rejects it, and the
  count stays 1. Three sends in one window, of which the transport rejects the second,
  are all allowed: two succeed, none is refused by the limiter, and the count ends at
  2, not 3.
\<close>

theorem rejected_send_is_not_counted:
  "fst (checkRateLimit two_per_minute 20 ''s1'' one_sent) \<and>
   sendImmediateMessage two_per_minute ''s1'' ''1145678901'' ''hi'' False 20 (Inl External) 20 one_sent
     = (Inl External, one_sent, [SendImmediate ''s1'' ''541145678901@c.us'' ''hi'', MsLogError]) \<and>
   sentCount one_sent ''s1'' = 1 \<and>
   snd (immediate_run two_per_minute ''s1'' ''1145678901'' ''hi''
          (one_after_another 0 [(10, Inr (), 10), (20, Inl External, 20), (30, Inr (), 30)])
          (ms_start, []))
     = [Returned (Inr ''541145678901@c.us''), Returned (Inl External),
        Returned (Inr ''541145678901@c.us'')] \<and>
   sentCount (fst (immediate_run two_per_minute ''s1'' ''1145678901'' ''hi''
          (one_after_another 0 [(10, Inr (), 10), (20, Inl External, 20), (30, Inr (), 30)])
          (ms_start, []))) ''s1'' = 2"
proof -
  have c: "sentCount one_sent ''s1'' = 1" by (simp add: sentCount_def)
  show ?thesis
    by (simp add: run_step first_of_three rejected_of_three third_of_three checkRateLimit_in_window c
        del: immediate_run.simps(2) immediate_run.simps(3))
qed

text \<open>
  C4, amended. For the configuration the constructor builds (its limit is never 0):
  \<open>_checkRateLimit\<close> allows a send exactly when the count of the session, after the lazy
  reset, is below the limit; a limiter whose \<open>resetAt\<close> has passed is reset by the check
  to count 0 and a window of 60000 ms from now, and is left alone otherwise;
  \<open>_recordSentMessage\<close> adds 1 to the count and opens a window of 60000 ms when there is
  none. \<open>sendImmediateMessage\<close> rejects with the rate-limit error, handing nothing to
  the transport, when the check fails, and hands the message to the transport when it
  passes; the send is counted when the transport has accepted it, and not at all when
  the transport rejects it. Limit + 1 immediate sends in one fresh window, each accepted
  by the transport and each returning before the next starts, give limit successes
  followed by one rejection.
\<close>

theorem rate_limiter_window:
  assumes "cfg = MessageSender_config raw"
  shows
   "(fst (checkRateLimit cfg t sid st)
       \<longleftrightarrow> sentCount (snd (checkRateLimit cfg t sid st)) sid < maxMessagesPerMinute cfg) \<and>
    (\<forall>rl. rateLimiters st sid = Some rl \<longrightarrow>
       (if resetAt rl \<le> t
        then rateLimiters (snd (checkRateLimit cfg t sid st)) sid
               = Some \<lparr>count = 0, resetAt = t + 60000\<rparr>
        else snd (checkRateLimit cfg t sid st) = st)) \<and>
    sentCount (recordSentMessage t sid st) sid = sentCount st sid + 1 \<and>
    (rateLimiters st sid = None \<longrightarrow>
       rateLimiters (recordSentMessage t sid st) sid = Some \<lparr>count = 1, resetAt = t + 60000\<rparr>) \<and>
    (ms_isInitialized st \<and> validateInputs sid to msg = Inr () \<longrightarrow>
       sendImmediateMessage_begin cfg sid to msg False t st =
         (if fst (checkRateLimit cfg t sid st)
          then (Inr (formatPhoneNumber to), snd (checkRateLimit cfg t sid st),
                [SendImmediate sid (formatPhoneNumber to) msg])
          else (Inl RateLimitExceeded, snd (checkRateLimit cfg t sid st), [MsLogError]))) \<and>
    sendImmediateMessage_finish sid f False (Inr ()) t' st
      = (Inr f, recordSentMessage t' sid st, [EmitMessageSent sid]) \<and>
    sendImmediateMessage_finish sid f False (Inl err) t' st = (Inl err, st, [MsLogError]) \<and>
    (ms_isInitialized st \<and> validateInputs sid to msg = Inr () \<and> fresh_window st sid t \<and>
     length xs = maxMessagesPerMinute cfg \<and>
     (\<forall>x\<in>set xs. fst x < window_end st sid t t' \<and> fst (snd x) = Inr ()) \<longrightarrow>
       snd (immediate_run cfg sid to msg (one_after_another 0 ((t, Inr (), t') # xs)) (st, []))
         = map Returned (replicate (maxMessagesPerMinute cfg) (Inr (formatPhoneNumber to)) @
                         [Inl RateLimitExceeded]))"
proof -
  have pos: "0 < maxMessagesPerMinute cfg" using assms config_limit_pos by simp
  have 1: "fst (checkRateLimit cfg t sid st)
       \<longleftrightarrow> sentCount (snd (checkRateLimit cfg t sid st)) sid < maxMessagesPerMinute cfg"
    by (rule check_allowed_iff[OF pos])
  have 2: "\<forall>rl. rateLimiters st sid = Some rl \<longrightarrow>
       (if resetAt rl \<le> t
        then rateLimiters (snd (checkRateLimit cfg t sid st)) sid
               = Some \<lparr>count = 0, resetAt = t + 60000\<rparr>
        else snd (checkRateLimit cfg t sid st) = st)"
    using check_window by blast
  have 3: "sentCount (recordSentMessage t sid st) sid = sentCount st sid + 1"
    by (rule record_increments)
  have 4: "rateLimiters st sid = None \<longrightarrow>
       rateLimiters (recordSentMessage t sid st) sid = Some \<lparr>count = 1, resetAt = t + 60000\<rparr>"
    using record_first by blast
  have 5: "ms_isInitialized st \<and> validateInputs sid to msg = Inr () \<longrightarrow>
       sendImmediateMessage_begin cfg sid to msg False t st =
         (if fst (checkRateLimit cfg t sid st)
          then (Inr (formatPhoneNumber to), snd (checkRateLimit cfg t sid st),
                [SendImmediate sid (formatPhoneNumber to) msg])
          else (Inl RateLimitExceeded, snd (checkRateLimit cfg t sid st), [MsLogError]))"
    using begin_checked by blast
  have 6: "sendImmediateMessage_finish sid f False (Inr ()) t' st
      = (Inr f, recordSentMessage t' sid st, [EmitMessageSent sid])"
    by (rule finish_settled)
  have 7: "sendImmediateMessage_finish sid f False (Inl err) t' st = (Inl err, st, [MsLogError])"
    by (rule finish_settled)
  have 8: "ms_isInitialized st \<and> validateInputs sid to msg = Inr () \<and> fresh_window st sid t \<and>
     length xs = maxMessagesPerMinute cfg \<and>
     (\<forall>x\<in>set xs. fst x < window_end st sid t t' \<and> fst (snd x) = Inr ()) \<longrightarrow>
       snd (immediate_run cfg sid to msg (one_after_another 0 ((t, Inr (), t') # xs)) (st, []))
         = map Returned (replicate (maxMessagesPerMinute cfg) (Inr (formatPhoneNumber to)) @
                         [Inl RateLimitExceeded])"
    using limit_plus_one[of st sid to msg t xs cfg t'] pos by blast
  show ?thesis
    by (intro conjI) (fact 1 2 3 4 5 6 7 8)+
qed

text \<open>
  The theorem at a limit of 2: three sends in a fresh window, one after the other, and a
  spent window checked before and after its end.
\<close>

theorem rate_limiter_window_witness:
  "maxMessagesPerMinute two_per_minute = 2 \<and>
   snd (immediate_run two_per_minute ''s1'' ''1145678901'' ''hi''
          (one_after_another 0 [(10, Inr (), 10), (20, Inr (), 20), (30, Inr (), 30)]) (ms_start, []))
     = [Returned (Inr (formatPhoneNumber ''1145678901'')),
        Returned (Inr (formatPhoneNumber ''1145678901'')), Returned (Inl RateLimitExceeded)] \<and>
   rateLimiters spent_window ''s1'' = Some \<lparr>count = 2, resetAt = 60010\<rparr> \<and>
   rateLimiters (snd (checkRateLimit two_per_minute 70000 ''s1'' spent_window)) ''s1''
     = Some \<lparr>count = 0, resetAt = 130000\<rparr> \<and>
   sendImmediateMessage_begin two_per_minute ''s1'' ''1145678901'' ''hi'' False 50000 spent_window
     = (Inl RateLimitExceeded, spent_window, [MsLogError])"
proof -
  have s: "rateLimiters spent_window ''s1'' = Some \<lparr>count = 2, resetAt = 60010\<rparr>"
    "ms_isInitialized spent_window" "validateInputs ''s1'' ''1145678901'' ''hi'' = Inr ()"
    by (simp_all add: spent_window_def validateInputs_def)
  have r: "rateLimiters (snd (checkRateLimit two_per_minute 70000 ''s1'' spent_window)) ''s1''
     = Some \<lparr>count = 0, resetAt = 130000\<rparr>"
    using s rate_limiter_window[where cfg = two_per_minute and st = spent_window
      and sid = "''s1''" and t = 70000, OF two_per_minute_def]
    by simp
  have c: "checkRateLimit two_per_minute 50000 ''s1'' spent_window = (False, spent_window)"
    using s rate_limiter_window[where cfg = two_per_minute and st = spent_window
      and sid = "''s1''" and t = 50000, OF two_per_minute_def]
    by (simp add: sentCount_def prod_eq_iff)
  have j: "sendImmediateMessage_begin two_per_minute ''s1'' ''1145678901'' ''hi'' False 50000 spent_window
     = (Inl RateLimitExceeded, spent_window, [MsLogError])"
    using s c rate_limiter_window[where cfg = two_per_minute and st = spent_window
      and sid = "''s1''" and to = "''1145678901''" and msg = "''hi''" and t = 50000,
      OF two_per_minute_def]
    by simp
  have h: "ms_isInitialized ms_start \<and> validateInputs ''s1'' ''1145678901'' ''hi'' = Inr () \<and>
     fresh_window ms_start ''s1'' 10 \<and>
     length [(20::nat, Inr () :: error + unit, 20::nat), (30, Inr (), 30)]
       = maxMessagesPerMinute two_per_minute \<and>
     (\<forall>x\<in>set [(20::nat, Inr () :: error + unit, 20::nat), (30, Inr (), 30)].
        fst x < window_end ms_start ''s1'' 10 10 \<and> fst (snd x) = Inr ())"
    by (simp add: fresh_window_def window_end_def)
  have "replicate (maxMessagesPerMinute two_per_minute) (Inr (formatPhoneNumber ''1145678901'') :: error + string)
      = [Inr (formatPhoneNumber ''1145678901''), Inr (formatPhoneNumber ''1145678901'')]"
    by (simp add: numeral_2_eq_2)
  then show ?thesis
    using h s(1) r j rate_limiter_window[where cfg = two_per_minute and st = ms_start
      and sid = "''s1''" and to = "''1145678901''" and msg = "''hi''" and t = 10 and t' = 10
      and xs = "[(20, Inr (), 20), (30, Inr (), 30)]", OF two_per_minute_def]
    by (simp del: immediate_run.simps one_after_another.simps format_example)
qed

subsection \<open>Unsupported pairing-code formats\<close>

lemma qr_select_unsupported:
  "\<not> supported_format fmt \<Longrightarrow> qr_select fmt r = Inl UnsupportedFormat"
  by (simp add: qr_select_def supported_format_def Let_def)

text \<open>
  C8, as the claim states it, fails: for a cached, unexpired record and the format
  \<open>png\<close>, \<open>getQRCode\<close> returns \<open>null\<close> and throws nothing.
\<close>

theorem unsupported_format_returns_null:
  "\<not> supported_format ''png'' \<and> getQRCode 100 ''s1'' ''png'' qr_ex = (Inr None, qr_ex, True)"
  by (simp add: supported_format_def toLowerCase_def to_lower_def getQRCode_def getQRCode_try_def
      qr_select_def qr_ex_def)

text \<open>
  C8, amended. For every cached, unexpired record and every format outside the supported
  set, the unsupported-format error is raised inside \<open>getQRCode\<close>, caught there and
  logged, and \<open>getQRCode\<close> returns \<open>null\<close> with the cache unchanged.
\<close>

theorem getQRCode_unsupported_format:
  assumes "qr_isInitialized st" "map_of (qrCache st) sid = Some r" "clock \<le> qr_expiresAt r"
      "\<not> supported_format fmt"
  shows "fst (getQRCode_try clock sid fmt st) = Inl UnsupportedFormat \<and>
         getQRCode clock sid fmt st = (Inr None, st, True)"
  using assms by (simp add: getQRCode_def getQRCode_try_def qr_select_unsupported)

text \<open>The theorem at the format \<open>svg\<close>.\<close>

theorem getQRCode_unsupported_format_witness:
  "qr_isInitialized qr_ex \<and> \<not> supported_format ''svg'' \<and>
   fst (getQRCode_try 150 ''s1'' ''svg'' qr_ex) = Inl UnsupportedFormat \<and>
   getQRCode 150 ''s1'' ''svg'' qr_ex = (Inr None, qr_ex, True)"
proof -
  have h: "\<not> supported_format ''svg''"
    by (simp add: supported_format_def toLowerCase_def to_lower_def)
  have c: "qr_isInitialized qr_ex" "map_of (qrCache qr_ex) ''s1'' \<noteq> None"
    "150 \<le> qr_expiresAt (the (map_of (qrCache qr_ex) ''s1''))"
    by (simp_all add: qr_ex_def)
  show ?thesis
    using h c getQRCode_unsupported_format[of qr_ex "''s1''" "the (map_of (qrCache qr_ex) ''s1'')"
        150 "''svg''"]
    by auto
qed

subsection \<open>Closing twice\<close>

lemma manager_second_close:
  assumes "get_connection st sid = Some c"
  shows "closeSession sid again (fst (snd (closeSession sid (Inr b) st)))
           = (Inr False, fst (snd (closeSession sid (Inr b) st)), [LogWarn])"
  using assms by (simp add: closeSession_def closeSession_begin_def)

lemma svc_first_ok:
  assumes "fst (svc_closeSession sid r1 w1 st) = Inr b"
  shows "svc_isInitialized (snd (svc_closeSession sid r1 w1 st)) \<and>
     store_isInitialized (svc_store (snd (svc_closeSession sid r1 w1 st))) \<and>
     map_of (sessionsCache (svc_store (snd (svc_closeSession sid r1 w1 st)))) sid \<noteq> None \<and>
     get_connection (svc_cm (snd (svc_closeSession sid r1 w1 st))) sid = None"
  using assms
  apply (simp add: svc_closeSession_def Let_def split: if_splits sum.splits)
  apply (auto simp: updateSession_closed_def Let_def update_conv' closeSession_def closeSession_begin_def
     split: if_splits option.splits sum.splits)
  done

lemma svc_second:
  assumes "svc_isInitialized st" "store_isInitialized (svc_store st)"
     "map_of (sessionsCache (svc_store st)) sid \<noteq> None" "get_connection (svc_cm st) sid = None"
  shows "fst (svc_closeSession sid r2 (Inr ()) st) = Inr True"
  using assms
  by (auto simp: svc_closeSession_def Let_def updateSession_closed_def closeSession_def
      closeSession_begin_def split: option.splits)

lemma svc_twice:
  assumes "fst (svc_closeSession sid r1 w1 st) = Inr b"
  shows "fst (svc_closeSession sid r2 (Inr ()) (snd (svc_closeSession sid r1 w1 st))) = Inr True"
  using svc_first_ok[OF assms] svc_second by blast

lemma svc_ex_closed:
  "fst (svc_closeSession ''s1'' (Inr True) (Inr ()) svc_ex) = Inr True"
  by (simp add: svc_ex_def svc_closeSession_def Let_def updateSession_closed_def closeSession_def
      closeSession_begin_def get_connection_def modify_connection_def set_connection_def
      delete_connection_def)

text \<open>
  C7, as the claim states it, fails for \<open>WhatsAppService.closeSession\<close>: after a
  successful close, the second call on the same id returns \<open>true\<close>.
\<close>

theorem facade_second_close_returns_true:
  "fst (svc_closeSession ''s1'' (Inr True) (Inr ()) svc_ex) = Inr True \<and>
   fst (svc_closeSession ''s1'' (Inr False) (Inr ())
          (snd (svc_closeSession ''s1'' (Inr True) (Inr ()) svc_ex))) = Inr True"
  using svc_ex_closed svc_twice[OF svc_ex_closed] by simp

text \<open>
  C7, amended. After a successful \<open>ConnectionManager.closeSession\<close>, a second call on
  the same id returns \<open>false\<close>, throws nothing, calls the adapter not at all and leaves
  the state as it is. After a successful \<open>WhatsAppService.closeSession\<close>, a second call
  on the same id throws nothing either when the store's write succeeds, and returns
  \<open>true\<close>.
\<close>

theorem closeSession_twice:
  "(get_connection st sid = Some c \<longrightarrow>
      closeSession sid again (fst (snd (closeSession sid (Inr b) st)))
        = (Inr False, fst (snd (closeSession sid (Inr b) st)), [LogWarn])) \<and>
   (fst (svc_closeSession sid r1 w1 svc) = Inr b' \<longrightarrow>
      fst (svc_closeSession sid r2 (Inr ()) (snd (svc_closeSession sid r1 w1 svc))) = Inr True)"
  using manager_second_close svc_twice by blast

text \<open>The theorem at a manager and a facade holding the session \<open>s1\<close>.\<close>

theorem closeSession_twice_witness:
  "get_connection (svc_cm svc_ex) ''s1'' \<noteq> None \<and>
   closeSession ''s1'' (Inr False) (fst (snd (closeSession ''s1'' (Inr True) (svc_cm svc_ex))))
     = (Inr False, fst (snd (closeSession ''s1'' (Inr True) (svc_cm svc_ex))), [LogWarn]) \<and>
   fst (svc_closeSession ''s1'' (Inr True) (Inr ()) svc_ex) = Inr True \<and>
   fst (svc_closeSession ''s1'' (Inl External) (Inr ())
          (snd (svc_closeSession ''s1'' (Inr True) (Inr ()) svc_ex))) = Inr True"
  using svc_ex_closed
    closeSession_twice[where st = "svc_cm svc_ex" and sid = "''s1''"
      and c = "the (get_connection (svc_cm svc_ex) ''s1'')" and again = "Inr False" and b = True
      and ?r1.0 = "Inr True" and ?w1.0 = "Inr ()" and svc = svc_ex and b' = True
      and ?r2.0 = "Inl External"]
  by (simp add: svc_ex_def get_connection_def)

end
